theory Spec2Isabelle
  imports Complex_Main "HOL-Library.Multiset" "HOL-Library.Sublist" "HOL-Library.Log_Nat"
begin

section \<open>Strings and word counting\<close>

text \<open>
  A JavaScript string is a sequence of UTF-16 code units; it is modelled as the list of
  the code units' numbers. String literals of the source are written with \<open>lit\<close>.
\<close>

type_synonym jstext = "nat list"

definition lit :: "string \<Rightarrow> jstext" where
  "lit s = map of_char s"

text \<open>
  The code units matched by the regular expression class \<open>\s\<close> and stripped by
  \<open>String.prototype.trim\<close>: the ECMAScript white space and line terminator code points
  (TAB, LF, VT, FF, CR, SP, NBSP, U+1680, U+2000 to U+200A, LS, PS, U+202F, U+205F, U+3000,
  U+FEFF).
\<close>

definition isWhite :: "nat \<Rightarrow> bool" where
  "isWhite u = (u = 9 \<or> u = 10 \<or> u = 11 \<or> u = 12 \<or> u = 13 \<or> u = 32 \<or> u = 160
     \<or> u = 5760 \<or> (8192 \<le> u \<and> u \<le> 8202) \<or> u = 8232 \<or> u = 8233 \<or> u = 8239
     \<or> u = 8287 \<or> u = 12288 \<or> u = 65279)"

definition trim :: "jstext \<Rightarrow> jstext" where
  "trim s = rev (dropWhile isWhite (rev (dropWhile isWhite s)))"

text \<open>
  \<open>s.split(/\s+/)\<close>: the pieces of \<open>s\<close> between the maximal runs of white space. A run
  at the start or at the end leaves an empty piece there, and the empty string splits into
  one empty piece. The flag says that the previous code unit was white space; \<open>cur\<close> is the
  piece being read.
\<close>

fun splitWhite :: "bool \<Rightarrow> jstext \<Rightarrow> jstext \<Rightarrow> jstext list" where
  "splitWhite inRun cur [] = [cur]"
| "splitWhite inRun cur (u # us) =
     (if isWhite u then (if inRun then splitWhite True [] us else cur # splitWhite True [] us)
      else splitWhite False (cur @ [u]) us)"

text \<open>\<open>countWords\<close> (part_002, lines 279-281; the same body in auditService.ts).\<close>

definition countWords :: "jstext \<Rightarrow> nat" where
  "countWords t = length (filter (\<lambda>w. length w > 0) (splitWhite False [] (trim t)))"

text \<open>\<open>xs.join(sep)\<close> and \<open>xs.slice(-n)\<close>.\<close>

fun join :: "jstext \<Rightarrow> jstext list \<Rightarrow> jstext" where
  "join sep [] = []"
| "join sep [x] = x"
| "join sep (x # y # ys) = x @ sep @ join sep (y # ys)"

definition sliceLast :: "nat \<Rightarrow> 'a list \<Rightarrow> 'a list" where
  "sliceLast n xs = drop (length xs - n) xs"

section \<open>The audit service (server/services/auditService.ts)\<close>

text \<open>
  What awaiting \<open>db.insert(t).values(v).returning({id})\<close> does: the driver throws, or it
  returns the array of the inserted rows' ids. The outcome of each insert is given by the
  environment.
\<close>

datatype exn = DbError | TypeError | LlmError | JobNotFound nat | CriticalPersist

datatype audit_table = AuditEvents | LlmCalls | ChunkProcessingLogs | LengthEnforcementLogs | JobHistory

datatype event_kind = Ev_llm_call | Ev_chunk_processing | Ev_length_enforcement | Ev_job_created

text \<open>
  An insert statement as the environment sees it: the table, and for \<open>llm_calls\<close> the
  \<open>auditEventId\<close> column the row links to (the other columns copy the caller's
  parameters and decide nothing below).
\<close>

datatype insert_stmt = InsertEvent event_kind | InsertRow audit_table "int option"

type_synonym audit_db = "insert_stmt \<Rightarrow> exn + int list"

text \<open>\<open>const [result] = await ...; return result.id\<close>: reading \<open>id\<close> of the first row, a
  TypeError when the array is empty.\<close>

definition firstId :: "exn + int list \<Rightarrow> exn + int" where
  "firstId r = (case r of Inl e \<Rightarrow> Inl e
                | Inr [] \<Rightarrow> Inl TypeError
                | Inr (i # _) \<Rightarrow> Inr i)"

text \<open>\<open>try { body } catch (error) { console.error(...); return -1; }\<close>\<close>

definition orMinusOne :: "exn + int \<Rightarrow> exn + int" where
  "orMinusOne body = (case body of Inl e \<Rightarrow> Inr (- 1) | Inr v \<Rightarrow> Inr v)"

definition logAuditEvent :: "audit_db \<Rightarrow> event_kind \<Rightarrow> exn + int" where
  "logAuditEvent db ev = orMinusOne (firstId (db (InsertEvent ev)))"

text \<open>\<open>auditEventId > 0 ? auditEventId : undefined\<close>\<close>

definition auditLink :: "int \<Rightarrow> int option" where
  "auditLink auditEventId = (if auditEventId > 0 then Some auditEventId else None)"

text \<open>The \<open>auditEventId\<close> column that \<open>logLLMCall\<close> writes: the id returned by its call of
  \<open>logAuditEvent\<close> if that is positive, otherwise none.\<close>

definition llmLinkOf :: "audit_db \<Rightarrow> int option" where
  "llmLinkOf db = (case logAuditEvent db Ev_llm_call of Inl e \<Rightarrow> None | Inr a \<Rightarrow> auditLink a)"

definition logLLMCall :: "audit_db \<Rightarrow> exn + int" where
  "logLLMCall db = orMinusOne
     (case logAuditEvent db Ev_llm_call of
        Inl e \<Rightarrow> Inl e
      | Inr auditEventId \<Rightarrow> firstId (db (InsertRow LlmCalls (auditLink auditEventId))))"

definition logChunkProcessing :: "audit_db \<Rightarrow> exn + int" where
  "logChunkProcessing db = orMinusOne
     (case logAuditEvent db Ev_chunk_processing of
        Inl e \<Rightarrow> Inl e
      | Inr _ \<Rightarrow> firstId (db (InsertRow ChunkProcessingLogs None)))"

definition logLengthEnforcement :: "audit_db \<Rightarrow> exn + int" where
  "logLengthEnforcement db = orMinusOne
     (case logAuditEvent db Ev_length_enforcement of
        Inl e \<Rightarrow> Inl e
      | Inr _ \<Rightarrow> firstId (db (InsertRow LengthEnforcementLogs None)))"

definition createJobHistoryEntry :: "audit_db \<Rightarrow> exn + int" where
  "createJobHistoryEntry db = orMinusOne
     (case logAuditEvent db Ev_job_created of
        Inl e \<Rightarrow> Inl e
      | Inr _ \<Rightarrow> firstId (db (InsertRow JobHistory None)))"

section \<open>The reconstruction store and the controller's state (part_002)\<close>

datatype job_status = J_pending | J_skeleton_extraction | J_chunk_processing | J_stitching
  | J_complete | J_failed | J_aborted

datatype chunk_status = C_pending | C_processing | C_complete | C_failed

datatype length_mode = Compress | Preserve | Expand | Custom

text \<open>
  Modelled from the spec: the types \<open>ChunkDelta\<close> and \<open>GlobalSkeleton\<close> are imported from
  \<open>@shared/schema\<close>, which is not among the sources. A delta has the four lists the
  controller reads, each possibly missing (the source reads them as \<open>field || []\<close>); a
  conflict has the three fields of the spec. The controller never looks inside a skeleton or
  a stitch result: they are opaque payloads.
\<close>

record conflict =
  description :: jstext
  withChunk :: nat
  severity :: jstext

record chunk_delta =
  newClaimsIntroduced :: "jstext list option"
  termsUsed :: "jstext list option"
  conflictsDetected :: "conflict list option"
  ledgerAdditions :: "jstext list option"

datatype skeleton = Skeleton "jstext list"

datatype stitch_result = StitchResult jstext

record length_config =
  targetMin :: int
  targetMax :: int
  targetMid :: int
  lengthRatio :: rat
  lengthMode :: length_mode
  chunkTargetWords :: int

text \<open>
  A row of \<open>reconstruction_documents\<close> (the Job) and a row of \<open>reconstruction_chunks\<close>,
  with the columns the controller reads or writes. JavaScript numbers that hold counts are
  naturals or integers; the length ratio, a double, is the rational number that the double
  holds. Time stamps are milliseconds.
\<close>

record job_row =
  j_id :: nat
  j_originalText :: jstext
  j_wordCount :: nat
  j_status :: job_status
  j_targetMinWords :: int
  j_targetMaxWords :: int
  j_targetMidWords :: int
  j_lengthRatio :: rat
  j_lengthMode :: length_mode
  j_chunkTargetWords :: int
  j_numChunks :: nat
  j_currentChunk :: nat
  j_audienceParameters :: "jstext option"
  j_rigorLevel :: "jstext option"
  j_customInstructions :: "jstext option"
  j_globalSkeleton :: "skeleton option"
  j_finalOutput :: "jstext option"
  j_finalWordCount :: "nat option"
  j_validationResult :: "stitch_result option"
  j_errorMessage :: "exn option"
  j_updatedAt :: int

record chunk_row =
  c_id :: nat
  c_documentId :: nat
  c_chunkIndex :: nat
  c_chunkInputText :: jstext
  c_chunkInputWords :: nat
  c_targetWords :: int
  c_minWords :: int
  c_maxWords :: int
  c_chunkOutputText :: "jstext option"
  c_actualWords :: "nat option"
  c_chunkDelta :: "chunk_delta option"
  c_status :: chunk_status

record job_state =
  aborted :: bool
  startTime :: int

subsection \<open>Messages\<close>

datatype chunk_verdict = On_target | Flagged

datatype phase = Ph_skeleton_extraction | Ph_chunk_processing | Ph_stitching

record chunk_complete_msg =
  m_chunkIndex :: nat
  m_totalChunks :: nat
  m_chunkText :: jstext
  m_actualWords :: nat
  m_targetWords :: int
  m_minWords :: int
  m_maxWords :: int
  m_runningTotal :: nat
  m_projectedFinal :: int
  m_status :: chunk_verdict

record progress_stats =
  p_completedChunks :: nat
  p_totalChunks :: nat
  p_wordsProcessed :: nat
  p_targetWords :: int
  p_projectedFinal :: int
  p_timeElapsed :: int
  p_estimatedRemaining :: rat

text \<open>The texts of error messages are represented by their template and its arguments.\<close>

datatype error_text = TextRequired | InputTooLong nat | DocumentTooShort nat | DatabaseError
  | JobIdRequired | NotRunning nat | NotFound nat | AlreadyRunning nat | ParseFailure

datatype message =
    ErrorMsg error_text
  | JobStarted nat nat nat int length_mode rat
  | Progress nat phase "progress_stats option"
  | ChunkComplete nat chunk_complete_msg
  | Warning nat int int int
  | JobComplete nat jstext nat int stitch_result int
  | JobFailed nat exn
  | JobAborted nat nat nat jstext nat
  | AbortAcknowledged nat
  | JobAlreadyComplete nat "jstext option" "nat option"
  | JobResumed nat job_status nat nat
  | JobStatus nat job_status nat nat nat nat int bool

text \<open>
  An emission is one call of \<open>broadcastToJob(jobId, m)\<close> or of \<open>sendToClient(ws, m)\<close>; which
  sockets are subscribed is not modelled.
\<close>

datatype emission = Broadcast nat message | Direct message

subsection \<open>Statements, console lines, calls\<close>

datatype doc_update = SetStatus job_status | SetSkeleton | SetCurrentChunk nat | SetFinal | SetFailed

datatype stmt =
    InsertDocument
  | InsertChunk nat
  | SelectDocument nat
  | UpdateDocument nat doc_update
  | SelectChunks nat
  | SelectPriorChunks nat nat
  | UpdateChunkProcessing nat
  | UpdateChunkComplete nat
  | VerifyChunk nat
  | SelectCompleteChunks nat
  | SelectCompleteDocuments
  | DeleteChunks nat
  | DeleteDocument nat

datatype console_line =
    DbFailed stmt
  | NullPriorDeltas "nat list"
  | DeltaVerificationFailed nat
  | DeltaVerified nat

datatype llm_call = ExtractSkeleton | Reconstruct nat | Stitch

text \<open>
  The points at which the worker awaits and the event loop can run the handler of an
  \<open>abort_job\<close> message: during skeleton extraction (before the check of line 412), while
  the chunk rows are selected (between that check and the first check of the loop), during
  the processing of the chunk at a position of the loop (after its check, before its
  \<open>chunk_complete\<close>), during the pause after a chunk, and during stitching.
\<close>

datatype yield_point = DuringSkeleton | BeforeLoop | DuringChunk nat | AfterChunk nat | DuringStitch

subsection \<open>The state and the environment\<close>

text \<open>
  The state: the two tables, the in-memory registry \<open>activeJobs\<close>, the messages emitted
  so far in emission order, the console lines that matter below, the clock
  (\<open>Date.now()\<close>), the next values of the two SERIAL keys, and two history variables that
  the source does not have: \<open>llmLog\<close> records every call of an LLM-backed function (the
  record of the stub), \<open>statusLog\<close> every committed write of a chunk's status column as
  (chunk id, old status, new status).
\<close>

record sys =
  documents :: "job_row list"
  chunksT :: "chunk_row list"
  activeJobs :: "nat \<rightharpoonup> job_state"
  outbox :: "emission list"
  console :: "console_line list"
  now :: int
  nextDocumentId :: nat
  nextChunkId :: nat
  llmLog :: "llm_call list"
  statusLog :: "(nat \<times> chunk_status \<times> chunk_status) list"

text \<open>
  The environment: the functions of \<open>./crossChunkCoherence\<close> (not among the sources), taken
  as deterministic parameters, the LLM-backed ones possibly throwing; which statements the
  store refuses (\<open>dbFails\<close>); what the store holds in \<open>chunk_delta\<close> after the write of a
  chunk, by chunk id (\<open>persistDelta\<close>, \<open>Some\<close> of the delta for a faithful store); and at
  which await points an \<open>abort_job\<close> message for the job is handled.
  \<open>lengthConfigFor\<close> stands for \<open>parseTargetLength\<close> followed by \<open>calculateLengthConfig\<close>.
\<close>

record env =
  extractGlobalSkeleton :: "jstext \<Rightarrow> jstext option \<Rightarrow> jstext option \<Rightarrow> exn + skeleton"
  reconstructChunkConstrained ::
    "jstext \<Rightarrow> nat \<Rightarrow> nat \<Rightarrow> skeleton \<Rightarrow> length_config \<Rightarrow> jstext \<Rightarrow> exn + (jstext \<times> chunk_delta)"
  stitchAndValidate :: "skeleton \<Rightarrow> (jstext option \<times> chunk_delta) list \<Rightarrow> exn + (jstext \<times> stitch_result)"
  smartChunk :: "jstext \<Rightarrow> (jstext \<times> nat) list"
  lengthConfigFor :: "nat \<Rightarrow> jstext option \<Rightarrow> length_config"
  dbFails :: "stmt \<Rightarrow> bool"
  persistDelta :: "nat \<Rightarrow> chunk_delta \<Rightarrow> chunk_delta option"
  abortArrives :: "yield_point \<Rightarrow> bool"

subsection \<open>Primitives: emitting, logging, the store\<close>

definition emit :: "emission \<Rightarrow> sys \<Rightarrow> sys" where
  "emit m st = st\<lparr>outbox := outbox st @ [m]\<rparr>"

definition broadcastToJob :: "nat \<Rightarrow> message \<Rightarrow> sys \<Rightarrow> sys" where
  "broadcastToJob jobId m st = emit (Broadcast jobId m) st"

definition sendToClient :: "message \<Rightarrow> sys \<Rightarrow> sys" where
  "sendToClient m st = emit (Direct m) st"

definition sendError :: "error_text \<Rightarrow> sys \<Rightarrow> sys" where
  "sendError e st = sendToClient (ErrorMsg e) st"

definition broadcastProgress :: "nat \<Rightarrow> phase \<Rightarrow> progress_stats option \<Rightarrow> sys \<Rightarrow> sys" where
  "broadcastProgress jobId ph stats st = broadcastToJob jobId (Progress jobId ph stats) st"

definition logLine :: "console_line \<Rightarrow> sys \<Rightarrow> sys" where
  "logLine l st = st\<lparr>console := console st @ [l]\<rparr>"

definition recordCall :: "llm_call \<Rightarrow> sys \<Rightarrow> sys" where
  "recordCall c st = st\<lparr>llmLog := llmLog st @ [c]\<rparr>"

text \<open>
  \<open>try { await db.update(...) } catch (dbError) { console.error(...) }\<close>: a refused
  statement changes nothing and is logged; the worker goes on.
\<close>

definition guarded :: "env \<Rightarrow> stmt \<Rightarrow> (sys \<Rightarrow> sys) \<Rightarrow> sys \<Rightarrow> sys" where
  "guarded E s upd st = (if dbFails E s then logLine (DbFailed s) st else upd st)"

text \<open>\<open>db.update(reconstructionDocuments).set({..., updatedAt: new Date()}).where(id = jobId)\<close>\<close>

definition updateDocument :: "nat \<Rightarrow> (job_row \<Rightarrow> job_row) \<Rightarrow> sys \<Rightarrow> sys" where
  "updateDocument jobId f st =
     st\<lparr>documents := map (\<lambda>j. if j_id j = jobId then (f j)\<lparr>j_updatedAt := now st\<rparr> else j) (documents st)\<rparr>"

text \<open>\<open>db.update(reconstructionChunks).set(...).where(id = chunkId)\<close>; the history variable
  \<open>statusLog\<close> gets one entry for each row written.\<close>

definition updateChunk :: "nat \<Rightarrow> (chunk_row \<Rightarrow> chunk_row) \<Rightarrow> sys \<Rightarrow> sys" where
  "updateChunk chunkId f st =
     st\<lparr>chunksT := map (\<lambda>c. if c_id c = chunkId then f c else c) (chunksT st),
        statusLog := statusLog st @
          map (\<lambda>c. (c_id c, c_status c, c_status (f c))) (filter (\<lambda>c. c_id c = chunkId) (chunksT st))\<rparr>"

text \<open>\<open>const [job] = await db.select().from(reconstructionDocuments).where(id = jobId)\<close>:
  the first row with the id, or \<open>undefined\<close>.\<close>

definition selectDocument :: "nat \<Rightarrow> sys \<Rightarrow> job_row option" where
  "selectDocument jobId st = find (\<lambda>j. j_id j = jobId) (documents st)"

text \<open>The chunk rows of a job \<open>orderBy(asc(chunkIndex))\<close>; rows with equal index keep the
  table's order.\<close>

definition selectChunks :: "nat \<Rightarrow> sys \<Rightarrow> chunk_row list" where
  "selectChunks jobId st = sort_key c_chunkIndex (filter (\<lambda>c. c_documentId c = jobId) (chunksT st))"

definition selectCompleteChunks :: "nat \<Rightarrow> sys \<Rightarrow> chunk_row list" where
  "selectCompleteChunks jobId st =
     sort_key c_chunkIndex (filter (\<lambda>c. c_documentId c = jobId \<and> c_status c = C_complete) (chunksT st))"

text \<open>\<open>activeJobs.get(jobId)?.aborted\<close>\<close>

definition abortedFlag :: "nat \<Rightarrow> sys \<Rightarrow> bool" where
  "abortedFlag jobId st = (case activeJobs st jobId of None \<Rightarrow> False | Some js \<Rightarrow> aborted js)"

definition activeJobsDelete :: "nat \<Rightarrow> sys \<Rightarrow> sys" where
  "activeJobsDelete jobId st = st\<lparr>activeJobs := (activeJobs st)(jobId := None)\<rparr>"

subsection \<open>\<open>abortJob\<close> (lines 699-707) and the await points\<close>

definition abortJob :: "nat \<Rightarrow> sys \<Rightarrow> sys" where
  "abortJob jobId st =
     (case activeJobs st jobId of
        Some jobState \<Rightarrow>
          sendToClient (AbortAcknowledged jobId)
            (st\<lparr>activeJobs := (activeJobs st)(jobId \<mapsto> jobState\<lparr>aborted := True\<rparr>)\<rparr>)
      | None \<Rightarrow> sendError (NotRunning jobId) st)"

definition yield :: "env \<Rightarrow> yield_point \<Rightarrow> nat \<Rightarrow> sys \<Rightarrow> sys" where
  "yield E y jobId st = (if abortArrives E y then abortJob jobId st else st)"

subsection \<open>\<open>getPriorDeltas\<close> (lines 83-123) and \<open>buildPriorDeltasSummary\<close> (lines 126-166)\<close>

text \<open>\<open>priorChunks.map(c => c.chunkDelta).filter(Boolean)\<close>: a delta is an object, so the
  filter drops exactly the nulls.\<close>

definition validDeltasOf :: "chunk_row list \<Rightarrow> chunk_delta list" where
  "validDeltasOf rows = concat (map (\<lambda>c. case c_chunkDelta c of None \<Rightarrow> [] | Some d \<Rightarrow> [d]) rows)"

definition priorChunksOf :: "nat \<Rightarrow> nat \<Rightarrow> chunk_row list \<Rightarrow> chunk_row list" where
  "priorChunksOf jobId currentChunkIndex table =
     sort_key c_chunkIndex
       (filter (\<lambda>c. c_documentId c = jobId \<and> c_chunkIndex c < currentChunkIndex) table)"

definition getPriorDeltas :: "env \<Rightarrow> nat \<Rightarrow> nat \<Rightarrow> sys \<Rightarrow> (exn + chunk_delta list) \<times> sys" where
  "getPriorDeltas E jobId currentChunkIndex st =
     (if currentChunkIndex = 0 then (Inr [], st)
      else if dbFails E (SelectPriorChunks jobId currentChunkIndex) then (Inl DbError, st)
      else
        let priorChunks = priorChunksOf jobId currentChunkIndex (chunksT st);
            nullDeltas = filter (\<lambda>c. c_chunkDelta c = None) priorChunks;
            st1 = (if length nullDeltas > 0
                   then logLine (NullPriorDeltas (map c_chunkIndex nullDeltas)) st else st)
        in (Inr (validDeltasOf priorChunks), st1))"

text \<open>\<open>field || []\<close>\<close>

definition orEmpty :: "'a list option \<Rightarrow> 'a list" where
  "orEmpty f = (case f of None \<Rightarrow> [] | Some xs \<Rightarrow> xs)"

text \<open>The three accumulators after the \<open>forEach\<close> over the prior deltas.\<close>

definition accumulatedClaims :: "chunk_delta list \<Rightarrow> jstext list" where
  "accumulatedClaims ds = concat (map (\<lambda>d. orEmpty (newClaimsIntroduced d)) ds)"

definition accumulatedTerms :: "chunk_delta list \<Rightarrow> jstext list" where
  "accumulatedTerms ds = concat (map (\<lambda>d. orEmpty (termsUsed d)) ds)"

definition accumulatedConflicts :: "chunk_delta list \<Rightarrow> jstext list" where
  "accumulatedConflicts ds = concat (map (\<lambda>d. map description (orEmpty (conflictsDetected d))) ds)"

text \<open>\<open>Array.from(new Set(xs))\<close>: the distinct elements in the order of their first
  occurrence.\<close>

definition uniqueInOrder :: "'a list \<Rightarrow> 'a list" where
  "uniqueInOrder xs = rev (remdups (rev xs))"

text \<open>The decimal digits of a number, for the template \<open>(${priorDeltas.length} chunks)\<close>.\<close>

fun digitsFuel :: "nat \<Rightarrow> nat \<Rightarrow> jstext" where
  "digitsFuel 0 n = []"
| "digitsFuel (Suc k) n = (if n < 10 then [48 + n] else digitsFuel k (n div 10) @ [48 + n mod 10])"

definition showNat :: "nat \<Rightarrow> jstext" where
  "showNat n = digitsFuel (Suc n) n"

text \<open>\<open>a || b\<close> on strings: the empty string is falsy.\<close>

definition orElse :: "jstext \<Rightarrow> jstext \<Rightarrow> jstext" where
  "orElse a b = (if a = [] then b else a)"

text \<open>
  The text of the summary from the number of deltas and the three lists shown. The source
  tests \<open>accumulatedConflicts.length > 0\<close> before it prints the last five conflicts; the
  slice of a non-empty list is non-empty, so the test is made on the slice. The list
  \<open>summaryLines\<close> of the source is filled in the loop and never read, so it is left out.
\<close>

definition renderSummary :: "nat \<Rightarrow> jstext list \<Rightarrow> jstext list \<Rightarrow> jstext list \<Rightarrow> jstext" where
  "renderSummary n claims terms conflicts =
     lit ''=== PRIOR CHUNKS COHERENCE CONTEXT ('' @ showNat n @ lit '' chunks) ==='' @ [10]
     @ lit ''ACCUMULATED CLAIMS (you MUST NOT contradict these):'' @ [10]
     @ orElse (join [10] (map (\<lambda>c. lit ''  - '' @ c) claims)) (lit ''  (none yet)'')
     @ [10, 10] @ lit ''TERMS ALREADY USED (use consistently):'' @ [10]
     @ orElse (join (lit '', '') terms) (lit ''(none yet)'')
     @ (if length conflicts > 0
        then [10, 10] @ lit ''PREVIOUS CONFLICTS DETECTED (avoid repeating):'' @ [10]
             @ join [10] (map (\<lambda>c. lit ''  - '' @ c) conflicts)
        else [])"

definition shownClaims :: "chunk_delta list \<Rightarrow> jstext list" where
  "shownClaims ds = sliceLast 15 (accumulatedClaims ds)"

definition shownTerms :: "chunk_delta list \<Rightarrow> jstext list" where
  "shownTerms ds = sliceLast 20 (uniqueInOrder (accumulatedTerms ds))"

definition shownConflicts :: "chunk_delta list \<Rightarrow> jstext list" where
  "shownConflicts ds = sliceLast 5 (accumulatedConflicts ds)"

definition buildPriorDeltasSummary :: "chunk_delta list \<Rightarrow> jstext" where
  "buildPriorDeltasSummary priorDeltas =
     (if length priorDeltas = 0
      then lit ''This is the first chunk. No prior context to maintain.''
      else renderSummary (length priorDeltas) (shownClaims priorDeltas) (shownTerms priorDeltas)
             (shownConflicts priorDeltas))"

subsection \<open>\<open>handleAbort\<close> (lines 663-697)\<close>

text \<open>\<open>completedChunks.map(c => c.chunkOutputText).join('\n\n')\<close>; \<open>join\<close> prints a
  null element as the empty string.\<close>

definition partialOutputOf :: "chunk_row list \<Rightarrow> jstext" where
  "partialOutputOf completedChunks =
     join [10, 10] (map (\<lambda>c. case c_chunkOutputText c of None \<Rightarrow> [] | Some t \<Rightarrow> t) completedChunks)"

text \<open>The result is the exception thrown, if any, and the state reached. The two selects
  are outside any handler of \<open>handleAbort\<close>: a refused one throws to the caller.\<close>

definition handleAbort :: "env \<Rightarrow> nat \<Rightarrow> sys \<Rightarrow> exn option \<times> sys" where
  "handleAbort E jobId st =
     (let st1 = guarded E (UpdateDocument jobId (SetStatus J_aborted))
                  (updateDocument jobId (\<lambda>j. j\<lparr>j_status := J_aborted\<rparr>)) st
      in if dbFails E (SelectCompleteChunks jobId) then (Some DbError, st1)
         else if dbFails E (SelectDocument jobId) then (Some DbError, st1)
         else
           let completedChunks = selectCompleteChunks jobId st1;
               job = selectDocument jobId st1;
               partialOutput = partialOutputOf completedChunks;
               wordCount = countWords partialOutput;
               st2 = broadcastToJob jobId
                       (JobAborted jobId (length completedChunks)
                          (case job of None \<Rightarrow> 0 | Some j \<Rightarrow> j_numChunks j) partialOutput wordCount) st1
           in (None, activeJobsDelete jobId st2))"

subsection \<open>One iteration of the chunk loop of \<open>processJobAsync\<close> (lines 440-561)\<close>

text \<open>
  JavaScript numbers are IEEE 754 binary64 values. A finite double is a rational number,
  and \<open>*\<close> and \<open>/\<close> return the double nearest to the exact result, a tie going to the
  even significand. \<open>fl x\<close> is that double for the rational \<open>x\<close>: \<open>binade x\<close> is the
  exponent \<open>e\<close> with \<open>2^e \<le> x < 2^(e+1)\<close>, the significand has 53 bits, and below
  \<open>2^-1022\<close> the spacing stays that of the subnormal numbers. Results of magnitude
  \<open>2^1024\<close> and above (Infinity in the source) are outside the model.
\<close>

definition pow2 :: "int \<Rightarrow> rat" where
  "pow2 e = (if 0 \<le> e then 2 ^ nat e else 1 / 2 ^ nat (- e))"

definition binade :: "rat \<Rightarrow> int" where
  "binade x = (let d = bitlen (fst (quotient_of x)) - bitlen (snd (quotient_of x))
               in if pow2 d \<le> x then d else d - 1)"

definition roundHalfEven :: "rat \<Rightarrow> int" where
  "roundHalfEven x =
     (let f = \<lfloor>x\<rfloor>; r = x - of_int f
      in if r < 1 / 2 then f else if 1 / 2 < r then f + 1 else if even f then f else f + 1)"

definition fl :: "rat \<Rightarrow> rat" where
  "fl x = (if x = 0 then 0
           else let u = pow2 (max (binade \<bar>x\<bar>) (- 1022) - 52)
                in sgn x * of_int (roundHalfEven (\<bar>x\<bar> / u)) * u)"

text \<open>\<open>a * b\<close> and \<open>a / b\<close> on doubles.\<close>

definition dmul :: "rat \<Rightarrow> rat \<Rightarrow> rat" where
  "dmul a b = fl (a * b)"

definition ddiv :: "rat \<Rightarrow> rat \<Rightarrow> rat" where
  "ddiv a b = fl (a / b)"

text \<open>\<open>Math.round\<close> rounds to the nearest integer, a half upwards.\<close>

definition jsRound :: "rat \<Rightarrow> int" where
  "jsRound x = \<lfloor>x + 1 / 2\<rfloor>"

definition projectedFinalOf :: "nat \<Rightarrow> nat \<Rightarrow> nat \<Rightarrow> int" where
  "projectedFinalOf runningWordCount chunkIndex numChunks =
     jsRound (dmul (ddiv (of_nat runningWordCount) (of_nat (chunkIndex + 1))) (of_nat numChunks))"

definition shortfallOf :: "int \<Rightarrow> int \<Rightarrow> rat" where
  "shortfallOf targetMidWords projectedFinal =
     dmul (ddiv (of_int (targetMidWords - projectedFinal)) (of_int targetMidWords)) 100"

text \<open>
  The warning of lines 530-543, if one is broadcast after the chunk with this index. With
  \<open>targetMidWords = 0\<close> the quotient of the source is NaN or an infinity: it is greater
  than 25 only for +Infinity, that is for a negative projection.
\<close>

definition warningAfter :: "nat \<Rightarrow> nat \<Rightarrow> int \<Rightarrow> int \<Rightarrow> message option" where
  "warningAfter jobId chunkIndex targetMidWords projectedFinal =
     (if chunkIndex \<ge> 19 \<and> chunkIndex mod 10 = 0
      then (if (if targetMidWords = 0 then projectedFinal < 0
                else shortfallOf targetMidWords projectedFinal > 25)
            then Some (Warning jobId projectedFinal targetMidWords
                         (jsRound (shortfallOf targetMidWords projectedFinal)))
            else None)
      else None)"

definition lengthConfigOfJob :: "job_row \<Rightarrow> length_config" where
  "lengthConfigOfJob job =
     \<lparr>targetMin = j_targetMinWords job, targetMax = j_targetMaxWords job,
      targetMid = j_targetMidWords job, lengthRatio = j_lengthRatio job,
      lengthMode = j_lengthMode job, chunkTargetWords = j_chunkTargetWords job\<rparr>"

text \<open>
  Lines 473-499: the write of the chunk's output, delta and status \<open>complete\<close>, and the
  verification read. Both statements are inside one \<open>try\<close> whose handler throws the
  "Critical" error. A verification read that shows no delta only prints a warning.
\<close>

definition writeChunk :: "env \<Rightarrow> chunk_row \<Rightarrow> jstext \<Rightarrow> nat \<Rightarrow> chunk_delta \<Rightarrow> sys \<Rightarrow> exn option \<times> sys" where
  "writeChunk E chunk outputText actualWords delta st =
     (if dbFails E (UpdateChunkComplete (c_id chunk))
      then (Some CriticalPersist, logLine (DbFailed (UpdateChunkComplete (c_id chunk))) st)
      else
        let st1 = updateChunk (c_id chunk)
                    (\<lambda>c. c\<lparr>c_chunkOutputText := Some outputText, c_actualWords := Some actualWords,
                           c_chunkDelta := persistDelta E (c_id chunk) delta,
                           c_status := C_complete\<rparr>) st
        in if dbFails E (VerifyChunk (c_id chunk))
           then (Some CriticalPersist, logLine (DbFailed (VerifyChunk (c_id chunk))) st1)
           else
             (case find (\<lambda>c. c_id c = c_id chunk) (chunksT st1) of
                None \<Rightarrow> (None, logLine (DeltaVerificationFailed (c_chunkIndex chunk)) st1)
              | Some verifyChunk \<Rightarrow>
                  (if c_chunkDelta verifyChunk = None
                   then (None, logLine (DeltaVerificationFailed (c_chunkIndex chunk)) st1)
                   else (None, logLine (DeltaVerified (c_chunkIndex chunk)) st1))))"

text \<open>Lines 501-561: after the write.\<close>

definition afterWrite :: "env \<Rightarrow> nat \<Rightarrow> job_row \<Rightarrow> nat \<Rightarrow> nat \<Rightarrow> chunk_row \<Rightarrow> jstext \<Rightarrow> nat \<Rightarrow> nat \<Rightarrow> int \<Rightarrow> sys \<Rightarrow> sys" where
  "afterWrite E jobId job len pos chunk outputText actualWords runningWordCount startedAt st =
     (let st1 = guarded E (UpdateDocument jobId (SetCurrentChunk (c_chunkIndex chunk + 1)))
                  (updateDocument jobId (\<lambda>j. j\<lparr>j_currentChunk := c_chunkIndex chunk + 1\<rparr>)) st;
          projectedFinal = projectedFinalOf runningWordCount (c_chunkIndex chunk) (j_numChunks job);
          isOnTarget = (int actualWords \<ge> c_minWords chunk \<and> int actualWords \<le> c_maxWords chunk);
          st2 = broadcastToJob jobId
                  (ChunkComplete jobId
                     \<lparr>m_chunkIndex = c_chunkIndex chunk, m_totalChunks = j_numChunks job,
                      m_chunkText = outputText, m_actualWords = actualWords,
                      m_targetWords = c_targetWords chunk, m_minWords = c_minWords chunk,
                      m_maxWords = c_maxWords chunk, m_runningTotal = runningWordCount,
                      m_projectedFinal = projectedFinal,
                      m_status = (if isOnTarget then On_target else Flagged)\<rparr>) st1;
          st3 = (case warningAfter jobId (c_chunkIndex chunk) (j_targetMidWords job) projectedFinal of
                   None \<Rightarrow> st2 | Some w \<Rightarrow> broadcastToJob jobId w st2);
          elapsed = now st3 - startedAt;
          st4 = broadcastProgress jobId Ph_chunk_processing
                  (Some \<lparr>p_completedChunks = c_chunkIndex chunk + 1, p_totalChunks = j_numChunks job,
                         p_wordsProcessed = runningWordCount, p_targetWords = j_targetMidWords job,
                         p_projectedFinal = projectedFinal, p_timeElapsed = elapsed,
                         p_estimatedRemaining =
                           dmul (ddiv (of_int elapsed) (of_nat (c_chunkIndex chunk + 1)))
                             (of_int (int (j_numChunks job) - int (c_chunkIndex chunk) - 1))\<rparr>) st3
      in if int (c_chunkIndex chunk) < int len - 1 then yield E (AfterChunk pos) jobId st4 else st4)"

text \<open>
  The iteration for one chunk after the abort check: the result is the exception thrown or
  the new running word count. \<open>len\<close> is \<open>chunks.length\<close>, \<open>pos\<close> the position of the
  chunk in the loop and \<open>startedAt\<close> the \<open>startTime\<close> of the job's registry entry.
\<close>

definition processChunk :: "env \<Rightarrow> nat \<Rightarrow> job_row \<Rightarrow> skeleton \<Rightarrow> nat \<Rightarrow> nat \<Rightarrow> int \<Rightarrow> chunk_row \<Rightarrow> nat \<Rightarrow> sys \<Rightarrow> (exn + nat) \<times> sys" where
  "processChunk E jobId job skel len pos startedAt chunk runningWordCount st =
     (let st1 = guarded E (UpdateChunkProcessing (c_id chunk))
                  (updateChunk (c_id chunk) (\<lambda>c. c\<lparr>c_status := C_processing\<rparr>)) st;
          st2 = yield E (DuringChunk pos) jobId st1
      in case getPriorDeltas E jobId (c_chunkIndex chunk) st2 of
           (Inl e, st3) \<Rightarrow> (Inl e, st3)
         | (Inr priorDeltas, st3) \<Rightarrow>
             (let priorDeltasContext = buildPriorDeltasSummary priorDeltas;
                  st4 = recordCall (Reconstruct (c_chunkIndex chunk)) st3
              in case reconstructChunkConstrained E (c_chunkInputText chunk) (c_chunkIndex chunk)
                        (j_numChunks job) skel (lengthConfigOfJob job) priorDeltasContext of
                   Inl e \<Rightarrow> (Inl e, st4)
                 | Inr (outputText, delta) \<Rightarrow>
                     (let actualWords = countWords outputText;
                          running = runningWordCount + actualWords
                      in case writeChunk E chunk outputText actualWords delta st4 of
                           (Some e, st5) \<Rightarrow> (Inl e, st5)
                         | (None, st5) \<Rightarrow>
                             (Inr running,
                              afterWrite E jobId job len pos chunk outputText actualWords running
                                startedAt st5))))"

datatype loop_end = LoopDone nat | LoopAborted | LoopThrew exn

text \<open>The \<open>for (const chunk of chunks)\<close> loop of lines 434-562 over the rest of the rows.\<close>

fun chunkLoop :: "env \<Rightarrow> nat \<Rightarrow> job_row \<Rightarrow> skeleton \<Rightarrow> nat \<Rightarrow> int \<Rightarrow> nat \<Rightarrow> nat \<Rightarrow> chunk_row list \<Rightarrow> sys \<Rightarrow> loop_end \<times> sys" where
  "chunkLoop E jobId job skel len startedAt pos runningWordCount [] st = (LoopDone runningWordCount, st)"
| "chunkLoop E jobId job skel len startedAt pos runningWordCount (chunk # rest) st =
     (if abortedFlag jobId st
      then (case handleAbort E jobId st of
              (Some e, st1) \<Rightarrow> (LoopThrew e, st1)
            | (None, st1) \<Rightarrow> (LoopAborted, st1))
      else (case processChunk E jobId job skel len pos startedAt chunk runningWordCount st of
              (Inl e, st1) \<Rightarrow> (LoopThrew e, st1)
            | (Inr running, st1) \<Rightarrow> chunkLoop E jobId job skel len startedAt (Suc pos) running rest st1))"

subsection \<open>\<open>processJobAsync\<close> (lines 376-645)\<close>

text \<open>\<open>c.chunkDelta || {}\<close>\<close>

definition emptyDelta :: chunk_delta where
  "emptyDelta = \<lparr>newClaimsIntroduced = None, termsUsed = None, conflictsDetected = None,
                  ledgerAdditions = None\<rparr>"

text \<open>\<open>job.audienceParameters || undefined\<close>\<close>

definition orUndefined :: "jstext option \<Rightarrow> jstext option" where
  "orUndefined x = (case x of None \<Rightarrow> None | Some t \<Rightarrow> (if t = [] then None else Some t))"

text \<open>How a run of \<open>processJobAsync\<close> ends: \<open>job_complete\<close> was broadcast, the job was
  aborted, an exception reached the \<open>catch\<close> block, or the job was not in \<open>activeJobs\<close>
  (line 382).\<close>

datatype outcome = Completed | Aborted | Failed exn | NotRegistered

text \<open>Lines 564-622: stitching, the final write, \<open>job_complete\<close>.\<close>

definition stitchPhase :: "env \<Rightarrow> nat \<Rightarrow> job_row \<Rightarrow> skeleton \<Rightarrow> int \<Rightarrow> sys \<Rightarrow> outcome \<times> sys" where
  "stitchPhase E jobId job skel startedAt st =
     (let st1 = broadcastProgress jobId Ph_stitching None st;
          st2 = guarded E (UpdateDocument jobId (SetStatus J_stitching))
                  (updateDocument jobId (\<lambda>j. j\<lparr>j_status := J_stitching\<rparr>)) st1
      in if dbFails E (SelectCompleteChunks jobId) then (Failed DbError, st2)
         else
           let completedChunks = selectCompleteChunks jobId st2;
               chunksForStitch =
                 map (\<lambda>c. (c_chunkOutputText c,
                            case c_chunkDelta c of None \<Rightarrow> emptyDelta | Some d \<Rightarrow> d)) completedChunks;
               st3 = recordCall Stitch (yield E DuringStitch jobId st2)
           in case stitchAndValidate E skel chunksForStitch of
                Inl e \<Rightarrow> (Failed e, st3)
              | Inr (finalOutput, stitchResult) \<Rightarrow>
                  (let finalWordCount = countWords finalOutput;
                       st4 = guarded E (UpdateDocument jobId SetFinal)
                               (updateDocument jobId
                                  (\<lambda>j. j\<lparr>j_finalOutput := Some finalOutput,
                                         j_finalWordCount := Some finalWordCount,
                                         j_validationResult := Some stitchResult,
                                         j_status := J_complete\<rparr>)) st3;
                       st5 = broadcastToJob jobId
                               (JobComplete jobId finalOutput finalWordCount (j_targetMidWords job)
                                  stitchResult (now st4 - startedAt)) st4
                   in (Completed, activeJobsDelete jobId st5)))"

definition abortNow :: "env \<Rightarrow> nat \<Rightarrow> sys \<Rightarrow> outcome \<times> sys" where
  "abortNow E jobId st =
     (case handleAbort E jobId st of (Some e, st1) \<Rightarrow> (Failed e, st1) | (None, st1) \<Rightarrow> (Aborted, st1))"

text \<open>
  Lines 378-432, up to the loop: either the run ends there (\<open>Inl\<close>), or the loop is reached
  with the job row read at line 378, the \<open>startTime\<close> of its registry entry, the skeleton
  just extracted, the chunk rows selected and the state.
\<close>

definition startWorker :: "env \<Rightarrow> nat \<Rightarrow> sys \<Rightarrow> (outcome \<times> sys) + ((job_row \<times> int \<times> skeleton \<times> chunk_row list) \<times> sys)" where
  "startWorker E jobId st =
     (if dbFails E (SelectDocument jobId) then Inl (Failed DbError, st)
      else case selectDocument jobId st of
        None \<Rightarrow> Inl (Failed (JobNotFound jobId), st)
      | Some job \<Rightarrow>
         (case activeJobs st jobId of
            None \<Rightarrow> Inl (NotRegistered, st)
          | Some jobState \<Rightarrow>
             (let st1 = broadcastProgress jobId Ph_skeleton_extraction None st;
                  st2 = guarded E (UpdateDocument jobId (SetStatus J_skeleton_extraction))
                          (updateDocument jobId (\<lambda>j. j\<lparr>j_status := J_skeleton_extraction\<rparr>)) st1;
                  st3 = recordCall ExtractSkeleton (yield E DuringSkeleton jobId st2)
              in case extractGlobalSkeleton E (j_originalText job)
                        (orUndefined (j_audienceParameters job)) (orUndefined (j_rigorLevel job)) of
                   Inl e \<Rightarrow> Inl (Failed e, st3)
                 | Inr skel \<Rightarrow>
                    (let st4 = guarded E (UpdateDocument jobId SetSkeleton)
                                 (updateDocument jobId
                                    (\<lambda>j. j\<lparr>j_globalSkeleton := Some skel,
                                           j_status := J_chunk_processing\<rparr>)) st3
                     in if abortedFlag jobId st4 then Inl (abortNow E jobId st4)
                        else
                          let st5 = broadcastProgress jobId Ph_chunk_processing None st4
                          in if dbFails E (SelectChunks jobId) then Inl (Failed DbError, st5)
                             else Inr ((job, startTime jobState, skel, selectChunks jobId st5),
                                       yield E BeforeLoop jobId st5)))))"

text \<open>The \<open>try\<close> block of lines 377-622.\<close>

definition processJobBody :: "env \<Rightarrow> nat \<Rightarrow> sys \<Rightarrow> outcome \<times> sys" where
  "processJobBody E jobId st =
     (case startWorker E jobId st of
        Inl r \<Rightarrow> r
      | Inr ((job, startedAt, skel, chunks), st6) \<Rightarrow>
         (case chunkLoop E jobId job skel (length chunks) startedAt 0 0 chunks st6 of
            (LoopThrew e, st7) \<Rightarrow> (Failed e, st7)
          | (LoopAborted, st7) \<Rightarrow> (Aborted, st7)
          | (LoopDone running, st7) \<Rightarrow> stitchPhase E jobId job skel startedAt st7))"

text \<open>The \<open>catch\<close> block of lines 624-644.\<close>

definition failJob :: "env \<Rightarrow> nat \<Rightarrow> exn \<Rightarrow> sys \<Rightarrow> sys" where
  "failJob E jobId e st =
     activeJobsDelete jobId
       (broadcastToJob jobId (JobFailed jobId e)
          (guarded E (UpdateDocument jobId SetFailed)
             (updateDocument jobId (\<lambda>j. j\<lparr>j_status := J_failed, j_errorMessage := Some e\<rparr>)) st))"

definition processJobAsync :: "env \<Rightarrow> nat \<Rightarrow> sys \<Rightarrow> sys" where
  "processJobAsync E jobId st =
     (case processJobBody E jobId st of
        (Failed e, st1) \<Rightarrow> failJob E jobId e st1
      | (other, st1) \<Rightarrow> st1)"

text \<open>
  The state in which the worker process is killed after its first \<open>n\<close> iterations of the
  chunk loop: the store as the worker left it, the in-memory registry empty.
\<close>

definition workerStoppedAfter :: "env \<Rightarrow> nat \<Rightarrow> nat \<Rightarrow> sys \<Rightarrow> sys" where
  "workerStoppedAfter E jobId n st =
     (case startWorker E jobId st of
        Inl (r, st1) \<Rightarrow> st1\<lparr>activeJobs := Map.empty\<rparr>
      | Inr ((job, startedAt, skel, chunks), st6) \<Rightarrow>
          (snd (chunkLoop E jobId job skel (length chunks) startedAt 0 0 (take n chunks) st6))
            \<lparr>activeJobs := Map.empty\<rparr>)"

subsection \<open>\<open>resumeJob\<close> (lines 709-744)\<close>

text \<open>
  A refused select rejects the promise of \<open>resumeJob\<close>; the handler of the socket's
  \<open>message\<close> event then sends "Failed to parse message". \<open>processJobAsync\<close> is started
  without \<open>await\<close>; the model runs it to its end.
\<close>

definition registerJob :: "nat \<Rightarrow> sys \<Rightarrow> sys" where
  "registerJob jobId st = st\<lparr>activeJobs := (activeJobs st)(jobId \<mapsto> \<lparr>aborted = False, startTime = now st\<rparr>)\<rparr>"

definition resumeJob :: "env \<Rightarrow> nat \<Rightarrow> sys \<Rightarrow> sys" where
  "resumeJob E jobId st =
     (if dbFails E (SelectDocument jobId) then sendError ParseFailure st
      else case selectDocument jobId st of
        None \<Rightarrow> sendError (NotFound jobId) st
      | Some job \<Rightarrow>
         (if j_status job = J_complete
          then sendToClient (JobAlreadyComplete jobId (j_finalOutput job) (j_finalWordCount job)) st
          else if activeJobs st jobId \<noteq> None then sendError (AlreadyRunning jobId) st
          else processJobAsync E jobId
                 (sendToClient (JobResumed jobId (j_status job) (j_currentChunk job) (j_numChunks job))
                    (registerJob jobId st))))"

subsection \<open>\<open>startStreamingJob\<close> (lines 283-374)\<close>

text \<open>
  The row inserted at lines 343-352. \<open>chunkTarget * 0.85\<close> and \<open>chunkTarget * 1.15\<close> are
  products of doubles in the source; their floor and their ceiling are those of the exact
  products \<open>chunkTarget * 85 / 100\<close> and \<open>chunkTarget * 115 / 100\<close> for every target below
  3000000, and the band is written with the exact products.
\<close>

definition newChunkRow :: "nat \<Rightarrow> nat \<Rightarrow> nat \<Rightarrow> jstext \<Rightarrow> nat \<Rightarrow> int \<Rightarrow> chunk_row" where
  "newChunkRow cid jobId i txt chunkInputWords chunkTarget =
     \<lparr>c_id = cid, c_documentId = jobId, c_chunkIndex = i, c_chunkInputText = txt,
      c_chunkInputWords = chunkInputWords, c_targetWords = chunkTarget,
      c_minWords = \<lfloor>of_int chunkTarget * (85 / 100 :: rat)\<rfloor>,
      c_maxWords = \<lceil>of_int chunkTarget * (115 / 100 :: rat)\<rceil>,
      c_chunkOutputText = None, c_actualWords = None, c_chunkDelta = None, c_status = C_pending\<rparr>"

definition insertChunkRow :: "chunk_row \<Rightarrow> sys \<Rightarrow> sys" where
  "insertChunkRow r st = st\<lparr>chunksT := chunksT st @ [r], nextChunkId := Suc (nextChunkId st)\<rparr>"

text \<open>The loop of lines 338-358 from index \<open>i\<close> on: a refused insert is logged and the loop
  goes on.\<close>

fun insertChunks :: "env \<Rightarrow> nat \<Rightarrow> length_config \<Rightarrow> nat \<Rightarrow> (jstext \<times> nat) list \<Rightarrow> sys \<Rightarrow> sys" where
  "insertChunks E jobId cfg i [] st = st"
| "insertChunks E jobId cfg i ((txt, chunkInputWords) # rest) st =
     (let chunkTarget = jsRound (dmul (of_nat chunkInputWords) (lengthRatio cfg));
          st1 = guarded E (InsertChunk i)
                  (\<lambda>s. insertChunkRow (newChunkRow (nextChunkId s) jobId i txt chunkInputWords chunkTarget) s) st
      in insertChunks E jobId cfg (Suc i) rest st1)"

definition newJobRow :: "nat \<Rightarrow> jstext \<Rightarrow> nat \<Rightarrow> length_config \<Rightarrow> nat \<Rightarrow> jstext option \<Rightarrow> jstext option \<Rightarrow> jstext option \<Rightarrow> int \<Rightarrow> job_row" where
  "newJobRow jid txt wordCount cfg n audienceParameters rigorLevel customInstructions t =
     \<lparr>j_id = jid, j_originalText = txt, j_wordCount = wordCount, j_status = J_pending,
      j_targetMinWords = targetMin cfg, j_targetMaxWords = targetMax cfg,
      j_targetMidWords = targetMid cfg, j_lengthRatio = lengthRatio cfg,
      j_lengthMode = lengthMode cfg, j_chunkTargetWords = chunkTargetWords cfg,
      j_numChunks = n, j_currentChunk = 0, j_audienceParameters = audienceParameters,
      j_rigorLevel = rigorLevel, j_customInstructions = customInstructions,
      j_globalSkeleton = None, j_finalOutput = None, j_finalWordCount = None,
      j_validationResult = None, j_errorMessage = None, j_updatedAt = t\<rparr>"

definition startStreamingJob :: "env \<Rightarrow> jstext \<Rightarrow> jstext option \<Rightarrow> jstext option \<Rightarrow> jstext option \<Rightarrow> sys \<Rightarrow> sys" where
  "startStreamingJob E txt customInstructions audienceParameters rigorLevel st =
     (let wordCount = countWords txt
      in if wordCount > 50000 then sendError (InputTooLong wordCount) st
         else if wordCount \<le> 500 then sendError (DocumentTooShort wordCount) st
         else
           let cfg = lengthConfigFor E wordCount customInstructions;
               chunks = smartChunk E txt
           in if dbFails E InsertDocument
              then sendError DatabaseError (logLine (DbFailed InsertDocument) st)
              else
                let jobId = nextDocumentId st;
                    st1 = st\<lparr>documents := documents st
                              @ [newJobRow jobId txt wordCount cfg (length chunks) audienceParameters
                                   rigorLevel customInstructions (now st)],
                            nextDocumentId := Suc jobId\<rparr>;
                    st2 = insertChunks E jobId cfg 0 chunks st1;
                    st3 = sendToClient (JobStarted jobId (length chunks) wordCount (targetMid cfg)
                                          (lengthMode cfg) (lengthRatio cfg)) (registerJob jobId st2)
                in processJobAsync E jobId st3)"

subsection \<open>\<open>cleanupOldJobs\<close> (lines 775-794)\<close>

text \<open>
  The loop over the ids selected. No statement of \<open>cleanupOldJobs\<close> is inside a handler: a
  refused one rejects the promise and leaves what was deleted so far deleted. The column
  \<open>updated_at\<close> is NOT NULL, so the test \<open>jobData.updatedAt &&\<close> is always passed.
\<close>

fun cleanupLoop :: "env \<Rightarrow> int \<Rightarrow> nat list \<Rightarrow> nat \<Rightarrow> sys \<Rightarrow> (exn + nat) \<times> sys" where
  "cleanupLoop E cutoff [] deletedCount st = (Inr deletedCount, st)"
| "cleanupLoop E cutoff (jid # rest) deletedCount st =
     (if dbFails E (SelectDocument jid) then (Inl DbError, st)
      else case selectDocument jid st of
        None \<Rightarrow> cleanupLoop E cutoff rest deletedCount st
      | Some jobData \<Rightarrow>
         (if j_updatedAt jobData < cutoff
          then (if dbFails E (DeleteChunks jid) then (Inl DbError, st)
                else
                  let st1 = st\<lparr>chunksT := filter (\<lambda>c. c_documentId c \<noteq> jid) (chunksT st)\<rparr>
                  in if dbFails E (DeleteDocument jid) then (Inl DbError, st1)
                     else cleanupLoop E cutoff rest (Suc deletedCount)
                            (st1\<lparr>documents := filter (\<lambda>j. j_id j \<noteq> jid) (documents st1)\<rparr>))
          else cleanupLoop E cutoff rest deletedCount st))"

definition cleanupOldJobs :: "env \<Rightarrow> sys \<Rightarrow> (exn + nat) \<times> sys" where
  "cleanupOldJobs E st =
     (let cutoff = now st - 24 * 60 * 60 * 1000
      in if dbFails E SelectCompleteDocuments then (Inl DbError, st)
         else cleanupLoop E cutoff
                (map j_id (filter (\<lambda>j. j_status j = J_complete) (documents st))) 0 st)"

section \<open>Concrete inputs\<close>

text \<open>
  A deterministic stub of the collaborators: the extractor returns an empty skeleton, the
  reconstructor returns the chunk's input as its output with a delta that introduces the
  input as a claim and as a term, the stitcher joins the outputs with blank lines, the
  chunker makes one chunk of the whole text; the store refuses nothing and keeps every
  delta; no \<open>abort_job\<close> arrives.
\<close>

definition stubDelta :: "jstext \<Rightarrow> chunk_delta" where
  "stubDelta t = \<lparr>newClaimsIntroduced = Some [t], termsUsed = Some [t], conflictsDetected = None,
                   ledgerAdditions = None\<rparr>"

definition stubConfig :: "nat \<Rightarrow> length_config" where
  "stubConfig n = \<lparr>targetMin = int n, targetMax = int n, targetMid = int n, lengthRatio = 1,
                    lengthMode = Preserve, chunkTargetWords = 600\<rparr>"

definition stubEnv :: env where
  "stubEnv = \<lparr>extractGlobalSkeleton = (\<lambda>t a r. Inr (Skeleton [])),
     reconstructChunkConstrained = (\<lambda>t i n sk cfg ctx. Inr (t, stubDelta t)),
     stitchAndValidate =
       (\<lambda>sk cs. Inr (join [10, 10] (map (\<lambda>(t, d). case t of None \<Rightarrow> [] | Some x \<Rightarrow> x) cs),
                      StitchResult [])),
     smartChunk = (\<lambda>t. [(t, countWords t)]),
     lengthConfigFor = (\<lambda>n instr. stubConfig n),
     dbFails = (\<lambda>s. False),
     persistDelta = (\<lambda>i d. Some d),
     abortArrives = (\<lambda>y. False)\<rparr>"

text \<open>A job of two chunks ("a b" and "c") as \<open>startStreamingJob\<close> leaves it: the job row
  and the two chunk rows pending, the job registered.\<close>

definition sampleJob :: job_row where
  "sampleJob = newJobRow 1 (lit ''a b c'') 3 (stubConfig 3) 2 None None None 0"

definition sampleChunk0 :: chunk_row where
  "sampleChunk0 = newChunkRow 1 1 0 (lit ''a b'') 2 2"

definition sampleChunk1 :: chunk_row where
  "sampleChunk1 = newChunkRow 2 1 1 (lit ''c'') 1 1"

definition sampleState :: sys where
  "sampleState = \<lparr>documents = [sampleJob], chunksT = [sampleChunk0, sampleChunk1],
     activeJobs = [1 \<mapsto> \<lparr>aborted = False, startTime = 0\<rparr>],
     outbox = [], console = [], now = 0, nextDocumentId = 2, nextChunkId = 3,
     llmLog = [], statusLog = []\<rparr>"

text \<open>Two stores used as concrete inputs: one where every insert throws, and one where
  only the \<open>audit_events\<close> table is unavailable and every other insert returns the row 7.\<close>

definition dbAllDown :: audit_db where
  "dbAllDown = (\<lambda>s. Inl DbError)"

definition dbAuditEventsDown :: audit_db where
  "dbAuditEventsDown = (\<lambda>s. case s of InsertEvent k \<Rightarrow> Inl DbError | InsertRow t l \<Rightarrow> Inr [7])"

text \<open>Two more stores: one where every insert succeeds, an audit event getting the id 3, a
  row without link the id 5 and a row linked to the event \<open>a\<close> the id \<open>a + 6\<close>; and one
  where every insert returns an empty array of rows.\<close>

definition dbLinked :: audit_db where
  "dbLinked = (\<lambda>s. case s of InsertEvent k \<Rightarrow> Inr [3]
                            | InsertRow t l \<Rightarrow> (case l of None \<Rightarrow> Inr [5] | Some a \<Rightarrow> Inr [a + 6]))"

definition dbNoRows :: audit_db where
  "dbNoRows = (\<lambda>s. Inr [])"

text \<open>A job is due for the sweep at clock \<open>t\<close>: it is complete and was last updated more than
  24 hours before.\<close>

definition expired :: "int \<Rightarrow> job_row \<Rightarrow> bool" where
  "expired t j = (j_status j = J_complete \<and> j_updatedAt j < t - 24 * 60 * 60 * 1000)"

text \<open>Three jobs last updated at 0, at 0 and at 50000000, seen at clock 90000000: the first
  complete, the second aborted, the third complete.\<close>

definition oldJobsState :: sys where
  "oldJobsState = \<lparr>documents = [sampleJob\<lparr>j_status := J_complete\<rparr>,
                      sampleJob\<lparr>j_id := 2, j_status := J_aborted\<rparr>,
                      sampleJob\<lparr>j_id := 3, j_status := J_complete, j_updatedAt := 50000000\<rparr>],
     chunksT = [sampleChunk0, sampleChunk1\<lparr>c_documentId := 2\<rparr>, sampleChunk1\<lparr>c_documentId := 3\<rparr>],
     activeJobs = Map.empty, outbox = [], console = [], now = 90000000, nextDocumentId = 4,
     nextChunkId = 3, llmLog = [], statusLog = []\<rparr>"

text \<open>A table for job 1 with its rows out of index order: index 2 with a delta, index 1
  without, index 0 with a delta, and a row of another job.\<close>

definition deltaState :: sys where
  "deltaState = sampleState\<lparr>chunksT :=
     [sampleChunk1\<lparr>c_id := 3, c_chunkIndex := 2, c_chunkDelta := Some (stubDelta (lit ''c''))\<rparr>,
      sampleChunk1,
      sampleChunk0\<lparr>c_chunkDelta := Some (stubDelta (lit ''a b''))\<rparr>,
      sampleChunk0\<lparr>c_id := 9, c_documentId := 7, c_chunkDelta := Some (stubDelta (lit ''z''))\<rparr>]\<rparr>"

subsection \<open>The worker as a function of the chunk table\<close>

text \<open>\<open>activeJobs.get(jobId)?.aborted\<close>, with \<open>None\<close> for the \<open>undefined\<close> of a
  job that is not registered.\<close>

definition flagOf :: "nat \<Rightarrow> sys \<Rightarrow> bool option" where
  "flagOf j st = map_option aborted (activeJobs st j)"

text \<open>The flag after the yield point \<open>y\<close>.\<close>

definition arrive :: "env \<Rightarrow> yield_point \<Rightarrow> bool option \<Rightarrow> bool option" where
  "arrive E y f = (if abortArrives E y then map_option (\<lambda>b. True) f else f)"

text \<open>The row that the update of lines 473-482 leaves.\<close>

definition writeRow :: "env \<Rightarrow> chunk_row \<Rightarrow> jstext \<Rightarrow> chunk_delta \<Rightarrow> chunk_row \<Rightarrow> chunk_row" where
  "writeRow E chunk outputText delta c =
     c\<lparr>c_chunkOutputText := Some outputText, c_actualWords := Some (countWords outputText),
       c_chunkDelta := persistDelta E (c_id chunk) delta, c_status := C_complete\<rparr>"

text \<open>The result of \<open>getPriorDeltas\<close> as a function of the chunk table.\<close>

definition priorDeltasOf :: "env \<Rightarrow> nat \<Rightarrow> nat \<Rightarrow> chunk_row list \<Rightarrow> exn + chunk_delta list" where
  "priorDeltasOf E j k T =
     (if k = 0 then Inr []
      else if dbFails E (SelectPriorChunks j k) then Inl DbError
      else Inr (validDeltasOf (priorChunksOf j k T)))"

text \<open>The chunk table after the guarded update of lines 440-448.\<close>

definition markedTable :: "env \<Rightarrow> chunk_row \<Rightarrow> chunk_row list \<Rightarrow> chunk_row list" where
  "markedTable E c T =
     (if dbFails E (UpdateChunkProcessing (c_id c)) then T
      else map (\<lambda>x. if c_id x = c_id c then x\<lparr>c_status := C_processing\<rparr> else x) T)"

text \<open>What one iteration of the loop does to the chunk table, and the text it generates or
  the exception it throws.\<close>

definition chunkStep :: "env \<Rightarrow> nat \<Rightarrow> job_row \<Rightarrow> skeleton \<Rightarrow> chunk_row \<Rightarrow> chunk_row list \<Rightarrow> (exn + jstext) \<times> chunk_row list" where
  "chunkStep E j job skel c T =
     (let T1 = markedTable E c T
      in case priorDeltasOf E j (c_chunkIndex c) T1 of
           Inl e \<Rightarrow> (Inl e, T1)
         | Inr ds \<Rightarrow>
            (case reconstructChunkConstrained E (c_chunkInputText c) (c_chunkIndex c) (j_numChunks job)
                    skel (lengthConfigOfJob job) (buildPriorDeltasSummary ds) of
               Inl e \<Rightarrow> (Inl e, T1)
             | Inr (out, d) \<Rightarrow>
                 (if dbFails E (UpdateChunkComplete (c_id c)) then (Inl CriticalPersist, T1)
                  else (if dbFails E (VerifyChunk (c_id c)) then Inl CriticalPersist else Inr out,
                        map (\<lambda>x. if c_id x = c_id c then writeRow E c out d x else x) T1))))"

text \<open>The argument of \<open>stitchAndValidate\<close> at lines 574-581 as a function of the chunk
  table.\<close>

definition stitchInput :: "nat \<Rightarrow> chunk_row list \<Rightarrow> (jstext option \<times> chunk_delta) list" where
  "stitchInput j T =
     map (\<lambda>c. (c_chunkOutputText c, case c_chunkDelta c of None \<Rightarrow> emptyDelta | Some d \<Rightarrow> d))
       (sort_key c_chunkIndex (filter (\<lambda>c. c_documentId c = j \<and> c_status c = C_complete) T))"

subsection \<open>Relations between two stores\<close>

text \<open>The columns of a chunk row that \<open>startStreamingJob\<close> writes and the worker never
  changes: the row with the four columns the worker writes reset.\<close>

definition chunkStatic :: "chunk_row \<Rightarrow> chunk_row" where
  "chunkStatic c = c\<lparr>c_chunkOutputText := None, c_actualWords := None, c_chunkDelta := None,
                     c_status := C_pending\<rparr>"

text \<open>The same for a job row: the columns the worker writes reset.\<close>

definition jobStatic :: "job_row \<Rightarrow> job_row" where
  "jobStatic j = j\<lparr>j_status := J_pending, j_currentChunk := 0, j_globalSkeleton := None,
                   j_finalOutput := None, j_finalWordCount := None, j_validationResult := None,
                   j_errorMessage := None, j_updatedAt := 0\<rparr>"

text \<open>Two chunk tables hold the same rows up to the columns the worker writes, and the very
  same rows at the ids in \<open>Q\<close>.\<close>

definition tableRel :: "nat set \<Rightarrow> chunk_row list \<Rightarrow> chunk_row list \<Rightarrow> bool" where
  "tableRel Q T T' = list_all2 (\<lambda>x y. chunkStatic x = chunkStatic y \<and> (c_id x \<in> Q \<longrightarrow> x = y)) T T'"

text \<open>Every row of job \<open>j\<close> in the table has its id in \<open>Q\<close> or is, up to the columns the
  worker writes, one of the rows \<open>cs\<close> still to be processed.\<close>

definition cov :: "nat \<Rightarrow> nat set \<Rightarrow> chunk_row list \<Rightarrow> chunk_row list \<Rightarrow> bool" where
  "cov j Q cs T = (\<forall>x\<in>set T. c_documentId x = j \<longrightarrow> c_id x \<in> Q \<or> chunkStatic x \<in> chunkStatic ` set cs)"

text \<open>The second table has the rows of the first with the same ids, and no row has become
  \<open>complete\<close>.\<close>

definition docsRel :: "job_row list \<Rightarrow> job_row list \<Rightarrow> bool" where
  "docsRel ds ds' = list_all2 (\<lambda>x y. j_id x = j_id y \<and> (j_status y = J_complete \<longrightarrow> j_status x = J_complete)) ds ds'"

text \<open>The projections of the state through the primitives of the model.\<close>

named_theorems peel

subsection \<open>The status writes of one iteration\<close>

text \<open>The entries that one iteration of the chunk loop adds to \<open>statusLog\<close>, as a function
  of the chunk table: those of the guarded update to \<open>processing\<close>, then those of the write
  of lines 473-482 if it is reached and committed.\<close>

definition stepLog :: "env \<Rightarrow> nat \<Rightarrow> job_row \<Rightarrow> skeleton \<Rightarrow> chunk_row \<Rightarrow> chunk_row list \<Rightarrow> (nat \<times> chunk_status \<times> chunk_status) list" where
  "stepLog E j job skel c T =
     (if dbFails E (UpdateChunkProcessing (c_id c)) then []
      else map (\<lambda>x. (c_id x, c_status x, C_processing)) (filter (\<lambda>x. c_id x = c_id c) T))
     @ (case priorDeltasOf E j (c_chunkIndex c) (markedTable E c T) of
          Inl e \<Rightarrow> []
        | Inr ds \<Rightarrow>
           (case reconstructChunkConstrained E (c_chunkInputText c) (c_chunkIndex c) (j_numChunks job)
                   skel (lengthConfigOfJob job) (buildPriorDeltasSummary ds) of
              Inl e \<Rightarrow> []
            | Inr (out, d) \<Rightarrow>
                (if dbFails E (UpdateChunkComplete (c_id c)) then []
                 else map (\<lambda>x. (c_id x, c_status x, C_complete))
                        (filter (\<lambda>x. c_id x = c_id c) (markedTable E c T)))))"

text \<open>The stub environment with a store that loses the delta column: every row reads back
  with a null \<open>chunkDelta\<close>.\<close>

definition lossyEnv :: env where
  "lossyEnv = stubEnv\<lparr>persistDelta := (\<lambda>i d. None)\<rparr>"

text \<open>The stub environment in which \<open>abort_job\<close> arrives while the chunk at position \<open>k\<close>
  of the loop is being processed.\<close>

definition abortDuring :: "nat \<Rightarrow> env" where
  "abortDuring k = stubEnv\<lparr>abortArrives := (\<lambda>y. y = DuringChunk k)\<rparr>"

text \<open>The text "a a ... a" of \<open>n + 1\<close> words separated by single spaces.\<close>

definition wordsText :: "nat \<Rightarrow> jstext" where
  "wordsText n = 97 # concat (replicate n [32, 97])"

text \<open>The stub environment with the length ratio 1.15 (the double written \<open>1.15\<close>).\<close>

definition expandEnv :: env where
  "expandEnv = stubEnv\<lparr>lengthConfigFor := (\<lambda>n instr. (stubConfig n)\<lparr>lengthRatio := fl (115 / 100)\<rparr>)\<rparr>"

subsection \<open>Observing an abort\<close>

text \<open>What a client subscribed to job \<open>j\<close> sees of an outbox: the \<open>chunk_complete\<close>
  messages broadcast to the job, and the \<open>job_aborted\<close> messages broadcast to it, in the
  order of emission.\<close>

definition chunkCompletes :: "nat \<Rightarrow> emission list \<Rightarrow> chunk_complete_msg list" where
  "chunkCompletes j ob =
     concat (map (\<lambda>e. case e of
                         Broadcast k m \<Rightarrow> (case m of ChunkComplete k' cm \<Rightarrow> if k = j then [cm] else []
                                           | _ \<Rightarrow> [])
                       | Direct m \<Rightarrow> []) ob)"

definition abortNotices :: "nat \<Rightarrow> emission list \<Rightarrow> message list" where
  "abortNotices j ob =
     concat (map (\<lambda>e. case e of
                         Broadcast k m \<Rightarrow> (case m of JobAborted a b c d f \<Rightarrow> if k = j then [m] else []
                                           | _ \<Rightarrow> [])
                       | Direct m \<Rightarrow> []) ob)"

text \<open>
  The \<open>try\<close> block of \<open>processJobAsync\<close> from the loop on (lines 434-622), entered at the
  position \<open>pos\<close> of the loop with the rows \<open>chunks\<close> still to be processed: the loop, and
  after a loop that ends normally the stitching phase.
\<close>

definition restOfJob :: "env \<Rightarrow> nat \<Rightarrow> job_row \<Rightarrow> skeleton \<Rightarrow> nat \<Rightarrow> int \<Rightarrow> nat \<Rightarrow> nat \<Rightarrow> chunk_row list \<Rightarrow> sys \<Rightarrow> outcome \<times> sys" where
  "restOfJob E jobId job skel len startedAt pos runningWordCount chunks st =
     (case chunkLoop E jobId job skel len startedAt pos runningWordCount chunks st of
        (LoopThrew e, st7) \<Rightarrow> (Failed e, st7)
      | (LoopAborted, st7) \<Rightarrow> (Aborted, st7)
      | (LoopDone running, st7) \<Rightarrow> stitchPhase E jobId job skel startedAt st7)"

text \<open>The select of lines 673-679 as a function of the chunk table, and the \<open>job_aborted\<close>
  message of lines 686-693 as a function of the job row read at line 681 and of the table.\<close>

definition completeRows :: "nat \<Rightarrow> chunk_row list \<Rightarrow> chunk_row list" where
  "completeRows j T = sort_key c_chunkIndex (filter (\<lambda>c. c_documentId c = j \<and> c_status c = C_complete) T)"

definition abortNotice :: "nat \<Rightarrow> job_row option \<Rightarrow> chunk_row list \<Rightarrow> message" where
  "abortNotice j job T =
     JobAborted j (length (completeRows j T)) (case job of None \<Rightarrow> 0 | Some x \<Rightarrow> j_numChunks x)
       (partialOutputOf (completeRows j T)) (countWords (partialOutputOf (completeRows j T)))"

text \<open>One of the two selects of \<open>handleAbort\<close> is refused: \<open>handleAbort\<close> then throws, and
  the \<open>catch\<close> of \<open>processJobAsync\<close> fails the job.\<close>

definition abortRefused :: "env \<Rightarrow> nat \<Rightarrow> bool" where
  "abortRefused E j = (dbFails E (SelectCompleteChunks j) \<or> dbFails E (SelectDocument j))"

text \<open>How the stitching phase ends, as a function of the chunk table.\<close>

definition stitchOutcome :: "env \<Rightarrow> nat \<Rightarrow> skeleton \<Rightarrow> chunk_row list \<Rightarrow> outcome" where
  "stitchOutcome E j skel T =
     (if dbFails E (SelectCompleteChunks j) then Failed DbError
      else case stitchAndValidate E skel (stitchInput j T) of Inl e \<Rightarrow> Failed e | Inr x \<Rightarrow> Completed)"

section \<open>Theorems\<close>

subsection \<open>The audit service\<close>

lemma orMinusOne_returns: "\<exists>n. orMinusOne b = Inr n"
  by (cases b) (simp_all add: orMinusOne_def)

lemma firstId_throws: "isl r \<Longrightarrow> isl (firstId r)"
  by (cases r) (simp_all add: firstId_def)

lemma orMinusOne_caught: "isl b \<Longrightarrow> orMinusOne b = Inr (- 1)"
  by (cases b) (simp_all add: orMinusOne_def)

lemma logAuditEvent_cases:
  "logAuditEvent db ev = Inr (- 1) \<or> (\<exists>i rest. db (InsertEvent ev) = Inr (i # rest) \<and> logAuditEvent db ev = Inr i)"
  by (cases "db (InsertEvent ev)"; cases "projr (db (InsertEvent ev))")
     (auto simp: logAuditEvent_def orMinusOne_def firstId_def)

text \<open>
  C10, as stated, for \<open>logLLMCall\<close>: "on any database failure it returns the sentinel -1".
  It fails where only the nested audit-event insert throws: \<open>logAuditEvent\<close> turns that
  failure into -1, \<open>logLLMCall\<close> goes on, inserts its own row without the link and
  returns that row's id.
\<close>

theorem C10_nested_failure_counterexample:
  "isl (dbAuditEventsDown (InsertEvent Ev_llm_call)) \<and> logLLMCall dbAuditEventsDown = Inr 7"
  by (simp add: dbAuditEventsDown_def logLLMCall_def logAuditEvent_def orMinusOne_def
      firstId_def auditLink_def)

lemma own_insert:
  "isl (db s) \<or> db s = Inr [] \<Longrightarrow> orMinusOne (firstId (db s)) = Inr (- 1)"
  "db s = Inr (i # rest) \<Longrightarrow> orMinusOne (firstId (db s)) = Inr i"
  by (cases "db s"; auto simp: orMinusOne_def firstId_def)+

lemma composite_own:
  "logLLMCall db = orMinusOne (firstId (db (InsertRow LlmCalls (llmLinkOf db))))"
  "logChunkProcessing db = orMinusOne (firstId (db (InsertRow ChunkProcessingLogs None)))"
  "logLengthEnforcement db = orMinusOne (firstId (db (InsertRow LengthEnforcementLogs None)))"
  "createJobHistoryEntry db = orMinusOne (firstId (db (InsertRow JobHistory None)))"
proof -
  have nested: "\<exists>a. logAuditEvent db k = Inr a" for k
    by (simp add: logAuditEvent_def orMinusOne_returns)
  show "logLLMCall db = orMinusOne (firstId (db (InsertRow LlmCalls (llmLinkOf db))))"
    using nested [of Ev_llm_call] by (auto simp: logLLMCall_def llmLinkOf_def)
  show "logChunkProcessing db = orMinusOne (firstId (db (InsertRow ChunkProcessingLogs None)))"
    using nested [of Ev_chunk_processing] by (auto simp: logChunkProcessing_def)
  show "logLengthEnforcement db = orMinusOne (firstId (db (InsertRow LengthEnforcementLogs None)))"
    using nested [of Ev_length_enforcement] by (auto simp: logLengthEnforcement_def)
  show "createJobHistoryEntry db = orMinusOne (firstId (db (InsertRow JobHistory None)))"
    using nested [of Ev_job_created] by (auto simp: createJobHistoryEntry_def)
qed

lemma llmLinkOf_cases:
  "llmLinkOf db = (case db (InsertEvent Ev_llm_call) of
                     Inl e \<Rightarrow> None
                   | Inr ids \<Rightarrow> (case ids of [] \<Rightarrow> None | a # x \<Rightarrow> if a > 0 then Some a else None))"
  by (simp add: llmLinkOf_def logAuditEvent_def orMinusOne_def firstId_def auditLink_def
      split: sum.split list.split)

text \<open>
  C10, amended: every audit logging operation (\<open>logAuditEvent\<close>, \<open>logLLMCall\<close>,
  \<open>logChunkProcessing\<close>, \<open>logLengthEnforcement\<close>, \<open>createJobHistoryEntry\<close>) returns a
  number whatever the store does (it never throws). What it returns is decided by the insert
  into its own table alone: -1 when that insert throws or returns no row, and the id of the
  first row returned otherwise. A failure of the nested audit-event insert is swallowed by
  each of the four composite operations: the operation still inserts its own row and
  returns that row's id; for \<open>logLLMCall\<close> the row then has no link to an audit event.
\<close>

theorem C10_audit_operations_never_throw:
  "(\<exists>n. logAuditEvent db ev = Inr n) \<and> (\<exists>n. logLLMCall db = Inr n)
   \<and> (\<exists>n. logChunkProcessing db = Inr n) \<and> (\<exists>n. logLengthEnforcement db = Inr n)
   \<and> (\<exists>n. createJobHistoryEntry db = Inr n)
   \<and> (isl (db (InsertEvent ev)) \<or> db (InsertEvent ev) = Inr [] \<longrightarrow> logAuditEvent db ev = Inr (- 1))
   \<and> (db (InsertEvent ev) = Inr (i # rest) \<longrightarrow> logAuditEvent db ev = Inr i)
   \<and> llmLinkOf db = (case db (InsertEvent Ev_llm_call) of
                       Inl e \<Rightarrow> None
                     | Inr ids \<Rightarrow> (case ids of [] \<Rightarrow> None | a # x \<Rightarrow> if a > 0 then Some a else None))
   \<and> (isl (db (InsertRow LlmCalls (llmLinkOf db))) \<or> db (InsertRow LlmCalls (llmLinkOf db)) = Inr []
        \<longrightarrow> logLLMCall db = Inr (- 1))
   \<and> (db (InsertRow LlmCalls (llmLinkOf db)) = Inr (i # rest) \<longrightarrow> logLLMCall db = Inr i)
   \<and> (isl (db (InsertRow ChunkProcessingLogs None)) \<or> db (InsertRow ChunkProcessingLogs None) = Inr []
        \<longrightarrow> logChunkProcessing db = Inr (- 1))
   \<and> (db (InsertRow ChunkProcessingLogs None) = Inr (i # rest) \<longrightarrow> logChunkProcessing db = Inr i)
   \<and> (isl (db (InsertRow LengthEnforcementLogs None)) \<or> db (InsertRow LengthEnforcementLogs None) = Inr []
        \<longrightarrow> logLengthEnforcement db = Inr (- 1))
   \<and> (db (InsertRow LengthEnforcementLogs None) = Inr (i # rest) \<longrightarrow> logLengthEnforcement db = Inr i)
   \<and> (isl (db (InsertRow JobHistory None)) \<or> db (InsertRow JobHistory None) = Inr []
        \<longrightarrow> createJobHistoryEntry db = Inr (- 1))
   \<and> (db (InsertRow JobHistory None) = Inr (i # rest) \<longrightarrow> createJobHistoryEntry db = Inr i)"
proof -
  have total: "\<exists>n. orMinusOne b = Inr n" for b by (rule orMinusOne_returns)
  show ?thesis
    unfolding composite_own
    using own_insert [of db] llmLinkOf_cases [of db]
    by (simp add: logAuditEvent_def total)
qed

theorem C10_audit_operations_witness:
  "logAuditEvent dbAllDown Ev_llm_call = Inr (- 1) \<and> logLLMCall dbAllDown = Inr (- 1)
   \<and> logChunkProcessing dbAllDown = Inr (- 1) \<and> logLengthEnforcement dbAllDown = Inr (- 1)
   \<and> createJobHistoryEntry dbAllDown = Inr (- 1)
   \<and> isl (dbAuditEventsDown (InsertEvent Ev_llm_call)) \<and> logLLMCall dbAuditEventsDown = Inr 7
   \<and> logChunkProcessing dbAuditEventsDown = Inr 7 \<and> logLengthEnforcement dbAuditEventsDown = Inr 7
   \<and> createJobHistoryEntry dbAuditEventsDown = Inr 7
   \<and> logAuditEvent dbLinked Ev_llm_call = Inr 3 \<and> llmLinkOf dbLinked = Some 3
   \<and> logLLMCall dbLinked = Inr 9 \<and> logChunkProcessing dbLinked = Inr 5
   \<and> logAuditEvent dbNoRows Ev_llm_call = Inr (- 1) \<and> logLLMCall dbNoRows = Inr (- 1)
   \<and> createJobHistoryEntry dbNoRows = Inr (- 1)"
  using C10_audit_operations_never_throw [of dbAllDown Ev_llm_call 7 "[]"]
    C10_audit_operations_never_throw [of dbAuditEventsDown Ev_llm_call 7 "[]"]
    C10_audit_operations_never_throw [of dbLinked Ev_llm_call 3 "[]"]
    C10_audit_operations_never_throw [of dbLinked Ev_llm_call 9 "[]"]
    C10_audit_operations_never_throw [of dbLinked Ev_llm_call 5 "[]"]
    C10_audit_operations_never_throw [of dbNoRows Ev_llm_call 0 "[]"]
  by (simp add: dbAllDown_def dbAuditEventsDown_def dbLinked_def dbNoRows_def)

subsection \<open>The length projection and the warning (C5)\<close>

lemma jsRound_int: "jsRound (of_int n) = n"
  by (simp add: jsRound_def) linarith

text \<open>
  Products and quotients of doubles as the source computes them: \<open>50 * 1.15\<close> is
  57.49999999999999 and rounds to 57, \<open>10 * 1.15\<close> is 11.5 and rounds to 12,
  \<open>49 / 6 * 15\<close> is 122.49999999999999, and \<open>(2000 - 850) / 2000 * 100\<close> is
  57.49999999999999.
\<close>

lemma double_arithmetic_examples:
  "fl (115 / 100) = 5179139571476070 / 4503599627370496"
  "jsRound (dmul 50 (fl (115 / 100))) = 57" "jsRound (dmul 10 (fl (115 / 100))) = 12"
  "projectedFinalOf 49 5 15 = 122" "jsRound (shortfallOf 2000 850) = 57"
  by (simp_all add: projectedFinalOf_def shortfallOf_def; code_simp)+

text \<open>
  C5 (the code at the failing input): a job of 25 chunks with target 25000 whose chunks all
  come out at 400 words. After the chunk with index 19 the projection is 10000 words, a
  shortfall of 60 per cent, and no warning is broadcast: the test
  \<open>chunkIndex >= 19 && chunkIndex % 10 === 0\<close> first holds at index 20, where the warning is
  sent.
\<close>

theorem C5_no_check_at_index_19:
  "shortfallOf 25000 (projectedFinalOf 8000 19 25) = 60
   \<and> warningAfter jobId 19 25000 (projectedFinalOf 8000 19 25) = None
   \<and> warningAfter jobId 20 25000 (projectedFinalOf 8400 20 25) = Some (Warning jobId 10000 25000 60)"
proof -
  have a: "projectedFinalOf 8000 19 25 = 10000"
    by (simp add: projectedFinalOf_def) code_simp
  have b: "projectedFinalOf 8400 20 25 = 10000"
    by (simp add: projectedFinalOf_def) code_simp
  have c: "shortfallOf 25000 10000 = 60"
    by (simp add: shortfallOf_def) code_simp
  have d: "jsRound 60 = 60" using jsRound_int [of 60] by simp
  show ?thesis by (simp add: a b c d warningAfter_def)
qed

subsection \<open>The cleanup sweep (C9)\<close>

lemma find_distinct_id:
  "distinct (map j_id js) \<Longrightarrow> j \<in> set js \<Longrightarrow> find (\<lambda>x. j_id x = j_id j) js = Some j"
  by (induction js) (auto simp: rev_image_eqI)

lemma cleanupLoop_reliable:
  assumes rel: "\<forall>s. \<not> dbFails E s"
  shows "distinct ids \<Longrightarrow> distinct (map j_id (documents st)) \<Longrightarrow> set ids \<subseteq> j_id ` set (documents st) \<Longrightarrow>
    fst (cleanupLoop E cutoff ids n st)
      = Inr (n + length (filter (\<lambda>i. \<exists>j\<in>set (documents st). j_id j = i \<and> j_updatedAt j < cutoff) ids))
  \<and> documents (snd (cleanupLoop E cutoff ids n st))
      = filter (\<lambda>j. \<not> (j_id j \<in> set ids \<and> j_updatedAt j < cutoff)) (documents st)
  \<and> chunksT (snd (cleanupLoop E cutoff ids n st))
      = filter (\<lambda>c. \<not> (c_documentId c \<in> set ids
                       \<and> (\<exists>j\<in>set (documents st). j_id j = c_documentId c \<and> j_updatedAt j < cutoff))) (chunksT st)"
proof (induction ids arbitrary: st n)
  case Nil
  then show ?case by simp
next
  case (Cons jid rest)
  from Cons.prems obtain j where j: "j \<in> set (documents st)" "j_id j = jid" by auto
  have sel: "selectDocument jid st = Some j"
    using find_distinct_id [OF Cons.prems(2) j(1)] j(2) by (simp add: selectDocument_def)
  have uniq: "x = j" if "x \<in> set (documents st)" "j_id x = jid" for x
    using Cons.prems(2) j that by (metis distinct_map inj_onD)
  have dr: "distinct rest" "jid \<notin> set rest" using Cons.prems(1) by auto
  show ?case
  proof (cases "j_updatedAt j < cutoff")
    case False
    have sub: "set rest \<subseteq> j_id ` set (documents st)" using Cons.prems(3) by auto
    have step: "cleanupLoop E cutoff (jid # rest) n st = cleanupLoop E cutoff rest n st"
      using rel sel False by simp
    have notexp: "\<not> (\<exists>x\<in>set (documents st). j_id x = jid \<and> j_updatedAt x < cutoff)"
      using uniq False by blast
    have docs: "filter (\<lambda>x. \<not> (j_id x \<in> set (jid # rest) \<and> j_updatedAt x < cutoff)) (documents st)
        = filter (\<lambda>x. \<not> (j_id x \<in> set rest \<and> j_updatedAt x < cutoff)) (documents st)"
      using notexp by (intro filter_cong refl) auto
    have chs: "filter (\<lambda>c. \<not> (c_documentId c \<in> set (jid # rest)
                 \<and> (\<exists>x\<in>set (documents st). j_id x = c_documentId c \<and> j_updatedAt x < cutoff))) (chunksT st)
        = filter (\<lambda>c. \<not> (c_documentId c \<in> set rest
                 \<and> (\<exists>x\<in>set (documents st). j_id x = c_documentId c \<and> j_updatedAt x < cutoff))) (chunksT st)"
      using notexp by (intro filter_cong refl) auto
    show ?thesis
      unfolding step docs chs using Cons.IH [OF dr(1) Cons.prems(2) sub, of n] notexp by simp
  next
    case True
    define st' where "st' = st\<lparr>chunksT := filter (\<lambda>c. c_documentId c \<noteq> jid) (chunksT st),
                              documents := filter (\<lambda>x. j_id x \<noteq> jid) (documents st)\<rparr>"
    have d': "distinct (map j_id (documents st'))"
      using Cons.prems(2) by (simp add: st'_def distinct_map_filter)
    have r': "set rest \<subseteq> j_id ` set (documents st')"
    proof
      fix i assume i: "i \<in> set rest"
      then obtain x where "x \<in> set (documents st)" "j_id x = i" using Cons.prems(3) by auto
      moreover have "i \<noteq> jid" using i dr(2) by auto
      ultimately show "i \<in> j_id ` set (documents st')" by (auto simp: st'_def)
    qed
    have step: "cleanupLoop E cutoff (jid # rest) n st = cleanupLoop E cutoff rest (Suc n) st'"
      using rel sel True by (simp add: st'_def)
    have isexp: "\<exists>x\<in>set (documents st). j_id x = jid \<and> j_updatedAt x < cutoff"
      using j True by blast
    have same: "(\<exists>x\<in>set (documents st'). j_id x = i \<and> j_updatedAt x < cutoff)
        = (\<exists>x\<in>set (documents st). j_id x = i \<and> j_updatedAt x < cutoff)" if "i \<noteq> jid" for i
      using that by (auto simp: st'_def)
    have cnt: "length (filter (\<lambda>i. \<exists>x\<in>set (documents st'). j_id x = i \<and> j_updatedAt x < cutoff) rest)
        = length (filter (\<lambda>i. \<exists>x\<in>set (documents st). j_id x = i \<and> j_updatedAt x < cutoff) rest)"
    proof -
      have "i \<noteq> jid" if "i \<in> set rest" for i using that dr(2) by auto
      then show ?thesis using same by (intro arg_cong [where f = length] filter_cong refl) blast
    qed
    have docs: "filter (\<lambda>x. \<not> (j_id x \<in> set rest \<and> j_updatedAt x < cutoff)) (documents st')
        = filter (\<lambda>x. \<not> (j_id x \<in> set (jid # rest) \<and> j_updatedAt x < cutoff)) (documents st)"
      unfolding st'_def using uniq True by (auto intro!: filter_cong)
    have chs: "filter (\<lambda>c. \<not> (c_documentId c \<in> set rest
                 \<and> (\<exists>x\<in>set (documents st'). j_id x = c_documentId c \<and> j_updatedAt x < cutoff))) (chunksT st')
        = filter (\<lambda>c. \<not> (c_documentId c \<in> set (jid # rest)
                 \<and> (\<exists>x\<in>set (documents st). j_id x = c_documentId c \<and> j_updatedAt x < cutoff))) (chunksT st)"
    proof -
      have t: "chunksT st' = filter (\<lambda>c. c_documentId c \<noteq> jid) (chunksT st)" by (simp add: st'_def)
      have eq: "(c_documentId c \<noteq> jid \<and> \<not> (c_documentId c \<in> set rest
                 \<and> (\<exists>x\<in>set (documents st'). j_id x = c_documentId c \<and> j_updatedAt x < cutoff)))
          = (\<not> (c_documentId c \<in> set (jid # rest)
                 \<and> (\<exists>x\<in>set (documents st). j_id x = c_documentId c \<and> j_updatedAt x < cutoff)))" for c :: chunk_row
        using isexp same [of "c_documentId c"] by (cases "c_documentId c = jid") auto
      show ?thesis unfolding t filter_filter eq ..
    qed
    note IH = Cons.IH [OF dr(1) d' r', of "Suc n", unfolded cnt docs chs]
    show ?thesis
      unfolding step using IH isexp by simp
  qed
qed


text \<open>
  C9, as stated, fails for aborted jobs: the sweep selects the rows whose status is
  \<open>complete\<close> only. Of the three jobs of \<open>oldJobsState\<close> the second is aborted and older
  than 24 hours; the sweep deletes one job and keeps the second and the third.
\<close>

theorem C9_aborted_job_kept_counterexample:
  "j_status (documents oldJobsState ! 1) = J_aborted
   \<and> j_updatedAt (documents oldJobsState ! 1) < now oldJobsState - 24 * 60 * 60 * 1000
   \<and> fst (cleanupOldJobs stubEnv oldJobsState) = Inr 1
   \<and> map j_id (documents (snd (cleanupOldJobs stubEnv oldJobsState))) = [2, 3]"
  by (simp add: oldJobsState_def cleanupOldJobs_def stubEnv_def selectDocument_def sampleJob_def
      newJobRow_def)

text \<open>
  C9, amended: the periodic cleanup sweep deletes exactly the jobs (and their chunks) that
  are in the complete state and were last updated more than 24 hours before; it returns
  their number. No job in any other state is deleted, an aborted one included. (The store
  executes every statement of the sweep, and job ids are unique.)
\<close>

theorem C9_cleanup_deletes_old_complete_jobs:
  assumes "\<forall>s. \<not> dbFails E s" and "distinct (map j_id (documents st))"
  shows "fst (cleanupOldJobs E st) = Inr (length (filter (expired (now st)) (documents st)))
    \<and> documents (snd (cleanupOldJobs E st)) = filter (\<lambda>j. \<not> expired (now st) j) (documents st)
    \<and> chunksT (snd (cleanupOldJobs E st))
        = filter (\<lambda>c. \<not> (\<exists>j\<in>set (documents st). expired (now st) j \<and> j_id j = c_documentId c)) (chunksT st)"
proof -
  define cutoff where "cutoff = now st - 24 * 60 * 60 * 1000"
  define ids where "ids = map j_id (filter (\<lambda>j. j_status j = J_complete) (documents st))"
  have run: "cleanupOldJobs E st = cleanupLoop E cutoff ids 0 st"
    using assms(1) by (simp add: cleanupOldJobs_def cutoff_def ids_def)
  have dids: "distinct ids"
    using assms(2) by (simp add: ids_def distinct_map_filter)
  have sub: "set ids \<subseteq> j_id ` set (documents st)" by (auto simp: ids_def)
  have uniq: "x = y" if "x \<in> set (documents st)" "y \<in> set (documents st)" "j_id x = j_id y" for x y
    using assms(2) that by (metis distinct_map inj_onD)
  have mem: "(j_id j \<in> set ids) = (j_status j = J_complete)" if "j \<in> set (documents st)" for j
    using that uniq by (auto simp: ids_def)
  have docs: "filter (\<lambda>j. \<not> (j_id j \<in> set ids \<and> j_updatedAt j < cutoff)) (documents st)
      = filter (\<lambda>j. \<not> expired (now st) j) (documents st)"
    using mem by (intro filter_cong refl) (simp add: expired_def cutoff_def)
  have chs: "filter (\<lambda>c. \<not> (c_documentId c \<in> set ids
                 \<and> (\<exists>j\<in>set (documents st). j_id j = c_documentId c \<and> j_updatedAt j < cutoff))) (chunksT st)
      = filter (\<lambda>c. \<not> (\<exists>j\<in>set (documents st). expired (now st) j \<and> j_id j = c_documentId c)) (chunksT st)"
  proof (intro filter_cong refl)
    fix c
    show "(\<not> (c_documentId c \<in> set ids
                 \<and> (\<exists>j\<in>set (documents st). j_id j = c_documentId c \<and> j_updatedAt j < cutoff)))
      = (\<not> (\<exists>j\<in>set (documents st). expired (now st) j \<and> j_id j = c_documentId c))"
    proof -
      have "(c_documentId c \<in> set ids
                 \<and> (\<exists>j\<in>set (documents st). j_id j = c_documentId c \<and> j_updatedAt j < cutoff))
          = (\<exists>j\<in>set (documents st). expired (now st) j \<and> j_id j = c_documentId c)"
      proof
        assume l: "c_documentId c \<in> set ids
                 \<and> (\<exists>j\<in>set (documents st). j_id j = c_documentId c \<and> j_updatedAt j < cutoff)"
        then obtain j where j: "j \<in> set (documents st)" "j_id j = c_documentId c" "j_updatedAt j < cutoff"
          by blast
        with l have "j_id j \<in> set ids" by simp
        with mem [OF j(1)] have "j_status j = J_complete" by simp
        with j show "\<exists>j\<in>set (documents st). expired (now st) j \<and> j_id j = c_documentId c"
          unfolding expired_def cutoff_def by blast
      next
        assume "\<exists>j\<in>set (documents st). expired (now st) j \<and> j_id j = c_documentId c"
        then obtain j where j: "j \<in> set (documents st)" "j_id j = c_documentId c" "expired (now st) j"
          by blast
        from j(3) mem [OF j(1)] have "j_id j \<in> set ids" by (simp add: expired_def)
        with j show "c_documentId c \<in> set ids
                 \<and> (\<exists>j\<in>set (documents st). j_id j = c_documentId c \<and> j_updatedAt j < cutoff)"
          unfolding expired_def cutoff_def by auto
      qed
      then show ?thesis by simp
    qed
  qed
  have cnt: "length (filter (\<lambda>i. \<exists>j\<in>set (documents st). j_id j = i \<and> j_updatedAt j < cutoff) ids)
      = length (filter (expired (now st)) (documents st))"
  proof -
    have "filter (\<lambda>i. \<exists>j\<in>set (documents st). j_id j = i \<and> j_updatedAt j < cutoff) ids
        = map j_id (filter (\<lambda>x. \<exists>j\<in>set (documents st). j_id j = j_id x \<and> j_updatedAt j < cutoff)
            (filter (\<lambda>j. j_status j = J_complete) (documents st)))"
      by (simp add: ids_def filter_map comp_def)
    also have "filter (\<lambda>x. \<exists>j\<in>set (documents st). j_id j = j_id x \<and> j_updatedAt j < cutoff)
            (filter (\<lambda>j. j_status j = J_complete) (documents st))
        = filter (expired (now st)) (documents st)"
      unfolding filter_filter using uniq
      by (intro filter_cong refl) (auto simp: expired_def cutoff_def)
    finally show ?thesis by simp
  qed
  show ?thesis
    unfolding run
    using cleanupLoop_reliable [OF assms(1) dids assms(2) sub, of cutoff 0, unfolded docs chs cnt]
    by simp
qed

theorem C9_cleanup_witness:
  "fst (cleanupOldJobs stubEnv oldJobsState) = Inr 1
   \<and> map j_id (documents (snd (cleanupOldJobs stubEnv oldJobsState))) = [2, 3]
   \<and> map c_documentId (chunksT (snd (cleanupOldJobs stubEnv oldJobsState))) = [2, 3]"
proof -
  have a: "\<forall>s. \<not> dbFails stubEnv s" by (simp add: stubEnv_def)
  have b: "distinct (map j_id (documents oldJobsState))"
    by (simp add: oldJobsState_def sampleJob_def newJobRow_def)
  show ?thesis
    using C9_cleanup_deletes_old_complete_jobs [OF a b]
    by (simp add: oldJobsState_def expired_def sampleJob_def newJobRow_def sampleChunk0_def
        sampleChunk1_def newChunkRow_def)
qed

subsection \<open>Prior deltas and the coherence summary (C7)\<close>

lemma length_sliceLast: "length (sliceLast n xs) \<le> n"
  by (simp add: sliceLast_def)

lemma suffix_sliceLast: "suffix (sliceLast n xs) xs"
  by (simp add: sliceLast_def suffix_drop)

lemma distinct_uniqueInOrder: "distinct (uniqueInOrder xs)"
  by (simp add: uniqueInOrder_def)

lemma set_uniqueInOrder: "set (uniqueInOrder xs) = set xs"
  by (simp add: uniqueInOrder_def)

lemma validDeltasOf_conv:
  "validDeltasOf rows = map the (filter (\<lambda>d. d \<noteq> None) (map c_chunkDelta rows))"
  by (induction rows) (auto simp: validDeltasOf_def)

text \<open>
  C7: for every job and chunk index \<open>k\<close>, \<open>getPriorDeltas\<close> returns the empty list for
  \<open>k = 0\<close> and otherwise (when the select is not refused) exactly the non-null deltas of the
  job's chunk rows with index below \<open>k\<close>, in ascending index order: the deltas of a list of
  rows that is sorted by index and a permutation of the matching rows. The summary built
  from any non-empty list of deltas is the rendering of three lists: at most 15 claims, a
  suffix of the accumulated claims; at most 20 distinct terms among the accumulated terms;
  at most 5 conflict descriptions, a suffix of the accumulated ones.
\<close>

theorem C7_prior_deltas_and_summary:
  "getPriorDeltas E jobId 0 st = (Inr [], st)
   \<and> (\<not> dbFails E (SelectPriorChunks jobId k) \<longrightarrow>
        (\<exists>rows. mset rows = mset (filter (\<lambda>c. c_documentId c = jobId \<and> c_chunkIndex c < k) (chunksT st))
           \<and> sorted (map c_chunkIndex rows)
           \<and> fst (getPriorDeltas E jobId k st)
               = Inr (map the (filter (\<lambda>d. d \<noteq> None) (map c_chunkDelta rows)))))
   \<and> (ds \<noteq> [] \<longrightarrow>
        buildPriorDeltasSummary ds
          = renderSummary (length ds) (shownClaims ds) (shownTerms ds) (shownConflicts ds))
   \<and> length (shownClaims ds) \<le> 15 \<and> suffix (shownClaims ds) (accumulatedClaims ds)
   \<and> length (shownTerms ds) \<le> 20 \<and> distinct (shownTerms ds)
   \<and> set (shownTerms ds) \<subseteq> set (accumulatedTerms ds)
   \<and> length (shownConflicts ds) \<le> 5 \<and> suffix (shownConflicts ds) (accumulatedConflicts ds)"
proof -
  have first: "getPriorDeltas E jobId 0 st = (Inr [], st)"
    by (simp add: getPriorDeltas_def)
  have prior: "\<exists>rows. mset rows = mset (filter (\<lambda>c. c_documentId c = jobId \<and> c_chunkIndex c < k) (chunksT st))
           \<and> sorted (map c_chunkIndex rows)
           \<and> fst (getPriorDeltas E jobId k st)
               = Inr (map the (filter (\<lambda>d. d \<noteq> None) (map c_chunkDelta rows)))"
    if ok: "\<not> dbFails E (SelectPriorChunks jobId k)"
  proof (cases "k = 0")
    case True
    then have "fst (getPriorDeltas E jobId k st) = Inr (map the (filter (\<lambda>d. d \<noteq> None) (map c_chunkDelta [])))"
      by (simp add: getPriorDeltas_def)
    moreover have "mset [] = mset (filter (\<lambda>c. c_documentId c = jobId \<and> c_chunkIndex c < k) (chunksT st))"
      using True by simp
    ultimately show ?thesis by (intro exI [of _ "[]"]) simp
  next
    case False
    let ?rows = "priorChunksOf jobId k (chunksT st)"
    have "fst (getPriorDeltas E jobId k st) = Inr (validDeltasOf ?rows)"
      using False ok by (simp add: getPriorDeltas_def Let_def)
    then show ?thesis
      by (intro exI [of _ ?rows]) (simp add: priorChunksOf_def validDeltasOf_conv)
  qed
  have terms: "set (shownTerms ds) \<subseteq> set (accumulatedTerms ds)"
    using set_drop_subset [of _ "uniqueInOrder (accumulatedTerms ds)"]
    by (simp add: shownTerms_def sliceLast_def set_uniqueInOrder)
  have dist: "distinct (shownTerms ds)"
    by (simp add: shownTerms_def sliceLast_def distinct_uniqueInOrder)
  show ?thesis
    using first prior terms dist
    by (simp add: buildPriorDeltasSummary_def shownClaims_def shownTerms_def shownConflicts_def
        length_sliceLast suffix_sliceLast)
qed

lemma twenty_claims: "accumulatedClaims (replicate 20 (stubDelta u)) = replicate 20 u"
  by (simp add: accumulatedClaims_def stubDelta_def orEmpty_def)

theorem C7_prior_deltas_witness:
  "\<not> dbFails stubEnv (SelectPriorChunks 1 3)
   \<and> fst (getPriorDeltas stubEnv 1 3 deltaState) = Inr [stubDelta (lit ''a b''), stubDelta (lit ''c'')]
   \<and> length (accumulatedClaims (replicate 20 (stubDelta (lit ''x'')))) = 20
   \<and> shownClaims (replicate 20 (stubDelta (lit ''x''))) = replicate 15 (lit ''x'')
   \<and> shownTerms (replicate 20 (stubDelta (lit ''x''))) = [lit ''x'']"
proof -
  have a: "\<not> dbFails stubEnv (SelectPriorChunks 1 3)" by (simp add: stubEnv_def)
  have b: "fst (getPriorDeltas stubEnv 1 3 deltaState) = Inr [stubDelta (lit ''a b''), stubDelta (lit ''c'')]"
    by (simp add: getPriorDeltas_def stubEnv_def deltaState_def sampleState_def sampleChunk0_def
        sampleChunk1_def newChunkRow_def priorChunksOf_def validDeltasOf_def Let_def)
  have c: "accumulatedTerms (replicate 20 (stubDelta (lit ''x''))) = replicate 20 (lit ''x'')"
    by (simp add: accumulatedTerms_def stubDelta_def orEmpty_def)
  have d: "uniqueInOrder (replicate 20 (lit ''x'')) = [lit ''x'']"
    by (simp add: uniqueInOrder_def numeral_eq_Suc)
  show ?thesis
    using C7_prior_deltas_and_summary [of stubEnv 1 deltaState 3 "replicate 20 (stubDelta (lit ''x''))"]
      a b
    by (simp add: shownClaims_def shownTerms_def twenty_claims c d sliceLast_def)
qed

subsection \<open>Resuming a job (C1)\<close>

lemma peel_emit [peel]:
  "chunksT (emit m st) = chunksT st" "documents (emit m st) = documents st"
  "activeJobs (emit m st) = activeJobs st" "llmLog (emit m st) = llmLog st"
  "statusLog (emit m st) = statusLog st" "now (emit m st) = now st"
  "console (emit m st) = console st" "outbox (emit m st) = outbox st @ [m]"
  by (simp_all add: emit_def)

lemma peel_logLine [peel]:
  "chunksT (logLine l st) = chunksT st" "documents (logLine l st) = documents st"
  "activeJobs (logLine l st) = activeJobs st" "llmLog (logLine l st) = llmLog st"
  "statusLog (logLine l st) = statusLog st" "now (logLine l st) = now st"
  "console (logLine l st) = console st @ [l]" "outbox (logLine l st) = outbox st"
  by (simp_all add: logLine_def)

lemma peel_recordCall [peel]:
  "chunksT (recordCall c st) = chunksT st" "documents (recordCall c st) = documents st"
  "activeJobs (recordCall c st) = activeJobs st" "llmLog (recordCall c st) = llmLog st @ [c]"
  "statusLog (recordCall c st) = statusLog st" "now (recordCall c st) = now st"
  "console (recordCall c st) = console st" "outbox (recordCall c st) = outbox st"
  by (simp_all add: recordCall_def)

lemma peel_activeJobsDelete [peel]:
  "chunksT (activeJobsDelete j st) = chunksT st" "documents (activeJobsDelete j st) = documents st"
  "activeJobs (activeJobsDelete j st) = (activeJobs st)(j := None)"
  "llmLog (activeJobsDelete j st) = llmLog st"
  "statusLog (activeJobsDelete j st) = statusLog st" "now (activeJobsDelete j st) = now st"
  "console (activeJobsDelete j st) = console st" "outbox (activeJobsDelete j st) = outbox st"
  by (simp_all add: activeJobsDelete_def)

lemma peel_updateDocument [peel]:
  "chunksT (updateDocument j f st) = chunksT st"
  "documents (updateDocument j f st)
     = map (\<lambda>x. if j_id x = j then (f x)\<lparr>j_updatedAt := now st\<rparr> else x) (documents st)"
  "activeJobs (updateDocument j f st) = activeJobs st" "llmLog (updateDocument j f st) = llmLog st"
  "statusLog (updateDocument j f st) = statusLog st" "now (updateDocument j f st) = now st"
  "console (updateDocument j f st) = console st" "outbox (updateDocument j f st) = outbox st"
  by (simp_all add: updateDocument_def)

lemma peel_updateChunk [peel]:
  "chunksT (updateChunk i f st) = map (\<lambda>c. if c_id c = i then f c else c) (chunksT st)"
  "documents (updateChunk i f st) = documents st"
  "activeJobs (updateChunk i f st) = activeJobs st" "llmLog (updateChunk i f st) = llmLog st"
  "statusLog (updateChunk i f st) = statusLog st
     @ map (\<lambda>c. (c_id c, c_status c, c_status (f c))) (filter (\<lambda>c. c_id c = i) (chunksT st))"
  "now (updateChunk i f st) = now st"
  "console (updateChunk i f st) = console st" "outbox (updateChunk i f st) = outbox st"
  by (simp_all add: updateChunk_def)

lemma peel_abortJob [peel]:
  "chunksT (abortJob j st) = chunksT st" "documents (abortJob j st) = documents st"
  "llmLog (abortJob j st) = llmLog st"
  "statusLog (abortJob j st) = statusLog st" "now (abortJob j st) = now st"
  "console (abortJob j st) = console st"
  by (simp_all add: abortJob_def sendToClient_def sendError_def peel split: option.split)

lemma peel_yield [peel]:
  "chunksT (yield E y j st) = chunksT st" "documents (yield E y j st) = documents st"
  "llmLog (yield E y j st) = llmLog st"
  "statusLog (yield E y j st) = statusLog st" "now (yield E y j st) = now st"
  "console (yield E y j st) = console st"
  by (simp_all add: yield_def peel)

lemma peel_broadcast [peel]:
  "chunksT (broadcastToJob j m st) = chunksT st" "documents (broadcastToJob j m st) = documents st"
  "activeJobs (broadcastToJob j m st) = activeJobs st" "llmLog (broadcastToJob j m st) = llmLog st"
  "statusLog (broadcastToJob j m st) = statusLog st" "now (broadcastToJob j m st) = now st"
  "console (broadcastToJob j m st) = console st"
  "outbox (broadcastToJob j m st) = outbox st @ [Broadcast j m]"
  by (simp_all add: broadcastToJob_def peel)

lemma peel_progress [peel]:
  "chunksT (broadcastProgress j p s st) = chunksT st" "documents (broadcastProgress j p s st) = documents st"
  "activeJobs (broadcastProgress j p s st) = activeJobs st" "llmLog (broadcastProgress j p s st) = llmLog st"
  "statusLog (broadcastProgress j p s st) = statusLog st" "now (broadcastProgress j p s st) = now st"
  "console (broadcastProgress j p s st) = console st"
  "outbox (broadcastProgress j p s st) = outbox st @ [Broadcast j (Progress j p s)]"
  by (simp_all add: broadcastProgress_def peel)

lemma peel_send [peel]:
  "chunksT (sendToClient m st) = chunksT st" "documents (sendToClient m st) = documents st"
  "activeJobs (sendToClient m st) = activeJobs st" "llmLog (sendToClient m st) = llmLog st"
  "statusLog (sendToClient m st) = statusLog st" "now (sendToClient m st) = now st"
  "console (sendToClient m st) = console st"
  "outbox (sendToClient m st) = outbox st @ [Direct m]"
  by (simp_all add: sendToClient_def peel)

lemma peel_sendError [peel]:
  "chunksT (sendError e st) = chunksT st" "documents (sendError e st) = documents st"
  "activeJobs (sendError e st) = activeJobs st" "llmLog (sendError e st) = llmLog st"
  "statusLog (sendError e st) = statusLog st" "now (sendError e st) = now st"
  "console (sendError e st) = console st"
  "outbox (sendError e st) = outbox st @ [Direct (ErrorMsg e)]"
  by (simp_all add: sendError_def peel)

text \<open>The chunk table, the registry and the logs through the worker.\<close>

lemma getPriorDeltas_frame [peel]:
  "chunksT (snd (getPriorDeltas E j k st)) = chunksT st"
  "documents (snd (getPriorDeltas E j k st)) = documents st"
  "activeJobs (snd (getPriorDeltas E j k st)) = activeJobs st"
  "llmLog (snd (getPriorDeltas E j k st)) = llmLog st"
  "statusLog (snd (getPriorDeltas E j k st)) = statusLog st"
  "now (snd (getPriorDeltas E j k st)) = now st"
  "outbox (snd (getPriorDeltas E j k st)) = outbox st"
  by (simp_all add: getPriorDeltas_def Let_def peel)

lemma handleAbort_frame [peel]:
  "chunksT (snd (handleAbort E j st)) = chunksT st"
  "llmLog (snd (handleAbort E j st)) = llmLog st"
  "statusLog (snd (handleAbort E j st)) = statusLog st"
  "now (snd (handleAbort E j st)) = now st"
  "map j_id (documents (snd (handleAbort E j st))) = map j_id (documents st)"
  "map jobStatic (documents (snd (handleAbort E j st))) = map jobStatic (documents st)"
  by (simp_all add: handleAbort_def Let_def guarded_def peel jobStatic_def comp_def)

lemma abortedFlag_flagOf: "abortedFlag j st = (flagOf j st = Some True)"
  by (auto simp: abortedFlag_def flagOf_def split: option.splits)

lemma flagOf_prims [peel]:
  "flagOf j (emit m st) = flagOf j st" "flagOf j (logLine l st) = flagOf j st"
  "flagOf j (recordCall c st) = flagOf j st" "flagOf j (updateDocument i f st) = flagOf j st"
  "flagOf j (updateChunk i g st) = flagOf j st" "flagOf j (broadcastToJob i m' st) = flagOf j st"
  "flagOf j (broadcastProgress i p s st) = flagOf j st" "flagOf j (sendToClient m' st) = flagOf j st"
  "flagOf j (sendError e st) = flagOf j st"
  "flagOf j (activeJobsDelete j st) = None"
  "flagOf j (abortJob j st) = map_option (\<lambda>b. True) (flagOf j st)"
  by (simp_all add: flagOf_def peel abortJob_def sendToClient_def sendError_def emit_def
      activeJobsDelete_def split: option.split)

lemma flagOf_yield [peel]: "flagOf j (yield E y j st) = arrive E y (flagOf j st)"
  by (simp add: arrive_def yield_def peel)

lemma guarded_if: "guarded E s f st = (if dbFails E s then logLine (DbFailed s) st else f st)"
  by (simp add: guarded_def)

lemma writeChunk_proj [peel]:
  "fst (writeChunk E c out (countWords out) d st)
     = (if dbFails E (UpdateChunkComplete (c_id c)) \<or> dbFails E (VerifyChunk (c_id c))
        then Some CriticalPersist else None)"
  "chunksT (snd (writeChunk E c out (countWords out) d st))
     = (if dbFails E (UpdateChunkComplete (c_id c)) then chunksT st
        else map (\<lambda>x. if c_id x = c_id c then writeRow E c out d x else x) (chunksT st))"
  "flagOf j (snd (writeChunk E c out aw d st)) = flagOf j st"
  "documents (snd (writeChunk E c out aw d st)) = documents st"
  "llmLog (snd (writeChunk E c out aw d st)) = llmLog st"
  "now (snd (writeChunk E c out aw d st)) = now st"
  "outbox (snd (writeChunk E c out aw d st)) = outbox st"
  by (simp_all add: writeChunk_def Let_def peel writeRow_def split: option.split)

lemma afterWrite_proj [peel]:
  "chunksT (afterWrite E j job len pos c out aw r t st) = chunksT st"
  "flagOf j (afterWrite E j job len pos c out aw r t st)
     = (if int (c_chunkIndex c) < int len - 1 then arrive E (AfterChunk pos) (flagOf j st)
        else flagOf j st)"
  "llmLog (afterWrite E j job len pos c out aw r t st) = llmLog st"
  "statusLog (afterWrite E j job len pos c out aw r t st) = statusLog st"
  "now (afterWrite E j job len pos c out aw r t st) = now st"
  "map j_id (documents (afterWrite E j job len pos c out aw r t st)) = map j_id (documents st)"
  "map jobStatic (documents (afterWrite E j job len pos c out aw r t st)) = map jobStatic (documents st)"
  by (simp_all add: afterWrite_def Let_def guarded_if peel jobStatic_def comp_def split: option.split)

lemma getPriorDeltas_flag [peel]:
  "flagOf j' (snd (getPriorDeltas E j k st)) = flagOf j' st"
  by (simp_all add: getPriorDeltas_def Let_def peel)

lemma getPriorDeltas_prior [peel]: "fst (getPriorDeltas E j k st) = priorDeltasOf E j k (chunksT st)"
  by (simp add: getPriorDeltas_def priorDeltasOf_def Let_def)

lemma processChunk_table:
  "chunksT (snd (processChunk E j job skel len pos t c r st)) = snd (chunkStep E j job skel c (chunksT st))"
  by (simp add: processChunk_def chunkStep_def markedTable_def Let_def split_beta guarded_if peel
      split: sum.split)

lemma processChunk_result:
  "fst (processChunk E j job skel len pos t c r st)
     = map_sum id (\<lambda>out. r + countWords out) (fst (chunkStep E j job skel c (chunksT st)))"
  by (simp add: processChunk_def chunkStep_def markedTable_def Let_def split_beta guarded_if peel
      split: sum.split)

lemma processChunk_flag:
  "flagOf j (snd (processChunk E j job skel len pos t c r st))
     = (if isl (fst (chunkStep E j job skel c (chunksT st))) \<or> \<not> int (c_chunkIndex c) < int len - 1
        then arrive E (DuringChunk pos) (flagOf j st)
        else arrive E (AfterChunk pos) (arrive E (DuringChunk pos) (flagOf j st)))"
  by (simp add: processChunk_def chunkStep_def markedTable_def Let_def split_beta guarded_if peel
      split: sum.split)

lemma processChunk_llmLog:
  "llmLog (snd (processChunk E j job skel len pos t c r st))
     = llmLog st @ (if isl (priorDeltasOf E j (c_chunkIndex c) (markedTable E c (chunksT st))) then []
                    else [Reconstruct (c_chunkIndex c)])"
  by (simp add: processChunk_def markedTable_def Let_def split_beta guarded_if peel
      split: sum.split)

lemma processChunk_documents:
  "map jobStatic (documents (snd (processChunk E j job skel len pos t c r st))) = map jobStatic (documents st)"
  by (simp add: processChunk_def Let_def split_beta guarded_if peel split: sum.split)

lemma chunkStatic_fields [simp]:
  "c_id (chunkStatic c) = c_id c" "c_documentId (chunkStatic c) = c_documentId c"
  "c_chunkIndex (chunkStatic c) = c_chunkIndex c" "c_chunkInputText (chunkStatic c) = c_chunkInputText c"
  "c_chunkInputWords (chunkStatic c) = c_chunkInputWords c" "c_targetWords (chunkStatic c) = c_targetWords c"
  "c_minWords (chunkStatic c) = c_minWords c" "c_maxWords (chunkStatic c) = c_maxWords c"
  by (simp_all add: chunkStatic_def)

lemma chunkStatic_eqD:
  assumes "chunkStatic c = chunkStatic c'"
  shows "c_id c = c_id c'" "c_documentId c = c_documentId c'" "c_chunkIndex c = c_chunkIndex c'"
    "c_chunkInputText c = c_chunkInputText c'" "c_chunkInputWords c = c_chunkInputWords c'"
    "c_targetWords c = c_targetWords c'" "c_minWords c = c_minWords c'" "c_maxWords c = c_maxWords c'"
  using assms chunkStatic_fields by metis+

lemma chunkStatic_idem [simp]: "chunkStatic (chunkStatic c) = chunkStatic c"
  by (simp add: chunkStatic_def)

lemma chunkStatic_mark [simp]: "chunkStatic (c\<lparr>c_status := s\<rparr>) = chunkStatic c"
  by (simp add: chunkStatic_def)

lemma chunkStatic_writeRow [simp]: "chunkStatic (writeRow E c out d x) = chunkStatic x"
  by (simp add: chunkStatic_def writeRow_def)

lemma writeRow_static: "chunkStatic x = chunkStatic y \<Longrightarrow> writeRow E c out d x = writeRow E c out d y"
proof -
  assume "chunkStatic x = chunkStatic y"
  then have "writeRow E c out d (chunkStatic x) = writeRow E c out d (chunkStatic y)" by simp
  then show ?thesis by (simp add: writeRow_def chunkStatic_def)
qed

lemma jobStatic_fields [simp]:
  "j_id (jobStatic x) = j_id x" "j_originalText (jobStatic x) = j_originalText x"
  "j_wordCount (jobStatic x) = j_wordCount x" "j_targetMinWords (jobStatic x) = j_targetMinWords x"
  "j_targetMaxWords (jobStatic x) = j_targetMaxWords x" "j_targetMidWords (jobStatic x) = j_targetMidWords x"
  "j_lengthRatio (jobStatic x) = j_lengthRatio x" "j_lengthMode (jobStatic x) = j_lengthMode x"
  "j_chunkTargetWords (jobStatic x) = j_chunkTargetWords x" "j_numChunks (jobStatic x) = j_numChunks x"
  "j_audienceParameters (jobStatic x) = j_audienceParameters x" "j_rigorLevel (jobStatic x) = j_rigorLevel x"
  "j_customInstructions (jobStatic x) = j_customInstructions x"
  by (simp_all add: jobStatic_def)

lemma jobStatic_eqD:
  assumes "jobStatic x = jobStatic y"
  shows "j_id x = j_id y" "j_originalText x = j_originalText y" "j_numChunks x = j_numChunks y"
    "j_targetMidWords x = j_targetMidWords y" "lengthConfigOfJob x = lengthConfigOfJob y"
    "j_audienceParameters x = j_audienceParameters y" "j_rigorLevel x = j_rigorLevel y"
proof -
  have "lengthConfigOfJob (jobStatic z) = lengthConfigOfJob z" for z
    by (simp add: lengthConfigOfJob_def)
  then show "lengthConfigOfJob x = lengthConfigOfJob y" using assms by metis
qed (use assms jobStatic_fields in metis)+

text \<open>Properties of \<open>tableRel\<close>.\<close>

lemma tableRel_nth:
  "tableRel Q T T' = (length T = length T'
     \<and> (\<forall>i<length T. chunkStatic (T ! i) = chunkStatic (T' ! i) \<and> (c_id (T ! i) \<in> Q \<longrightarrow> T ! i = T' ! i)))"
  by (simp add: tableRel_def list_all2_conv_all_nth)

lemma tableRel_refl [simp]: "tableRel Q T T"
  by (simp add: tableRel_nth)

lemma tableRel_mono: "tableRel Q T T' \<Longrightarrow> Q' \<subseteq> Q \<Longrightarrow> tableRel Q' T T'"
  by (auto simp: tableRel_nth)

lemma tableRel_static: "tableRel Q T T' \<Longrightarrow> map chunkStatic T = map chunkStatic T'"
  by (simp add: tableRel_nth list_eq_iff_nth_eq)

lemma tableRel_UNIV: "tableRel UNIV T T' \<Longrightarrow> T = T'"
  by (simp add: tableRel_nth list_eq_iff_nth_eq)

lemma tableRel_trans:
  assumes "tableRel Q T T'" and "tableRel Q T' T''"
  shows "tableRel Q T T''"
  unfolding tableRel_nth
proof (intro conjI allI impI)
  show "length T = length T''" using assms by (simp add: tableRel_nth)
next
  fix i assume i: "i < length T"
  then have a: "chunkStatic (T ! i) = chunkStatic (T' ! i)" "c_id (T ! i) \<in> Q \<longrightarrow> T ! i = T' ! i"
    and b: "chunkStatic (T' ! i) = chunkStatic (T'' ! i)" "c_id (T' ! i) \<in> Q \<longrightarrow> T' ! i = T'' ! i"
    using assms by (simp_all add: tableRel_nth)
  show "chunkStatic (T ! i) = chunkStatic (T'' ! i)" using a(1) b(1) by simp
  have "c_id (T ! i) = c_id (T' ! i)" using a(1) by (rule chunkStatic_eqD(1))
  then show "T ! i = T'' ! i" if "c_id (T ! i) \<in> Q" using that a(2) b(2) by simp
qed

lemma tableRel_sym:
  assumes "tableRel Q T T'"
  shows "tableRel Q T' T"
  unfolding tableRel_nth
proof (intro conjI allI impI)
  show "length T' = length T" using assms by (simp add: tableRel_nth)
next
  fix i assume i: "i < length T'"
  then have a: "chunkStatic (T ! i) = chunkStatic (T' ! i)" "c_id (T ! i) \<in> Q \<longrightarrow> T ! i = T' ! i"
    using assms by (simp_all add: tableRel_nth)
  show "chunkStatic (T' ! i) = chunkStatic (T ! i)" using a(1) by simp
  have "c_id (T ! i) = c_id (T' ! i)" using a(1) by (rule chunkStatic_eqD(1))
  then show "T' ! i = T ! i" if "c_id (T' ! i) \<in> Q" using that a(2) by simp
qed

lemma tableRel_map:
  assumes "tableRel Q T T'"
    and f: "\<And>x. chunkStatic (f x) = chunkStatic x"
  shows "tableRel Q (map (\<lambda>x. if c_id x = i then f x else x) T) (map (\<lambda>x. if c_id x = i then f x else x) T')"
  unfolding tableRel_nth
proof (intro conjI allI impI)
  show "length (map (\<lambda>x. if c_id x = i then f x else x) T) = length (map (\<lambda>x. if c_id x = i then f x else x) T')"
    using assms(1) by (simp add: tableRel_nth)
next
  fix k assume "k < length (map (\<lambda>x. if c_id x = i then f x else x) T)"
  then have k: "k < length T" "k < length T'" using assms(1) by (simp_all add: tableRel_nth)
  have a: "chunkStatic (T ! k) = chunkStatic (T' ! k)" "c_id (T ! k) \<in> Q \<longrightarrow> T ! k = T' ! k"
    using assms(1) k by (simp_all add: tableRel_nth)
  have ids: "c_id (T ! k) = c_id (T' ! k)" using a(1) by (rule chunkStatic_eqD(1))
  show "chunkStatic (map (\<lambda>x. if c_id x = i then f x else x) T ! k)
      = chunkStatic (map (\<lambda>x. if c_id x = i then f x else x) T' ! k)"
    using k a(1) ids f by simp
  have "c_id (f (T ! k)) = c_id (T ! k)" using f [of "T ! k"] by (rule chunkStatic_eqD(1))
  then show "map (\<lambda>x. if c_id x = i then f x else x) T ! k = map (\<lambda>x. if c_id x = i then f x else x) T' ! k"
    if "c_id (map (\<lambda>x. if c_id x = i then f x else x) T ! k) \<in> Q"
    using that k a(2) ids by (simp split: if_splits)
qed

lemma tableRel_map_self:
  assumes f: "\<And>x. chunkStatic (f x) = chunkStatic x"
  shows "tableRel (- {i}) T (map (\<lambda>x. if c_id x = i then f x else x) T)"
  using f by (simp add: tableRel_nth)

lemma tableRel_write:
  assumes "tableRel Q T T'"
  shows "tableRel (insert (c_id c) Q) (map (\<lambda>x. if c_id x = c_id c then writeRow E c out d x else x) T)
           (map (\<lambda>x. if c_id x = c_id c then writeRow E c out d x else x) T')"
  unfolding tableRel_nth
proof (intro conjI allI impI)
  show "length (map (\<lambda>x. if c_id x = c_id c then writeRow E c out d x else x) T)
      = length (map (\<lambda>x. if c_id x = c_id c then writeRow E c out d x else x) T')"
    using assms(1) by (simp add: tableRel_nth)
next
  fix k assume "k < length (map (\<lambda>x. if c_id x = c_id c then writeRow E c out d x else x) T)"
  then have k: "k < length T" "k < length T'" using assms(1) by (simp_all add: tableRel_nth)
  have a: "chunkStatic (T ! k) = chunkStatic (T' ! k)" "c_id (T ! k) \<in> Q \<longrightarrow> T ! k = T' ! k"
    using assms(1) k by (simp_all add: tableRel_nth)
  have ids: "c_id (T ! k) = c_id (T' ! k)" using a(1) by (rule chunkStatic_eqD(1))
  have w: "writeRow E c out d (T ! k) = writeRow E c out d (T' ! k)" using a(1) by (rule writeRow_static)
  show "chunkStatic (map (\<lambda>x. if c_id x = c_id c then writeRow E c out d x else x) T ! k)
      = chunkStatic (map (\<lambda>x. if c_id x = c_id c then writeRow E c out d x else x) T' ! k)"
    using k a(1) ids by simp
  show "map (\<lambda>x. if c_id x = c_id c then writeRow E c out d x else x) T ! k
      = map (\<lambda>x. if c_id x = c_id c then writeRow E c out d x else x) T' ! k"
    if "c_id (map (\<lambda>x. if c_id x = c_id c then writeRow E c out d x else x) T ! k) \<in> insert (c_id c) Q"
  proof (cases "c_id (T ! k) = c_id c")
    case True
    then show ?thesis using k ids w by simp
  next
    case False
    then show ?thesis using that k ids a(2) by simp
  qed
qed

lemma tableRel_filter:
  assumes "tableRel Q T T'"
    and "\<And>x. x \<in> set T \<Longrightarrow> P x \<Longrightarrow> c_id x \<in> Q"
    and "\<And>x y. chunkStatic x = chunkStatic y \<Longrightarrow> P x = P y"
  shows "filter P T = filter P T'"
  using assms(1,2) unfolding tableRel_def
proof (induction rule: list_all2_induct)
  case Nil
  then show ?case by simp
next
  case (Cons x xs y ys)
  have "P x = P y" using Cons.hyps(1) assms(3) by blast
  moreover have "P x \<Longrightarrow> x = y" using Cons.hyps(1) Cons.prems by auto
  moreover have "filter P xs = filter P ys" using Cons by auto
  ultimately show ?case by auto
qed

lemma cov_static:
  assumes "map chunkStatic T = map chunkStatic T'"
  shows "cov j Q cs T = cov j Q cs T'"
proof -
  have c: "cov j Q cs U = (\<forall>s\<in>chunkStatic ` set U. c_documentId s = j \<longrightarrow> c_id s \<in> Q \<or> s \<in> chunkStatic ` set cs)"
    for U by (simp add: cov_def)
  have "chunkStatic ` set T = chunkStatic ` set T'" using assms by (metis set_map)
  then show ?thesis unfolding c by simp
qed

lemma markedTable_static [simp]: "map chunkStatic (markedTable E c T) = map chunkStatic T"
  by (simp add: markedTable_def comp_def)

lemma chunkStep_static [simp]: "map chunkStatic (snd (chunkStep E j job skel c T)) = map chunkStatic T"
proof -
  have "map chunkStatic (map (\<lambda>x. if c_id x = c_id c then writeRow E c out d x else x) (markedTable E c T))
      = map chunkStatic T" for out d
  proof -
    have "chunkStatic \<circ> (\<lambda>x. if c_id x = c_id c then writeRow E c out d x else x) = chunkStatic"
      by (rule ext) simp
    then show ?thesis by simp
  qed
  then show ?thesis
    by (simp add: chunkStep_def Let_def del: map_map split: sum.split prod.split)
qed

lemma cov_head:
  assumes "cov j Q (c # cs) T" and "sorted (map c_chunkIndex (c # cs))"
    and "x \<in> set T" and "c_documentId x = j" and "c_chunkIndex x < c_chunkIndex c"
  shows "c_id x \<in> Q"
proof (rule ccontr)
  assume "c_id x \<notin> Q"
  then obtain y where y: "y \<in> set (c # cs)" "chunkStatic x = chunkStatic y"
    using assms(1,3,4) unfolding cov_def by blast
  have "c_chunkIndex x = c_chunkIndex y" using y(2) by (rule chunkStatic_eqD(3))
  moreover have "c_chunkIndex c \<le> c_chunkIndex y" using assms(2) y(1) by auto
  ultimately show False using assms(5) by simp
qed

lemma cov_step:
  assumes "cov j Q (c # cs) T"
  shows "cov j (insert (c_id c) Q) cs T"
  unfolding cov_def
proof (intro ballI impI)
  fix x assume x: "x \<in> set T" "c_documentId x = j"
  show "c_id x \<in> insert (c_id c) Q \<or> chunkStatic x \<in> chunkStatic ` set cs"
  proof (cases "c_id x \<in> Q")
    case True
    then show ?thesis by simp
  next
    case False
    then obtain y where y: "y \<in> set (c # cs)" "chunkStatic x = chunkStatic y"
      using assms x unfolding cov_def by blast
    show ?thesis
    proof (cases "y = c")
      case True
      then have "c_id x = c_id c" using y(2) chunkStatic_eqD(1) by blast
      then show ?thesis by simp
    next
      case False
      then show ?thesis using y by auto
    qed
  qed
qed

lemma priorChunksOf_rel:
  assumes "tableRel Q T T'"
    and "\<And>x. x \<in> set T \<Longrightarrow> c_documentId x = j \<Longrightarrow> c_chunkIndex x < k \<Longrightarrow> c_id x \<in> Q"
  shows "priorChunksOf j k T = priorChunksOf j k T'"
proof -
  have "filter (\<lambda>c. c_documentId c = j \<and> c_chunkIndex c < k) T
      = filter (\<lambda>c. c_documentId c = j \<and> c_chunkIndex c < k) T'"
  proof (rule tableRel_filter [OF assms(1)])
    show "c_id x \<in> Q" if "x \<in> set T" "c_documentId x = j \<and> c_chunkIndex x < k" for x
      using that assms(2) by blast
    show "(c_documentId x = j \<and> c_chunkIndex x < k) = (c_documentId y = j \<and> c_chunkIndex y < k)"
      if "chunkStatic x = chunkStatic y" for x y
      using chunkStatic_eqD(2,3) [OF that] by simp
  qed
  then show ?thesis by (simp add: priorChunksOf_def)
qed

lemma markedTable_rel: "tableRel Q T T' \<Longrightarrow> tableRel Q (markedTable E c T) (markedTable E c T')"
  unfolding markedTable_def by (simp add: tableRel_map)

lemma markedTable_set:
  "x \<in> set (markedTable E c T) \<Longrightarrow> \<exists>y\<in>set T. chunkStatic x = chunkStatic y"
  by (auto simp: markedTable_def split: if_splits)

lemma chunkStep_sim:
  assumes rel: "tableRel Q T T'"
    and low: "\<And>x. x \<in> set T \<Longrightarrow> c_documentId x = j \<Longrightarrow> c_chunkIndex x < c_chunkIndex c \<Longrightarrow> c_id x \<in> Q"
  shows "fst (chunkStep E j job skel c T) = fst (chunkStep E j job skel c T')"
    and "tableRel Q (snd (chunkStep E j job skel c T)) (snd (chunkStep E j job skel c T'))"
    and "\<not> isl (fst (chunkStep E j job skel c T)) \<Longrightarrow>
           tableRel (insert (c_id c) Q) (snd (chunkStep E j job skel c T)) (snd (chunkStep E j job skel c T'))"
proof -
  let ?T1 = "markedTable E c T" and ?T1' = "markedTable E c T'"
  have r1: "tableRel Q ?T1 ?T1'" using rel by (rule markedTable_rel)
  have low1: "c_id x \<in> Q"
    if xin: "x \<in> set ?T1" and xd: "c_documentId x = j" and xi: "c_chunkIndex x < c_chunkIndex c" for x
  proof -
    obtain y where y: "y \<in> set T" "chunkStatic x = chunkStatic y"
      using markedTable_set xin by blast
    have e: "c_id x = c_id y" "c_documentId x = c_documentId y" "c_chunkIndex x = c_chunkIndex y"
      using y(2) by (rule chunkStatic_eqD)+
    have "c_id y \<in> Q" using low y(1) xd xi e by simp
    then show ?thesis using e by simp
  qed
  have "priorChunksOf j (c_chunkIndex c) ?T1 = priorChunksOf j (c_chunkIndex c) ?T1'"
    using r1 low1 by (rule priorChunksOf_rel)
  then have prior: "priorDeltasOf E j (c_chunkIndex c) ?T1 = priorDeltasOf E j (c_chunkIndex c) ?T1'"
    by (simp add: priorDeltasOf_def)
  have w: "tableRel (insert (c_id c) Q)
            (map (\<lambda>x. if c_id x = c_id c then writeRow E c out d x else x) ?T1)
            (map (\<lambda>x. if c_id x = c_id c then writeRow E c out d x else x) ?T1')" for out d
    using r1 by (rule tableRel_write)
  have w': "tableRel Q
            (map (\<lambda>x. if c_id x = c_id c then writeRow E c out d x else x) ?T1)
            (map (\<lambda>x. if c_id x = c_id c then writeRow E c out d x else x) ?T1')" for out d
    using w by (rule tableRel_mono) auto
  show "fst (chunkStep E j job skel c T) = fst (chunkStep E j job skel c T')"
    using prior by (simp add: chunkStep_def Let_def split: sum.split prod.split)
  show "tableRel Q (snd (chunkStep E j job skel c T)) (snd (chunkStep E j job skel c T'))"
    using prior r1 w' by (simp add: chunkStep_def Let_def split: sum.split prod.split)
  show "tableRel (insert (c_id c) Q) (snd (chunkStep E j job skel c T)) (snd (chunkStep E j job skel c T'))"
    if "\<not> isl (fst (chunkStep E j job skel c T))"
    using that prior w by (simp add: chunkStep_def Let_def split: sum.splits prod.splits if_splits)
qed

lemma chunkStep_args:
  assumes "chunkStatic c = chunkStatic c'" and "jobStatic job = jobStatic job'"
  shows "chunkStep E j job skel c T = chunkStep E j job' skel c' T"
  using chunkStatic_eqD(1,3,4) [OF assms(1)] jobStatic_eqD(3,5) [OF assms(2)]
  by (simp add: chunkStep_def markedTable_def writeRow_def cong: sum.case_cong prod.case_cong if_cong)

lemma handleAbort_fst:
  "fst (handleAbort E j st)
     = (if dbFails E (SelectCompleteChunks j) \<or> dbFails E (SelectDocument j) then Some DbError else None)"
  by (simp add: handleAbort_def Let_def)

lemma handleAbort_flag:
  "flagOf j (snd (handleAbort E j st))
     = (if dbFails E (SelectCompleteChunks j) \<or> dbFails E (SelectDocument j) then flagOf j st else None)"
  by (simp add: handleAbort_def Let_def guarded_if peel)

lemma chunkLoop_Cons:
  "chunkLoop E j job skel len t pos r (c # cs) st =
     (if flagOf j st = Some True
      then (case fst (handleAbort E j st) of Some e \<Rightarrow> LoopThrew e | None \<Rightarrow> LoopAborted,
            snd (handleAbort E j st))
      else case fst (processChunk E j job skel len pos t c r st) of
             Inl e \<Rightarrow> (LoopThrew e, snd (processChunk E j job skel len pos t c r st))
           | Inr r' \<Rightarrow> chunkLoop E j job skel len t (Suc pos) r' cs
                        (snd (processChunk E j job skel len pos t c r st)))"
  by (simp add: abortedFlag_flagOf split: prod.split option.split sum.split)

declare chunkLoop.simps(2) [simp del]

lemma chunkLoop_sim:
  assumes args: "jobStatic job = jobStatic job'"
  shows "map chunkStatic cs = map chunkStatic cs' \<Longrightarrow> tableRel Q (chunksT a) (chunksT b)
    \<Longrightarrow> flagOf j a = flagOf j b \<Longrightarrow> cov j Q cs (chunksT a) \<Longrightarrow> sorted (map c_chunkIndex cs)
    \<Longrightarrow> fst (chunkLoop E j job skel len t pos r cs a) = fst (chunkLoop E j job' skel len t' pos r cs' b)
      \<and> flagOf j (snd (chunkLoop E j job skel len t pos r cs a))
          = flagOf j (snd (chunkLoop E j job' skel len t' pos r cs' b))
      \<and> ((\<exists>n. fst (chunkLoop E j job skel len t pos r cs a) = LoopDone n) \<longrightarrow>
           tableRel (Q \<union> c_id ` set cs) (chunksT (snd (chunkLoop E j job skel len t pos r cs a)))
             (chunksT (snd (chunkLoop E j job' skel len t' pos r cs' b))))"
proof (induction cs arbitrary: cs' a b Q pos r)
  case Nil
  then show ?case by simp
next
  case (Cons c cs)
  from Cons.prems(1) obtain c' cs'' where cs': "cs' = c' # cs''"
    and cc: "chunkStatic c = chunkStatic c'" and rest: "map chunkStatic cs = map chunkStatic cs''"
    by (cases cs') auto
  have idx: "c_chunkIndex c = c_chunkIndex c'" and ids: "c_id c = c_id c'"
    using cc by (rule chunkStatic_eqD)+
  let ?pa = "processChunk E j job skel len pos t c r a"
  let ?pb = "processChunk E j job' skel len pos t' c' r b"
  let ?sa = "chunkStep E j job skel c (chunksT a)"
  let ?sb = "chunkStep E j job skel c (chunksT b)"
  have sb: "chunkStep E j job' skel c' (chunksT b) = ?sb"
    using chunkStep_args [OF cc args, where E = E and j = j and skel = skel and T = "chunksT b"] by simp
  have low: "c_id x \<in> Q" if "x \<in> set (chunksT a)" "c_documentId x = j" "c_chunkIndex x < c_chunkIndex c" for x
    using cov_head [OF Cons.prems(4,5) that] .
  have sim1: "fst ?sa = fst ?sb"
    using Cons.prems(2) low by (rule chunkStep_sim(1))
  have sim3: "tableRel (insert (c_id c) Q) (snd ?sa) (snd ?sb)" if "\<not> isl (fst ?sa)"
    using Cons.prems(2) low that by (rule chunkStep_sim(3))
  have res: "fst ?pa = fst ?pb"
    using sim1 by (simp add: processChunk_result sb)
  have flag: "flagOf j (snd ?pa) = flagOf j (snd ?pb)"
    using sim1 Cons.prems(3) idx by (simp add: processChunk_flag sb)
  show ?case
  proof (cases "flagOf j a = Some True")
    case True
    then have "flagOf j b = Some True" using Cons.prems(3) by simp
    with True show ?thesis
      using Cons.prems(3) by (simp add: cs' chunkLoop_Cons handleAbort_fst handleAbort_flag)
  next
    case False
    then have fb: "flagOf j b \<noteq> Some True" using Cons.prems(3) by simp
    show ?thesis
    proof (cases "fst ?pa")
      case (Inl e)
      then show ?thesis using False fb res flag by (simp add: cs' chunkLoop_Cons)
    next
      case (Inr r')
      then have ok: "\<not> isl (fst ?sa)" by (cases "fst ?sa") (simp_all add: processChunk_result)
      have rel': "tableRel (insert (c_id c) Q) (chunksT (snd ?pa)) (chunksT (snd ?pb))"
        using sim3 [OF ok] by (simp add: processChunk_table sb)
      have cov': "cov j (insert (c_id c) Q) cs (chunksT (snd ?pa))"
      proof -
        have "cov j (insert (c_id c) Q) cs (chunksT a)" using Cons.prems(4) by (rule cov_step)
        moreover have "map chunkStatic (chunksT (snd ?pa)) = map chunkStatic (chunksT a)"
          by (simp add: processChunk_table)
        ultimately show ?thesis using cov_static by blast
      qed
      have srt: "sorted (map c_chunkIndex cs)" using Cons.prems(5) by simp
      note IH = Cons.IH [OF rest rel' flag cov' srt, of "Suc pos" r']
      have un: "insert (c_id c) Q \<union> c_id ` set cs = Q \<union> c_id ` set (c # cs)" by auto
      have la: "chunkLoop E j job skel len t pos r (c # cs) a
          = chunkLoop E j job skel len t (Suc pos) r' cs (snd ?pa)"
        using False Inr by (simp add: chunkLoop_Cons)
      have lb: "chunkLoop E j job' skel len t' pos r cs' b
          = chunkLoop E j job' skel len t' (Suc pos) r' cs'' (snd ?pb)"
        using fb Inr res by (simp add: cs' chunkLoop_Cons)
      show ?thesis unfolding la lb using IH unfolding un .
    qed
  qed
qed

lemma selectChunks_table: "selectChunks j st = sort_key c_chunkIndex (filter (\<lambda>c. c_documentId c = j) (chunksT st))"
  by (simp add: selectChunks_def)

lemma stitchPhase_fst:
  "fst (stitchPhase E j job skel t st)
     = (if dbFails E (SelectCompleteChunks j) then Failed DbError
        else case stitchAndValidate E skel (stitchInput j (chunksT st)) of
               Inl e \<Rightarrow> Failed e | Inr r \<Rightarrow> Completed)"
  by (simp add: stitchPhase_def stitchInput_def selectCompleteChunks_def Let_def guarded_if peel
      split: sum.split prod.split)

lemma stitchPhase_proj:
  "chunksT (snd (stitchPhase E j job skel t st)) = chunksT st"
  "llmLog (snd (stitchPhase E j job skel t st))
     = llmLog st @ (if dbFails E (SelectCompleteChunks j) then [] else [Stitch])"
  "statusLog (snd (stitchPhase E j job skel t st)) = statusLog st"
  "map j_id (documents (snd (stitchPhase E j job skel t st))) = map j_id (documents st)"
  by (simp_all add: stitchPhase_def Let_def guarded_if peel comp_def split: sum.split prod.split)

lemma startWorker_Inr:
  assumes "startWorker E j st = Inr ((job, t, skel, cs), st')"
  shows "\<not> dbFails E (SelectDocument j)" "selectDocument j st = Some job"
    "\<exists>js. activeJobs st j = Some js \<and> t = startTime js"
    "extractGlobalSkeleton E (j_originalText job) (orUndefined (j_audienceParameters job))
        (orUndefined (j_rigorLevel job)) = Inr skel"
    "arrive E DuringSkeleton (flagOf j st) \<noteq> Some True"
    "\<not> dbFails E (SelectChunks j)" "cs = selectChunks j st" "chunksT st' = chunksT st"
    "flagOf j st' = arrive E BeforeLoop (arrive E DuringSkeleton (flagOf j st))"
    "llmLog st' = llmLog st @ [ExtractSkeleton]" "statusLog st' = statusLog st"
    "map jobStatic (documents st') = map jobStatic (documents st)"
  using assms
  by (auto simp: startWorker_def Let_def guarded_if peel abortedFlag_flagOf selectChunks_table
      jobStatic_def comp_def split: if_splits option.splits sum.splits)

lemma startWorker_InrI:
  assumes "\<not> dbFails E (SelectDocument j)" "selectDocument j st = Some job"
    "activeJobs st j = Some js"
    "extractGlobalSkeleton E (j_originalText job) (orUndefined (j_audienceParameters job))
        (orUndefined (j_rigorLevel job)) = Inr skel"
    "arrive E DuringSkeleton (flagOf j st) \<noteq> Some True"
    "\<not> dbFails E (SelectChunks j)"
  shows "\<exists>st'. startWorker E j st = Inr ((job, startTime js, skel, selectChunks j st), st')"
  using assms
  by (simp add: startWorker_def Let_def guarded_if peel abortedFlag_flagOf selectChunks_table)

lemma startWorker_Inl:
  assumes "startWorker E j st = Inl (r, st')"
  shows "chunksT st' = chunksT st" "map jobStatic (documents st') = map jobStatic (documents st)"
    "statusLog st' = statusLog st"
  using assms
  by (auto simp: startWorker_def abortNow_def Let_def guarded_if peel jobStatic_def comp_def split_beta
      split: if_splits option.splits sum.splits)

lemma chunkStep_frame: "tableRel (- {c_id c}) T (snd (chunkStep E j job skel c T))"
proof -
  have m: "tableRel (- {c_id c}) T (markedTable E c T)"
    by (simp add: markedTable_def tableRel_map_self)
  have w: "tableRel (- {c_id c}) (markedTable E c T)
             (map (\<lambda>x. if c_id x = c_id c then writeRow E c out d x else x) (markedTable E c T))" for out d
    by (simp add: tableRel_map_self)
  have mw: "tableRel (- {c_id c}) T
             (map (\<lambda>x. if c_id x = c_id c then writeRow E c out d x else x) (markedTable E c T))" for out d
    using m w by (rule tableRel_trans)
  show ?thesis using m mw by (simp add: chunkStep_def Let_def split: sum.split prod.split)
qed

lemma handleAbort_table: "chunksT (snd (handleAbort E j st)) = chunksT st"
  by (simp add: peel)

lemma chunkLoop_frame:
  "tableRel (- c_id ` set cs) (chunksT st) (chunksT (snd (chunkLoop E j job skel len t pos r cs st)))"
proof (induction cs arbitrary: st pos r)
  case Nil
  then show ?case by simp
next
  case (Cons c cs)
  let ?p = "processChunk E j job skel len pos t c r st"
  have one: "tableRel (- c_id ` set (c # cs)) (chunksT st) (chunksT (snd ?p))"
    using chunkStep_frame [of c "chunksT st" E j job skel]
    by (simp add: processChunk_table) (erule tableRel_mono, auto)
  show ?case
  proof (cases "flagOf j st = Some True")
    case True
    then show ?thesis by (simp add: chunkLoop_Cons handleAbort_table)
  next
    case False
    show ?thesis
    proof (cases "fst ?p")
      case (Inl e)
      then show ?thesis using False one by (simp add: chunkLoop_Cons)
    next
      case (Inr r')
      have "tableRel (- c_id ` set (c # cs)) (chunksT (snd ?p))
              (chunksT (snd (chunkLoop E j job skel len t (Suc pos) r' cs (snd ?p))))"
        using Cons.IH [of "snd ?p" "Suc pos" r'] by (rule tableRel_mono) auto
      with one have "tableRel (- c_id ` set (c # cs)) (chunksT st)
              (chunksT (snd (chunkLoop E j job skel len t (Suc pos) r' cs (snd ?p))))"
        by (rule tableRel_trans)
      then show ?thesis using False Inr by (simp add: chunkLoop_Cons)
    qed
  qed
qed

lemma chunkLoop_documents:
  "map jobStatic (documents (snd (chunkLoop E j job skel len t pos r cs st))) = map jobStatic (documents st)"
proof (induction cs arbitrary: st pos r)
  case Nil
  then show ?case by simp
next
  case (Cons c cs)
  show ?case
    using Cons.IH
    by (simp add: chunkLoop_Cons processChunk_documents peel split: sum.split)
qed

lemma chunkStep_Inr_prior:
  "fst (chunkStep E j job skel c T) = Inr out \<Longrightarrow> \<not> isl (priorDeltasOf E j (c_chunkIndex c) (markedTable E c T))"
  by (auto simp: chunkStep_def Let_def split: sum.splits prod.splits if_splits)

lemma chunkLoop_llmLog:
  "fst (chunkLoop E j job skel len t pos r cs st) = LoopDone n \<Longrightarrow>
   llmLog (snd (chunkLoop E j job skel len t pos r cs st)) = llmLog st @ map (\<lambda>c. Reconstruct (c_chunkIndex c)) cs"
proof (induction cs arbitrary: st pos r)
  case Nil
  then show ?case by simp
next
  case (Cons c cs)
  let ?p = "processChunk E j job skel len pos t c r st"
  from Cons.prems have nf: "flagOf j st \<noteq> Some True"
    by (auto simp: chunkLoop_Cons split: if_splits option.splits)
  from Cons.prems nf obtain r' where r': "fst ?p = Inr r'"
    by (cases "fst ?p") (auto simp: chunkLoop_Cons)
  then obtain out where "fst (chunkStep E j job skel c (chunksT st)) = Inr out"
    by (cases "fst (chunkStep E j job skel c (chunksT st))") (auto simp: processChunk_result)
  then have "\<not> isl (priorDeltasOf E j (c_chunkIndex c) (markedTable E c (chunksT st)))"
    by (rule chunkStep_Inr_prior)
  then have one: "llmLog (snd ?p) = llmLog st @ [Reconstruct (c_chunkIndex c)]"
    by (simp add: processChunk_llmLog)
  have step: "chunkLoop E j job skel len t pos r (c # cs) st
      = chunkLoop E j job skel len t (Suc pos) r' cs (snd ?p)"
    using nf r' by (simp add: chunkLoop_Cons)
  show ?case using Cons.IH [of "Suc pos" r' "snd ?p"] Cons.prems one unfolding step by simp
qed

lemma find_jobStatic:
  "map jobStatic ds = map jobStatic ds' \<Longrightarrow>
   map_option jobStatic (find (\<lambda>x. j_id x = j) ds) = map_option jobStatic (find (\<lambda>x. j_id x = j) ds')"
proof (induction ds arbitrary: ds')
  case Nil
  then show ?case by simp
next
  case (Cons d ds)
  then obtain d' ds'' where e: "ds' = d' # ds''" "jobStatic d = jobStatic d'" "map jobStatic ds = map jobStatic ds''"
    by (cases ds') auto
  have "j_id d = j_id d'" using e(2) by (rule jobStatic_eqD(1))
  then show ?case using Cons.IH [OF e(3)] e by simp
qed

lemma insort_key_map: "map g (insort_key (\<lambda>x. f (g x)) x xs) = insort_key f (g x) (map g xs)"
  by (induction xs) auto

lemma sort_key_map: "map g (sort_key (\<lambda>x. f (g x)) xs) = sort_key f (map g xs)"
  by (induction xs) (simp_all add: insort_key_map)

lemma selectChunks_static:
  assumes "map chunkStatic T = map chunkStatic T'"
  shows "map chunkStatic (sort_key c_chunkIndex (filter (\<lambda>c. c_documentId c = j) T))
       = map chunkStatic (sort_key c_chunkIndex (filter (\<lambda>c. c_documentId c = j) T'))"
proof -
  have "map chunkStatic (sort_key c_chunkIndex (filter (\<lambda>c. c_documentId c = j) U))
      = sort_key c_chunkIndex (filter (\<lambda>c. c_documentId c = j) (map chunkStatic U))" for U
  proof -
    have "map chunkStatic (sort_key (\<lambda>x. c_chunkIndex (chunkStatic x)) (filter (\<lambda>c. c_documentId c = j) U))
        = sort_key c_chunkIndex (map chunkStatic (filter (\<lambda>c. c_documentId c = j) U))"
      by (rule sort_key_map)
    moreover have "map chunkStatic (filter (\<lambda>c. c_documentId c = j) U)
        = filter (\<lambda>c. c_documentId c = j) (map chunkStatic U)"
      by (simp add: filter_map comp_def)
    ultimately show ?thesis by simp
  qed
  then show ?thesis using assms by simp
qed

lemma startWorker_Inl_outcome: "startWorker E j st = Inl (r, st') \<Longrightarrow> r \<noteq> Completed"
  by (auto simp: startWorker_def abortNow_def Let_def split_beta
      split: if_splits option.splits sum.splits)

lemma flagOf_None: "(flagOf j st = None) = (activeJobs st j = None)"
  by (simp add: flagOf_def)

lemma processJobBody_sim:
  assumes compl: "fst (processJobBody E j a) = Completed"
    and rel: "tableRel (- c_id ` {x \<in> set (chunksT a). c_documentId x = j}) (chunksT a) (chunksT b)"
    and flags: "flagOf j a = flagOf j b"
    and jobs: "map_option jobStatic (selectDocument j a) = map_option jobStatic (selectDocument j b)"
  shows "fst (processJobBody E j b) = Completed
    \<and> chunksT (snd (processJobBody E j b)) = chunksT (snd (processJobBody E j a))
    \<and> llmLog (snd (processJobBody E j b))
        = llmLog b @ ExtractSkeleton # map (\<lambda>c. Reconstruct (c_chunkIndex c)) (selectChunks j a) @ [Stitch]"
proof -
  let ?S = "c_id ` {x \<in> set (chunksT a). c_documentId x = j}"
  obtain job t skel cs a6 where sa: "startWorker E j a = Inr ((job, t, skel, cs), a6)"
  proof (cases "startWorker E j a")
    case (Inl p)
    then have "fst p \<noteq> Completed" using startWorker_Inl_outcome [of E j a "fst p" "snd p"] by simp
    then show ?thesis using compl Inl by (simp add: processJobBody_def)
  next
    case (Inr q)
    then show ?thesis using that by (cases q) auto
  qed
  note A = startWorker_Inr [OF sa]
  from A(2) jobs obtain job' where jb: "selectDocument j b = Some job'" and st: "jobStatic job = jobStatic job'"
    by (cases "selectDocument j b") auto
  from A(3) obtain js where js: "activeJobs a j = Some js" by blast
  then have "flagOf j a \<noteq> None" by (simp add: flagOf_def)
  then have "flagOf j b \<noteq> None" using flags by simp
  then obtain js' where js': "activeJobs b j = Some js'" by (auto simp: flagOf_None)
  have ex: "extractGlobalSkeleton E (j_originalText job') (orUndefined (j_audienceParameters job'))
        (orUndefined (j_rigorLevel job')) = Inr skel"
    using A(4) jobStatic_eqD(2,6,7) [OF st] by simp
  have fl: "arrive E DuringSkeleton (flagOf j b) \<noteq> Some True" using A(5) flags by simp
  obtain b6 where sb: "startWorker E j b = Inr ((job', startTime js', skel, selectChunks j b), b6)"
    using startWorker_InrI [OF A(1) jb js' ex fl A(6)] by blast
  note B = startWorker_Inr [OF sb]
  let ?cs' = "selectChunks j b"
  have stat: "map chunkStatic (chunksT a) = map chunkStatic (chunksT b)" using rel by (rule tableRel_static)
  have cs_stat: "map chunkStatic cs = map chunkStatic ?cs'"
    using selectChunks_static [OF stat] A(7) by (simp add: selectChunks_table)
  then have len: "length cs = length ?cs'" by (metis length_map)
  have idxs: "map c_chunkIndex cs = map c_chunkIndex ?cs'"
  proof -
    have "map c_chunkIndex (map chunkStatic cs) = map c_chunkIndex (map chunkStatic ?cs')"
      using cs_stat by simp
    then show ?thesis by (simp add: comp_def)
  qed
  have rel6: "tableRel (- ?S) (chunksT a6) (chunksT b6)" using rel A(8) B(8) by simp
  have fl6: "flagOf j a6 = flagOf j b6" using flags A(9) B(9) by simp
  have cov6: "cov j (- ?S) cs (chunksT a6)"
    unfolding cov_def A(7) A(8) by (auto simp: selectChunks_table)
  have srt: "sorted (map c_chunkIndex cs)" by (simp add: A(7) selectChunks_table)
  let ?la = "chunkLoop E j job skel (length cs) t 0 0 cs a6"
  let ?lb = "chunkLoop E j job' skel (length cs) (startTime js') 0 0 ?cs' b6"
  note sim = chunkLoop_sim [OF st cs_stat rel6 fl6 cov6 srt, of E skel "length cs" t 0 0 "startTime js'"]
  obtain n where la: "fst ?la = LoopDone n"
    using compl sa by (cases "fst ?la") (auto simp: processJobBody_def split_beta split: loop_end.splits)
  have lb: "fst ?lb = LoopDone n" using sim la by simp
  have ids: "c_id ` set cs = ?S" by (auto simp: A(7) selectChunks_table)
  have "tableRel (- ?S \<union> c_id ` set cs) (chunksT (snd ?la)) (chunksT (snd ?lb))"
    using sim la by blast
  then have "tableRel UNIV (chunksT (snd ?la)) (chunksT (snd ?lb))" by (simp add: ids)
  then have tabs: "chunksT (snd ?la) = chunksT (snd ?lb)" by (rule tableRel_UNIV)
  have pa: "processJobBody E j a = stitchPhase E j job skel t (snd ?la)"
    using sa la by (simp add: processJobBody_def split_beta)
  have pb: "processJobBody E j b = stitchPhase E j job' skel (startTime js') (snd ?lb)"
    using sb lb len by (simp add: processJobBody_def split_beta)
  have fin: "fst (stitchPhase E j job' skel (startTime js') (snd ?lb)) = Completed"
    using compl unfolding pa by (simp add: stitchPhase_fst tabs split: if_splits)
  have nofail: "\<not> dbFails E (SelectCompleteChunks j)"
    using fin by (auto simp: stitchPhase_fst split: if_splits)
  have log: "llmLog (snd ?lb) = llmLog b6 @ map (\<lambda>c. Reconstruct (c_chunkIndex c)) ?cs'"
    using lb len by (intro chunkLoop_llmLog) simp
  have rec: "map (\<lambda>c. Reconstruct (c_chunkIndex c)) ?cs' = map (\<lambda>c. Reconstruct (c_chunkIndex c)) (selectChunks j a)"
  proof -
    have "map Reconstruct (map c_chunkIndex ?cs') = map Reconstruct (map c_chunkIndex cs)"
      using idxs by simp
    then show ?thesis by (simp add: comp_def A(7))
  qed
  show ?thesis
    unfolding pb using fin tabs nofail log rec B(10)
    by (simp add: pa stitchPhase_proj)
qed

lemma registerJob_proj [peel]:
  "chunksT (registerJob j st) = chunksT st" "documents (registerJob j st) = documents st"
  "llmLog (registerJob j st) = llmLog st" "statusLog (registerJob j st) = statusLog st"
  "outbox (registerJob j st) = outbox st" "now (registerJob j st) = now st"
  "flagOf j (registerJob j st) = Some False"
  "activeJobs (registerJob j st) j = Some \<lparr>aborted = False, startTime = now st\<rparr>"
  by (simp_all add: registerJob_def flagOf_def)

lemma selectDocument_docs: "documents a = documents b \<Longrightarrow> selectDocument j a = selectDocument j b"
  by (simp add: selectDocument_def)

lemma processJobAsync_Completed:
  "fst (processJobBody E j st) = Completed \<Longrightarrow> processJobAsync E j st = snd (processJobBody E j st)"
  by (simp add: processJobAsync_def split_beta split: outcome.split)

lemma resume_reruns:
  assumes reg: "activeJobs st0 j = Some js0" and na: "\<not> aborted js0"
    and full: "fst (processJobBody E j st0) = Completed"
    and ns: "map_option j_status (selectDocument j (workerStoppedAfter E j n st0)) \<noteq> Some J_complete"
  shows "\<exists>job'. selectDocument j (workerStoppedAfter E j n st0) = Some job'
      \<and> resumeJob E j (workerStoppedAfter E j n st0)
          = processJobAsync E j
              (sendToClient (JobResumed j (j_status job') (j_currentChunk job') (j_numChunks job'))
                 (registerJob j (workerStoppedAfter E j n st0)))
      \<and> fst (processJobBody E j
              (sendToClient (JobResumed j (j_status job') (j_currentChunk job') (j_numChunks job'))
                 (registerJob j (workerStoppedAfter E j n st0)))) = Completed
      \<and> chunksT (resumeJob E j (workerStoppedAfter E j n st0)) = chunksT (processJobAsync E j st0)
      \<and> llmLog (resumeJob E j (workerStoppedAfter E j n st0))
          = llmLog (workerStoppedAfter E j n st0)
            @ ExtractSkeleton # map (\<lambda>c. Reconstruct (c_chunkIndex c)) (selectChunks j st0) @ [Stitch]"
proof -
  let ?crash = "workerStoppedAfter E j n st0"
  let ?S = "c_id ` {x \<in> set (chunksT st0). c_documentId x = j}"
  obtain job t skel cs a6 where sa: "startWorker E j st0 = Inr ((job, t, skel, cs), a6)"
  proof (cases "startWorker E j st0")
    case (Inl p)
    then have "fst p \<noteq> Completed" using startWorker_Inl_outcome [of E j st0 "fst p" "snd p"] by simp
    then show ?thesis using full Inl by (simp add: processJobBody_def)
  next
    case (Inr q)
    then show ?thesis using that by (cases q) auto
  qed
  note A = startWorker_Inr [OF sa]
  let ?l = "chunkLoop E j job skel (length cs) t 0 0 (take n cs) a6"
  have crash: "?crash = (snd ?l)\<lparr>activeJobs := Map.empty\<rparr>"
    using sa by (simp add: workerStoppedAfter_def)
  have ctab: "chunksT ?crash = chunksT (snd ?l)" by (simp add: crash)
  have cdoc: "map jobStatic (documents ?crash) = map jobStatic (documents st0)"
    by (simp add: crash chunkLoop_documents A(12))
  have cact: "activeJobs ?crash j = None" by (simp add: crash)
  have "tableRel (- c_id ` set (take n cs)) (chunksT a6) (chunksT (snd ?l))" by (rule chunkLoop_frame)
  moreover have "- ?S \<subseteq> - c_id ` set (take n cs)"
    using set_take_subset [of n cs] by (auto simp: A(7) selectChunks_table)
  ultimately have rel: "tableRel (- ?S) (chunksT st0) (chunksT ?crash)"
    unfolding ctab A(8) [symmetric] by (rule tableRel_mono)
  have "map_option jobStatic (selectDocument j st0) = map_option jobStatic (selectDocument j ?crash)"
    unfolding selectDocument_def using cdoc find_jobStatic by metis
  with A(2) obtain job' where jb: "selectDocument j ?crash = Some job'" and st: "jobStatic job = jobStatic job'"
    by (cases "selectDocument j ?crash") auto
  have nc: "j_status job' \<noteq> J_complete" using ns jb by simp
  let ?b = "sendToClient (JobResumed j (j_status job') (j_currentChunk job') (j_numChunks job'))
              (registerJob j ?crash)"
  have res: "resumeJob E j ?crash = processJobAsync E j ?b"
    using A(1) jb nc cact by (simp add: resumeJob_def)
  have relb: "tableRel (- ?S) (chunksT st0) (chunksT ?b)" using rel by (simp add: peel)
  have flb: "flagOf j st0 = flagOf j ?b" using reg na by (simp add: peel flagOf_def)
  have jbs: "map_option jobStatic (selectDocument j st0) = map_option jobStatic (selectDocument j ?b)"
  proof -
    have "selectDocument j ?b = selectDocument j ?crash" by (rule selectDocument_docs) (simp add: peel)
    then show ?thesis using A(2) jb st by simp
  qed
  note sim = processJobBody_sim [OF full relb flb jbs]
  have pb: "processJobAsync E j ?b = snd (processJobBody E j ?b)"
    using sim by (intro processJobAsync_Completed) simp
  have pa: "processJobAsync E j st0 = snd (processJobBody E j st0)"
    using full by (rule processJobAsync_Completed)
  have "llmLog ?b = llmLog ?crash" by (simp add: peel)
  then show ?thesis
    using jb sim res by (intro exI [of _ job']) (simp add: pb pa)
qed

lemma docsRel_refl: "docsRel ds ds"
  by (simp add: docsRel_def list_all2_same)

lemma docsRel_trans: "docsRel a b \<Longrightarrow> docsRel b c \<Longrightarrow> docsRel a c"
  by (auto simp: docsRel_def list_all2_conv_all_nth)

lemma docsRel_find:
  "docsRel ds ds' \<Longrightarrow> find (\<lambda>x. j_id x = j) ds' = Some d' \<Longrightarrow> j_status d' = J_complete \<Longrightarrow>
   \<exists>d. find (\<lambda>x. j_id x = j) ds = Some d \<and> j_status d = J_complete"
  unfolding docsRel_def
  by (induction ds ds' rule: list_all2_induct) (auto split: if_splits)

lemma docsRel_update:
  assumes "\<And>x. j_status (f x) = J_complete \<Longrightarrow> j_status x = J_complete" "\<And>x. j_id (f x) = j_id x"
  shows "docsRel (documents st) (documents (guarded E s (updateDocument j f) st))"
  using assms by (simp add: docsRel_def guarded_if peel list_all2_map2 list_all2_same)

lemma guarded_updateChunk_documents:
  "documents (guarded E s (updateChunk i f) st) = documents st"
  by (simp add: guarded_if peel)

lemma handleAbort_documents:
  "documents (snd (handleAbort E j st))
     = documents (guarded E (UpdateDocument j (SetStatus J_aborted))
                    (updateDocument j (\<lambda>x. x\<lparr>j_status := J_aborted\<rparr>)) st)"
  by (simp add: handleAbort_def Let_def peel)

lemma handleAbort_docsRel: "docsRel (documents st) (documents (snd (handleAbort E j st)))"
  unfolding handleAbort_documents by (rule docsRel_update) simp_all

lemma afterWrite_documents:
  "documents (afterWrite E j job len pos c out aw r t st)
     = documents (guarded E (UpdateDocument j (SetCurrentChunk (c_chunkIndex c + 1)))
                    (updateDocument j (\<lambda>x. x\<lparr>j_currentChunk := c_chunkIndex c + 1\<rparr>)) st)"
  by (simp add: afterWrite_def Let_def peel split: option.split)

lemma afterWrite_docsRel:
  "documents st' = documents st \<Longrightarrow>
   docsRel (documents st) (documents (afterWrite E j job len pos c out aw r t st'))"
  using docsRel_update [of "\<lambda>x. x\<lparr>j_currentChunk := c_chunkIndex c + 1\<rparr>" st']
  by (simp add: afterWrite_documents)

lemma processChunk_docsRel:
  "docsRel (documents st) (documents (snd (processChunk E j job skel len pos t c r st)))"
  apply (simp add: processChunk_def Let_def split_beta split: sum.split option.split)
  apply (intro conjI impI allI afterWrite_docsRel)
       apply (simp_all add: peel guarded_updateChunk_documents docsRel_refl)
  done

lemma chunkLoop_docsRel:
  "docsRel (documents st) (documents (snd (chunkLoop E j job skel len t pos r cs st)))"
proof (induction cs arbitrary: st pos r)
  case Nil
  then show ?case by (simp add: docsRel_refl)
next
  case (Cons c cs)
  let ?p = "processChunk E j job skel len pos t c r st"
  show ?case
  proof (cases "flagOf j st = Some True")
    case True
    then show ?thesis by (simp add: chunkLoop_Cons handleAbort_docsRel)
  next
    case False
    show ?thesis
    proof (cases "fst ?p")
      case (Inl e)
      then show ?thesis using False processChunk_docsRel [of st E j job skel len pos t c r]
        by (simp add: chunkLoop_Cons)
    next
      case (Inr r')
      have "docsRel (documents st) (documents (snd (chunkLoop E j job skel len t (Suc pos) r' cs (snd ?p))))"
        using processChunk_docsRel Cons.IH by (rule docsRel_trans)
      then show ?thesis using False Inr by (simp add: chunkLoop_Cons)
    qed
  qed
qed

lemma startWorker_docsRel:
  "startWorker E j st = Inr (x, st') \<Longrightarrow> docsRel (documents st) (documents st')"
  by (auto simp: docsRel_def startWorker_def Let_def guarded_if peel list_all2_map2 list_all2_same
      split: if_splits option.splits sum.splits)

lemma startWorker_Inl_docsRel:
  "startWorker E j st = Inl (x, st') \<Longrightarrow> docsRel (documents st) (documents st')"
  by (auto simp: docsRel_def startWorker_def abortNow_def handleAbort_def Let_def guarded_if peel
      list_all2_map2 list_all2_same split_beta
      split: if_splits option.splits sum.splits)

lemma workerStoppedAfter_docsRel:
  "docsRel (documents st) (documents (workerStoppedAfter E j n st))"
proof (cases "startWorker E j st")
  case (Inl p)
  then show ?thesis
    using startWorker_Inl_docsRel [of E j st "fst p" "snd p"]
    by (simp add: workerStoppedAfter_def split_beta)
next
  case (Inr q)
  obtain job t skel cs a6 where q: "q = ((job, t, skel, cs), a6)" by (cases q) auto
  show ?thesis
    using docsRel_trans [OF startWorker_docsRel [OF Inr [unfolded q]] chunkLoop_docsRel]
    by (simp add: workerStoppedAfter_def Inr q)
qed

lemma workerStoppedAfter_incomplete:
  assumes "map_option j_status (selectDocument j st) \<noteq> Some J_complete"
  shows "map_option j_status (selectDocument j (workerStoppedAfter E j n st)) \<noteq> Some J_complete"
  using assms docsRel_find [OF workerStoppedAfter_docsRel, of j E j n st]
  by (auto simp: selectDocument_def)

text \<open>Runs in which no statement is refused, no call of the model fails and no abort
  arrives.\<close>

lemma arrive_quiet: "\<not> abortArrives E y \<Longrightarrow> arrive E y f = f"
  by (simp add: arrive_def)

lemma chunkStep_quiet:
  assumes "\<forall>s. \<not> dbFails E s"
    and "\<forall>t i n sk cfg ctx. \<not> isl (reconstructChunkConstrained E t i n sk cfg ctx)"
  shows "\<not> isl (fst (chunkStep E j job skel c T))"
proof -
  obtain ds where ds: "priorDeltasOf E j (c_chunkIndex c) (markedTable E c T) = Inr ds"
    using assms(1) by (cases "c_chunkIndex c = 0") (simp_all add: priorDeltasOf_def)
  have "\<not> isl (reconstructChunkConstrained E (c_chunkInputText c) (c_chunkIndex c) (j_numChunks job)
                    skel (lengthConfigOfJob job) (buildPriorDeltasSummary ds))"
    using assms(2) by blast
  then obtain out d where "reconstructChunkConstrained E (c_chunkInputText c) (c_chunkIndex c) (j_numChunks job)
                    skel (lengthConfigOfJob job) (buildPriorDeltasSummary ds) = Inr (out, d)"
    by (cases "reconstructChunkConstrained E (c_chunkInputText c) (c_chunkIndex c) (j_numChunks job)
                    skel (lengthConfigOfJob job) (buildPriorDeltasSummary ds)") auto
  then show ?thesis using ds assms(1) by (simp add: chunkStep_def Let_def)
qed

lemma chunkLoop_quiet:
  assumes db: "\<forall>s. \<not> dbFails E s"
    and rc: "\<forall>t i n sk cfg ctx. \<not> isl (reconstructChunkConstrained E t i n sk cfg ctx)"
    and ab: "\<forall>y. \<not> abortArrives E y"
  shows "flagOf j st \<noteq> Some True \<Longrightarrow> \<exists>n. fst (chunkLoop E j job skel len t pos r cs st) = LoopDone n"
proof (induction cs arbitrary: st pos r)
  case Nil
  then show ?case by simp
next
  case (Cons c cs)
  let ?p = "processChunk E j job skel len pos t c r st"
  have ni: "\<not> isl (fst (chunkStep E j job skel c (chunksT st)))" using db rc by (rule chunkStep_quiet)
  then obtain r' where r': "fst ?p = Inr r'"
    by (cases "fst (chunkStep E j job skel c (chunksT st))") (auto simp: processChunk_result)
  have "flagOf j (snd ?p) \<noteq> Some True"
    using Cons.prems ab by (simp add: processChunk_flag arrive_quiet)
  from Cons.IH [OF this] show ?case using Cons.prems r' by (simp add: chunkLoop_Cons)
qed

lemma processJobBody_quiet:
  assumes db: "\<forall>s. \<not> dbFails E s"
    and ex: "\<forall>t a r. \<not> isl (extractGlobalSkeleton E t a r)"
    and rc: "\<forall>t i n sk cfg ctx. \<not> isl (reconstructChunkConstrained E t i n sk cfg ctx)"
    and sv: "\<forall>sk cs. \<not> isl (stitchAndValidate E sk cs)"
    and ab: "\<forall>y. \<not> abortArrives E y"
    and reg: "activeJobs st j = Some js" "\<not> aborted js"
    and doc: "selectDocument j st = Some job"
  shows "fst (processJobBody E j st) = Completed"
proof -
  obtain skel where sk: "extractGlobalSkeleton E (j_originalText job) (orUndefined (j_audienceParameters job))
        (orUndefined (j_rigorLevel job)) = Inr skel"
    using ex by (metis isl_def sum.exhaust_sel sum.collapse(2))
  have fl: "flagOf j st = Some False" using reg by (simp add: flagOf_def)
  obtain a6 where sa: "startWorker E j st = Inr ((job, startTime js, skel, selectChunks j st), a6)"
    using startWorker_InrI [of E j st job js skel] db doc reg(1) sk fl ab by (auto simp: arrive_quiet)
  note A = startWorker_Inr [OF sa]
  have "flagOf j a6 \<noteq> Some True" using A(9) ab fl by (simp add: arrive_quiet)
  from chunkLoop_quiet [OF db rc ab this]
  obtain n where n: "fst (chunkLoop E j job skel (length (selectChunks j st)) (startTime js) 0 0 (selectChunks j st) a6) = LoopDone n"
    by blast
  have "(case stitchAndValidate E skel x of Inl e \<Rightarrow> Failed e | Inr r \<Rightarrow> Completed) = Completed" for x
    using sv [rule_format, of skel x] by (cases "stitchAndValidate E skel x") simp_all
  then show ?thesis
    using n db sa
    by (simp add: processJobBody_def split_beta stitchPhase_fst)
qed

lemma guarded_documents:
  "documents (guarded E s (updateDocument j f) st)
     = (if dbFails E s then documents st
        else map (\<lambda>x. if j_id x = j then (f x)\<lparr>j_updatedAt := now st\<rparr> else x) (documents st))"
  by (simp add: guarded_if peel)

lemma guarded_now: "now (guarded E s (updateDocument j f) st) = now st"
  by (simp add: guarded_if peel)

lemma processChunk_documents_exact:
  "documents (snd (processChunk E j job skel len pos t c r st))
     = (if isl (fst (chunkStep E j job skel c (chunksT st))) then documents st
        else documents (guarded E (UpdateDocument j (SetCurrentChunk (c_chunkIndex c + 1)))
                         (updateDocument j (\<lambda>x. x\<lparr>j_currentChunk := c_chunkIndex c + 1\<rparr>)) st))"
  by (simp add: processChunk_def chunkStep_def markedTable_def Let_def split_beta peel afterWrite_documents
      guarded_documents guarded_updateChunk_documents guarded_if
      split: sum.split option.split)

lemma startWorker_documents:
  assumes "startWorker E j st = Inr ((job, t, skel, cs), st')"
  shows "documents st'
     = documents (guarded E (UpdateDocument j SetSkeleton)
                    (updateDocument j (\<lambda>d. d\<lparr>j_globalSkeleton := Some skel, j_status := J_chunk_processing\<rparr>))
                    (guarded E (UpdateDocument j (SetStatus J_skeleton_extraction))
                       (updateDocument j (\<lambda>d. d\<lparr>j_status := J_skeleton_extraction\<rparr>)) st))"
  using assms
  by (auto simp: startWorker_def Let_def peel guarded_documents guarded_now
      split: if_splits option.splits sum.splits)

lemma stubEnv_quiet:
  "\<forall>s. \<not> dbFails stubEnv s" "\<forall>t a r. \<not> isl (extractGlobalSkeleton stubEnv t a r)"
  "\<forall>t i n sk cfg ctx. \<not> isl (reconstructChunkConstrained stubEnv t i n sk cfg ctx)"
  "\<forall>sk cs. \<not> isl (stitchAndValidate stubEnv sk cs)" "\<forall>y. \<not> abortArrives stubEnv y"
  by (simp_all add: stubEnv_def)

lemma stubEnv_fields:
  "dbFails stubEnv = (\<lambda>s. False)" "abortArrives stubEnv = (\<lambda>y. False)"
  "extractGlobalSkeleton stubEnv = (\<lambda>t a r. Inr (Skeleton []))"
  "reconstructChunkConstrained stubEnv = (\<lambda>t i n sk cfg ctx. Inr (t, stubDelta t))"
  "persistDelta stubEnv = (\<lambda>i d. Some d)"
  by (simp_all add: stubEnv_def)

lemma startWorker_now:
  "startWorker E j st = Inr (x, st') \<Longrightarrow> now st' = now st"
  by (auto simp: startWorker_def Let_def peel guarded_now
      split: if_splits option.splits sum.splits)

lemma sampleChunk_fields:
  "c_id sampleChunk0 = 1" "c_documentId sampleChunk0 = 1" "c_chunkIndex sampleChunk0 = 0"
  "c_id sampleChunk1 = 2" "c_documentId sampleChunk1 = 1" "c_chunkIndex sampleChunk1 = 1"
  "c_status sampleChunk0 = C_pending" "c_status sampleChunk1 = C_pending"
  "c_chunkInputText sampleChunk0 = lit ''a b''" "c_chunkInputText sampleChunk1 = lit ''c''"
  "c_chunkDelta sampleChunk0 = None" "c_chunkDelta sampleChunk1 = None"
  by (simp_all add: sampleChunk0_def sampleChunk1_def newChunkRow_def)

lemma sampleState_fields:
  "documents sampleState = [sampleJob]" "chunksT sampleState = [sampleChunk0, sampleChunk1]"
  "activeJobs sampleState 1 = Some \<lparr>aborted = False, startTime = 0\<rparr>"
  "llmLog sampleState = []" "statusLog sampleState = []" "now sampleState = 0"
  "flagOf 1 sampleState = Some False"
  by (simp_all add: sampleState_def flagOf_def)

lemma sampleJob_fields:
  "j_id sampleJob = 1" "j_status sampleJob = J_pending" "j_numChunks sampleJob = 2"
  "j_originalText sampleJob = lit ''a b c''" "j_audienceParameters sampleJob = None"
  "j_rigorLevel sampleJob = None" "j_updatedAt sampleJob = 0"
  by (simp_all add: sampleJob_def newJobRow_def)

lemma sample_select:
  "selectDocument 1 sampleState = Some sampleJob"
  "selectChunks 1 sampleState = [sampleChunk0, sampleChunk1]"
  by (simp_all add: selectDocument_def selectChunks_def sampleState_fields sampleJob_fields
      sampleChunk_fields)

lemma sample_completes: "fst (processJobBody stubEnv 1 sampleState) = Completed"
  using stubEnv_quiet sampleState_fields(3) _ sample_select(1)
  by (rule processJobBody_quiet) simp

lemma sample_start:
  "\<exists>a6. startWorker stubEnv 1 sampleState
          = Inr ((sampleJob, 0, Skeleton [], [sampleChunk0, sampleChunk1]), a6)"
  using startWorker_InrI [of stubEnv 1 sampleState sampleJob "\<lparr>aborted = False, startTime = 0\<rparr>" "Skeleton []"]
    stubEnv_quiet
  by (simp add: sample_select sampleState_fields arrive_quiet stubEnv_fields del: One_nat_def)

lemma sample_step0:
  "chunkStep stubEnv 1 sampleJob (Skeleton []) sampleChunk0 [sampleChunk0, sampleChunk1]
     = (Inr (lit ''a b''),
        [writeRow stubEnv sampleChunk0 (lit ''a b'') (stubDelta (lit ''a b'')) (sampleChunk0\<lparr>c_status := C_processing\<rparr>),
         sampleChunk1])"
  by (simp add: chunkStep_def markedTable_def priorDeltasOf_def stubEnv_fields sampleChunk_fields Let_def)

lemma sample_crash:
  "\<exists>a6 job t skel cs. startWorker stubEnv 1 sampleState = Inr ((job, t, skel, cs), a6) \<and>
     workerStoppedAfter stubEnv 1 1 sampleState
       = (snd (processChunk stubEnv 1 sampleJob (Skeleton []) 2 0 0 sampleChunk0 0 a6))\<lparr>activeJobs := Map.empty\<rparr>
     \<and> chunksT a6 = [sampleChunk0, sampleChunk1] \<and> llmLog a6 = [ExtractSkeleton]
     \<and> documents a6 = [sampleJob\<lparr>j_status := J_chunk_processing, j_globalSkeleton := Some (Skeleton [])\<rparr>]
     \<and> now a6 = 0"
proof -
  obtain a6 where sa: "startWorker stubEnv 1 sampleState
          = Inr ((sampleJob, 0, Skeleton [], [sampleChunk0, sampleChunk1]), a6)"
    using sample_start by blast
  note A = startWorker_Inr [OF sa]
  have fl: "flagOf 1 a6 \<noteq> Some True"
    using A(9) stubEnv_quiet(5) by (simp add: arrive_quiet sampleState_fields del: One_nat_def)
  have "\<not> isl (fst (chunkStep stubEnv 1 sampleJob (Skeleton []) sampleChunk0 (chunksT a6)))"
    using stubEnv_quiet(1,3) by (rule chunkStep_quiet)
  then obtain r' where "\<And>len. fst (processChunk stubEnv 1 sampleJob (Skeleton []) len 0 0 sampleChunk0 0 a6) = Inr r'"
    by (cases "fst (chunkStep stubEnv 1 sampleJob (Skeleton []) sampleChunk0 (chunksT a6))")
       (auto simp: processChunk_result)
  then have "workerStoppedAfter stubEnv 1 1 sampleState
       = (snd (processChunk stubEnv 1 sampleJob (Skeleton []) 2 0 0 sampleChunk0 0 a6))\<lparr>activeJobs := Map.empty\<rparr>"
    using fl sa by (simp add: workerStoppedAfter_def chunkLoop_Cons numeral_2_eq_2)
  moreover have "documents a6 = [sampleJob\<lparr>j_status := J_chunk_processing, j_globalSkeleton := Some (Skeleton [])\<rparr>]"
    using stubEnv_quiet(1)
    by (simp add: startWorker_documents [OF sa] guarded_documents guarded_now sampleState_fields
        sampleJob_fields)
  moreover have "now a6 = 0" using startWorker_now [OF sa] by (simp add: sampleState_fields)
  ultimately show ?thesis using sa A(8,10) by (simp add: sampleState_fields)
qed

lemma sample_incomplete: "map_option j_status (selectDocument 1 sampleState) \<noteq> Some J_complete"
  by (simp add: sample_select sampleJob_fields del: One_nat_def)

text \<open>
  C1, as stated, does not hold. The worker of the sample job (two chunks) is stopped after
  chunk 0: the job row then holds the skeleton and \<open>currentChunk = 1\<close>, chunk 0 is
  \<open>complete\<close>. \<open>resumeJob\<close> nevertheless calls the skeleton extractor again and generates
  chunk 0 again before chunk 1.
\<close>

theorem C1_resume_regenerates_counterexample:
  "map_option (\<lambda>d. (j_status d, j_globalSkeleton d, j_currentChunk d))
       (selectDocument 1 (workerStoppedAfter stubEnv 1 1 sampleState))
     = Some (J_chunk_processing, Some (Skeleton []), 1)
   \<and> map c_status (chunksT (workerStoppedAfter stubEnv 1 1 sampleState)) = [C_complete, C_pending]
   \<and> llmLog (workerStoppedAfter stubEnv 1 1 sampleState) = [ExtractSkeleton, Reconstruct 0]
   \<and> llmLog (resumeJob stubEnv 1 (workerStoppedAfter stubEnv 1 1 sampleState))
     = [ExtractSkeleton, Reconstruct 0, ExtractSkeleton, Reconstruct 0, Reconstruct 1, Stitch]"
proof -
  let ?crash = "workerStoppedAfter stubEnv 1 1 sampleState"
  obtain a6 job t skel cs where sa: "startWorker stubEnv 1 sampleState = Inr ((job, t, skel, cs), a6)"
    and crash: "?crash = (snd (processChunk stubEnv 1 sampleJob (Skeleton []) 2 0 0 sampleChunk0 0 a6))\<lparr>activeJobs := Map.empty\<rparr>"
    and tab: "chunksT a6 = [sampleChunk0, sampleChunk1]" and log: "llmLog a6 = [ExtractSkeleton]"
    and docs: "documents a6 = [sampleJob\<lparr>j_status := J_chunk_processing, j_globalSkeleton := Some (Skeleton [])\<rparr>]"
    and clock: "now a6 = 0"
    using sample_crash by blast
  have d: "documents ?crash
      = [sampleJob\<lparr>j_status := J_chunk_processing, j_globalSkeleton := Some (Skeleton []),
                    j_currentChunk := 1, j_updatedAt := 0\<rparr>]"
    by (simp add: crash processChunk_documents_exact tab sample_step0 guarded_documents docs clock
        stubEnv_fields sampleJob_fields sampleChunk_fields del: One_nat_def)
  have c1: "map_option (\<lambda>d. (j_status d, j_globalSkeleton d, j_currentChunk d)) (selectDocument 1 ?crash)
     = Some (J_chunk_processing, Some (Skeleton []), 1)"
    by (simp add: selectDocument_def d sampleJob_fields del: One_nat_def)
  have c2: "map c_status (chunksT ?crash) = [C_complete, C_pending]"
    by (simp add: crash processChunk_table tab sample_step0 writeRow_def sampleChunk_fields del: One_nat_def)
  have c3: "llmLog ?crash = [ExtractSkeleton, Reconstruct 0]"
    by (simp add: crash processChunk_llmLog log priorDeltasOf_def sampleChunk_fields del: One_nat_def)
  have ns: "map_option j_status (selectDocument 1 ?crash) \<noteq> Some J_complete"
    using sample_incomplete by (rule workerStoppedAfter_incomplete)
  have "llmLog (resumeJob stubEnv 1 ?crash)
          = llmLog ?crash @ ExtractSkeleton # map (\<lambda>c. Reconstruct (c_chunkIndex c)) (selectChunks 1 sampleState) @ [Stitch]"
    using resume_reruns [OF sampleState_fields(3) _ sample_completes ns] by auto
  then have c4: "llmLog (resumeJob stubEnv 1 ?crash)
     = [ExtractSkeleton, Reconstruct 0, ExtractSkeleton, Reconstruct 0, Reconstruct 1, Stitch]"
    by (simp add: c3 sample_select sampleChunk_fields del: One_nat_def)
  show ?thesis using c1 c2 c3 c4 by blast
qed

text \<open>
  C1, amended: when the worker of a registered job is stopped after any number \<open>n\<close> of
  iterations of the chunk loop, and the job row is not \<open>complete\<close>, \<open>resumeJob\<close> registers
  the job again, sends \<open>job_resumed\<close> and runs the whole of \<open>processJobAsync\<close> from the
  start: the skeleton extractor is called again and every chunk of the job is generated
  again in index order, then the stitcher is called. If the uninterrupted run completes,
  the resumed run completes too and leaves the same chunk table as the uninterrupted run.
\<close>

theorem C1_resume_reruns_the_whole_job:
  assumes "activeJobs st0 j = Some js0" and "\<not> aborted js0"
    and "fst (processJobBody E j st0) = Completed"
    and "map_option j_status (selectDocument j st0) \<noteq> Some J_complete"
  shows "\<exists>job'. selectDocument j (workerStoppedAfter E j n st0) = Some job'
      \<and> resumeJob E j (workerStoppedAfter E j n st0)
          = processJobAsync E j
              (sendToClient (JobResumed j (j_status job') (j_currentChunk job') (j_numChunks job'))
                 (registerJob j (workerStoppedAfter E j n st0)))
      \<and> fst (processJobBody E j
              (sendToClient (JobResumed j (j_status job') (j_currentChunk job') (j_numChunks job'))
                 (registerJob j (workerStoppedAfter E j n st0)))) = Completed
      \<and> chunksT (resumeJob E j (workerStoppedAfter E j n st0)) = chunksT (processJobAsync E j st0)
      \<and> llmLog (resumeJob E j (workerStoppedAfter E j n st0))
          = llmLog (workerStoppedAfter E j n st0)
            @ ExtractSkeleton # map (\<lambda>c. Reconstruct (c_chunkIndex c)) (selectChunks j st0) @ [Stitch]"
  using assms(1-3) workerStoppedAfter_incomplete [OF assms(4)] by (rule resume_reruns)

theorem C1_resume_witness:
  "activeJobs sampleState 1 = Some \<lparr>aborted = False, startTime = 0\<rparr>
   \<and> fst (processJobBody stubEnv 1 sampleState) = Completed
   \<and> chunksT (resumeJob stubEnv 1 (workerStoppedAfter stubEnv 1 1 sampleState))
       = chunksT (processJobAsync stubEnv 1 sampleState)
   \<and> llmLog (resumeJob stubEnv 1 (workerStoppedAfter stubEnv 1 1 sampleState))
       = llmLog (workerStoppedAfter stubEnv 1 1 sampleState)
         @ [ExtractSkeleton, Reconstruct 0, Reconstruct 1, Stitch]"
  using C1_resume_reruns_the_whole_job [OF sampleState_fields(3) _ sample_completes sample_incomplete, of 1]
    sampleState_fields(3) sample_completes
  by (auto simp: sample_select sampleChunk_fields simp del: One_nat_def)

subsection \<open>The status of a chunk (C8)\<close>

lemma writeChunk_statusLog:
  "statusLog (snd (writeChunk E c out aw d st))
     = statusLog st @ (if dbFails E (UpdateChunkComplete (c_id c)) then []
                       else map (\<lambda>x. (c_id x, c_status x, C_complete))
                              (filter (\<lambda>x. c_id x = c_id c) (chunksT st)))"
  by (simp add: writeChunk_def Let_def peel split: option.split)

lemma processChunk_statusLog:
  "statusLog (snd (processChunk E j job skel len pos t c r st))
     = statusLog st @ stepLog E j job skel c (chunksT st)"
  by (simp add: processChunk_def stepLog_def markedTable_def Let_def split_beta guarded_if peel
      writeChunk_statusLog split: sum.split option.split)

lemma stepLog_forward:
  assumes "\<forall>x\<in>set T. c_id x = c_id c \<longrightarrow> c_status x = C_pending"
  shows "\<forall>e\<in>set (stepLog E j job skel c T).
           (fst (snd e), snd (snd e))
             \<in> {(C_pending, C_processing), (C_processing, C_complete), (C_pending, C_complete)}"
  using assms
  by (auto simp: stepLog_def markedTable_def split: sum.splits prod.splits if_splits)

lemma chunkStep_others:
  "x \<in> set (snd (chunkStep E j job skel c T)) \<Longrightarrow> c_id x \<noteq> c_id c \<Longrightarrow> x \<in> set T"
  by (auto simp: chunkStep_def markedTable_def Let_def writeRow_def split: sum.splits prod.splits if_splits)

lemma handleAbort_statusLog: "statusLog (snd (handleAbort E j st)) = statusLog st"
  by (simp add: peel)

lemma chunkLoop_statusLog:
  assumes "distinct (map c_id cs)"
    and "\<forall>x\<in>set (chunksT st). c_id x \<in> c_id ` set cs \<longrightarrow> c_status x = C_pending"
  shows "\<exists>new. statusLog (snd (chunkLoop E j job skel len t pos r cs st)) = statusLog st @ new
           \<and> (\<forall>e\<in>set new. (fst (snd e), snd (snd e))
                 \<in> {(C_pending, C_processing), (C_processing, C_complete), (C_pending, C_complete)})"
  using assms
proof (induction cs arbitrary: st pos r)
  case Nil
  then show ?case by simp
next
  case (Cons c cs)
  let ?p = "processChunk E j job skel len pos t c r st"
  let ?ok = "\<lambda>e :: nat \<times> chunk_status \<times> chunk_status. (fst (snd e), snd (snd e))
                 \<in> {(C_pending, C_processing), (C_processing, C_complete), (C_pending, C_complete)}"
  have hd: "\<forall>x\<in>set (chunksT st). c_id x = c_id c \<longrightarrow> c_status x = C_pending"
    using Cons.prems(2) by simp
  have step: "\<forall>e\<in>set (stepLog E j job skel c (chunksT st)). ?ok e"
    using hd by (rule stepLog_forward)
  show ?case
  proof (cases "flagOf j st = Some True")
    case True
    then show ?thesis by (simp add: chunkLoop_Cons peel)
  next
    case False
    show ?thesis
    proof (cases "fst ?p")
      case (Inl e)
      then show ?thesis using False step
        by (simp add: chunkLoop_Cons processChunk_statusLog)
    next
      case (Inr r')
      have d: "distinct (map c_id cs)" and nin: "c_id c \<notin> c_id ` set cs"
        using Cons.prems(1) by auto
      have inv: "\<forall>x\<in>set (chunksT (snd ?p)). c_id x \<in> c_id ` set cs \<longrightarrow> c_status x = C_pending"
      proof (intro ballI impI)
        fix x assume x: "x \<in> set (chunksT (snd ?p))" and i: "c_id x \<in> c_id ` set cs"
        have "c_id x \<noteq> c_id c" using i nin by auto
        then have "x \<in> set (chunksT st)" using x chunkStep_others by (simp add: processChunk_table)
        then show "c_status x = C_pending" using Cons.prems(2) i by simp
      qed
      from Cons.IH [OF d inv, of "Suc pos" r']
      obtain new where new: "statusLog (snd (chunkLoop E j job skel len t (Suc pos) r' cs (snd ?p)))
            = statusLog (snd ?p) @ new" "\<forall>e\<in>set new. ?ok e"
        by blast
      have "statusLog (snd (chunkLoop E j job skel len t pos r (c # cs) st))
          = statusLog st @ (stepLog E j job skel c (chunksT st) @ new)"
        using False Inr new(1) by (simp add: chunkLoop_Cons processChunk_statusLog)
      moreover have "\<forall>e\<in>set (stepLog E j job skel c (chunksT st) @ new). ?ok e"
        using step new(2) by auto
      ultimately show ?thesis by blast
    qed
  qed
qed

lemma failJob_statusLog: "statusLog (failJob E j e st) = statusLog st"
  by (simp add: failJob_def guarded_if peel)

lemma distinct_selectChunks:
  "distinct (map c_id (chunksT st)) \<Longrightarrow> distinct (map c_id (selectChunks j st))"
proof -
  assume d: "distinct (map c_id (chunksT st))"
  have "mset (map c_id (selectChunks j st)) = mset (map c_id (filter (\<lambda>c. c_documentId c = j) (chunksT st)))"
    by (simp add: selectChunks_table)
  moreover have "distinct (map c_id (filter (\<lambda>c. c_documentId c = j) (chunksT st)))"
    using d by (rule distinct_map_filter)
  ultimately show ?thesis by (metis distinct_count_atmost_1 set_mset_mset mset_eq_setD)
qed

lemma processJobBody_statusLog:
  assumes d: "distinct (map c_id (chunksT st))"
    and p: "\<forall>c\<in>set (chunksT st). c_documentId c = j \<longrightarrow> c_status c = C_pending"
  shows "\<exists>new. statusLog (snd (processJobBody E j st)) = statusLog st @ new
           \<and> (\<forall>e\<in>set new. (fst (snd e), snd (snd e))
                 \<in> {(C_pending, C_processing), (C_processing, C_complete), (C_pending, C_complete)})"
proof (cases "startWorker E j st")
  case (Inl q)
  then show ?thesis using startWorker_Inl(3) [of E j st "fst q" "snd q"]
    by (simp add: processJobBody_def)
next
  case (Inr q)
  obtain job t skel cs a6 where q: "q = ((job, t, skel, cs), a6)" by (cases q) auto
  note sa = Inr [unfolded q]
  note A = startWorker_Inr [OF sa]
  have dc: "distinct (map c_id cs)" unfolding A(7) using d by (rule distinct_selectChunks)
  have inj: "inj_on c_id (set (chunksT st))" using d by (simp add: distinct_map)
  have inv: "\<forall>x\<in>set (chunksT a6). c_id x \<in> c_id ` set cs \<longrightarrow> c_status x = C_pending"
  proof (intro ballI impI)
    fix x assume x: "x \<in> set (chunksT a6)" and i: "c_id x \<in> c_id ` set cs"
    then obtain y where y: "y \<in> set cs" "c_id x = c_id y" by auto
    have yt: "y \<in> set (chunksT st)" "c_documentId y = j" using y(1) by (auto simp: A(7) selectChunks_table)
    have "x = y" using inj x yt(1) y(2) by (auto simp: A(8) dest: inj_onD)
    then show "c_status x = C_pending" using p yt by simp
  qed
  from chunkLoop_statusLog [OF dc inv, of E j job skel "length cs" t 0 0]
  obtain new where new: "statusLog (snd (chunkLoop E j job skel (length cs) t 0 0 cs a6)) = statusLog a6 @ new"
    "\<forall>e\<in>set new. (fst (snd e), snd (snd e))
                 \<in> {(C_pending, C_processing), (C_processing, C_complete), (C_pending, C_complete)}"
    by blast
  have "statusLog (snd (processJobBody E j st)) = statusLog st @ new"
    using new(1) by (simp add: processJobBody_def sa split_beta A(11) stitchPhase_proj split: loop_end.split)
  then show ?thesis using new(2) by blast
qed

lemma processJobAsync_statusLog:
  "statusLog (processJobAsync E j st) = statusLog (snd (processJobBody E j st))"
  by (simp add: processJobAsync_def split_beta failJob_statusLog split: outcome.split)

lemma chunkLoop_statusLog_grows:
  "\<exists>new. statusLog (snd (chunkLoop E j job skel len t pos r cs st)) = statusLog st @ new"
proof (induction cs arbitrary: st pos r)
  case Nil
  then show ?case by simp
next
  case (Cons c cs)
  let ?p = "processChunk E j job skel len pos t c r st"
  show ?case
  proof (cases "flagOf j st = Some True")
    case True
    then show ?thesis by (simp add: chunkLoop_Cons peel)
  next
    case False
    show ?thesis
    proof (cases "fst ?p")
      case (Inl e)
      then show ?thesis using False by (simp add: chunkLoop_Cons processChunk_statusLog)
    next
      case (Inr r')
      from Cons.IH [of "Suc pos" r' "snd ?p"] obtain new
        where "statusLog (snd (chunkLoop E j job skel len t (Suc pos) r' cs (snd ?p))) = statusLog (snd ?p) @ new"
        by blast
      then show ?thesis using False Inr by (simp add: chunkLoop_Cons processChunk_statusLog)
    qed
  qed
qed

lemma chunkLoop_head_marked:
  assumes fin: "fst (chunkLoop E j job skel len t pos r (c # cs) st) = LoopDone n"
    and db: "\<not> dbFails E (UpdateChunkProcessing (c_id c))"
    and x: "x \<in> set (chunksT st)" "c_id x = c_id c"
  shows "(c_id x, c_status x, C_processing) \<in> set (statusLog (snd (chunkLoop E j job skel len t pos r (c # cs) st)))"
proof -
  let ?p = "processChunk E j job skel len pos t c r st"
  from fin have nf: "flagOf j st \<noteq> Some True"
    by (auto simp: chunkLoop_Cons split: if_splits option.splits)
  from fin nf obtain r' where r': "fst ?p = Inr r'"
    by (cases "fst ?p") (auto simp: chunkLoop_Cons)
  have "(c_id x, c_status x, C_processing) \<in> set (stepLog E j job skel c (chunksT st))"
    using db x by (auto simp: stepLog_def)
  then have "(c_id x, c_status x, C_processing) \<in> set (statusLog (snd ?p))"
    by (simp add: processChunk_statusLog)
  moreover obtain new where "statusLog (snd (chunkLoop E j job skel len t (Suc pos) r' cs (snd ?p)))
      = statusLog (snd ?p) @ new"
    using chunkLoop_statusLog_grows by blast
  ultimately show ?thesis using nf r' by (simp add: chunkLoop_Cons)
qed

lemma processJobBody_marks_first:
  assumes compl: "fst (processJobBody E j st) = Completed"
    and sel: "selectChunks j st = c # cs"
    and db: "\<not> dbFails E (UpdateChunkProcessing (c_id c))"
  shows "(c_id c, c_status c, C_processing) \<in> set (statusLog (snd (processJobBody E j st)))"
proof -
  obtain job t skel cs' a6 where sa: "startWorker E j st = Inr ((job, t, skel, cs'), a6)"
  proof (cases "startWorker E j st")
    case (Inl p)
    then have "fst p \<noteq> Completed" using startWorker_Inl_outcome [of E j st "fst p" "snd p"] by simp
    then show ?thesis using compl Inl by (simp add: processJobBody_def)
  next
    case (Inr q)
    then show ?thesis using that by (cases q) auto
  qed
  note A = startWorker_Inr [OF sa]
  have cs': "cs' = c # cs" using A(7) sel by simp
  let ?l = "chunkLoop E j job skel (length cs') t 0 0 (c # cs) a6"
  obtain n where n: "fst ?l = LoopDone n"
    using compl by (cases "fst ?l") (auto simp: processJobBody_def sa cs' split_beta)
  have "c \<in> set (selectChunks j st)" by (simp add: sel)
  then have "c \<in> set (chunksT a6)" by (simp add: A(8) selectChunks_table)
  from chunkLoop_head_marked [OF n db this refl]
  show ?thesis using n by (simp add: processJobBody_def sa cs' split_beta stitchPhase_proj)
qed

lemma sample_crash_table:
  "chunksT (workerStoppedAfter stubEnv 1 1 sampleState)
     = [writeRow stubEnv sampleChunk0 (lit ''a b'') (stubDelta (lit ''a b''))
          (sampleChunk0\<lparr>c_status := C_processing\<rparr>), sampleChunk1]"
proof -
  obtain a6 job t skel cs where
    "workerStoppedAfter stubEnv 1 1 sampleState
       = (snd (processChunk stubEnv 1 sampleJob (Skeleton []) 2 0 0 sampleChunk0 0 a6))\<lparr>activeJobs := Map.empty\<rparr>"
    "chunksT a6 = [sampleChunk0, sampleChunk1]"
    using sample_crash by blast
  then show ?thesis by (simp add: processChunk_table sample_step0 del: One_nat_def)
qed

text \<open>
  C8, as stated, does not hold. The worker of the sample job is stopped after chunk 0, which
  is then \<open>complete\<close>; \<open>resumeJob\<close> runs the loop over all the chunks again and writes the
  status of chunk 0 (row 1) from \<open>complete\<close> back to \<open>processing\<close>.
\<close>

theorem C8_resume_reopens_complete_chunk_counterexample:
  "map (\<lambda>c. (c_id c, c_status c)) (chunksT (workerStoppedAfter stubEnv 1 1 sampleState))
     = [(1, C_complete), (2, C_pending)]
   \<and> (1, C_complete, C_processing)
       \<in> set (statusLog (resumeJob stubEnv 1 (workerStoppedAfter stubEnv 1 1 sampleState)))"
proof -
  let ?crash = "workerStoppedAfter stubEnv 1 1 sampleState"
  let ?row = "writeRow stubEnv sampleChunk0 (lit ''a b'') (stubDelta (lit ''a b''))
          (sampleChunk0\<lparr>c_status := C_processing\<rparr>)"
  have ns: "map_option j_status (selectDocument 1 ?crash) \<noteq> Some J_complete"
    using sample_incomplete by (rule workerStoppedAfter_incomplete)
  from resume_reruns [OF sampleState_fields(3) _ sample_completes ns]
  obtain b where res: "resumeJob stubEnv 1 ?crash = processJobAsync stubEnv 1 b"
    and compl: "fst (processJobBody stubEnv 1 b) = Completed"
    and tb: "chunksT b = chunksT ?crash"
    by (auto simp: peel)
  have sel: "selectChunks 1 b = ?row # [sampleChunk1]"
    by (simp add: selectChunks_table tb sample_crash_table writeRow_def sampleChunk_fields del: One_nat_def)
  have "(c_id ?row, c_status ?row, C_processing) \<in> set (statusLog (snd (processJobBody stubEnv 1 b)))"
    using compl sel by (rule processJobBody_marks_first) (simp add: stubEnv_fields)
  then have "(1, C_complete, C_processing) \<in> set (statusLog (resumeJob stubEnv 1 ?crash))"
    by (simp add: res processJobAsync_statusLog writeRow_def sampleChunk_fields del: One_nat_def)
  moreover have "map (\<lambda>c. (c_id c, c_status c)) (chunksT ?crash) = [(1, C_complete), (2, C_pending)]"
    by (simp add: sample_crash_table writeRow_def sampleChunk_fields del: One_nat_def)
  ultimately show ?thesis by blast
qed

text \<open>
  C8, amended: in a run of \<open>processJobAsync\<close> on a job whose chunk rows are all
  \<open>pending\<close>, as \<open>startStreamingJob\<close> creates them, with unique chunk ids, every committed
  write of a chunk's status is pending \<open>\<rightarrow>\<close> processing, processing \<open>\<rightarrow>\<close> complete, or
  pending \<open>\<rightarrow>\<close> complete (when the update to \<open>processing\<close> was refused and caught). No
  chunk is ever written \<open>failed\<close>.
\<close>

theorem C8_fresh_run_status_forward:
  assumes "distinct (map c_id (chunksT st))"
    and "\<forall>c\<in>set (chunksT st). c_documentId c = j \<longrightarrow> c_status c = C_pending"
  shows "\<exists>new. statusLog (processJobAsync E j st) = statusLog st @ new
           \<and> (\<forall>e\<in>set new. (fst (snd e), snd (snd e))
                 \<in> {(C_pending, C_processing), (C_processing, C_complete), (C_pending, C_complete)})"
  unfolding processJobAsync_statusLog using assms by (rule processJobBody_statusLog)

theorem C8_fresh_run_witness:
  "distinct (map c_id (chunksT sampleState))
   \<and> (\<exists>new. statusLog (processJobAsync stubEnv 1 sampleState) = statusLog sampleState @ new
           \<and> (\<forall>e\<in>set new. (fst (snd e), snd (snd e))
                 \<in> {(C_pending, C_processing), (C_processing, C_complete), (C_pending, C_complete)}))"
  using C8_fresh_run_status_forward [of sampleState 1 stubEnv]
  by (simp add: sampleState_fields sampleChunk_fields del: One_nat_def)

subsection \<open>The write of a chunk and its verification (C3)\<close>

lemma lossyEnv_fields:
  "dbFails lossyEnv = (\<lambda>s. False)" "abortArrives lossyEnv = (\<lambda>y. False)"
  "reconstructChunkConstrained lossyEnv = (\<lambda>t i n sk cfg ctx. Inr (t, stubDelta t))"
  "persistDelta lossyEnv = (\<lambda>i d. None)"
  by (simp_all add: lossyEnv_def stubEnv_def)

lemma writeChunk_effect:
  "fst (writeChunk E c out aw d st)
     = (if dbFails E (UpdateChunkComplete (c_id c)) \<or> dbFails E (VerifyChunk (c_id c))
        then Some CriticalPersist else None)
   \<and> statusLog (snd (writeChunk E c out aw d st))
     = statusLog st @ (if dbFails E (UpdateChunkComplete (c_id c)) then []
                       else map (\<lambda>x. (c_id x, c_status x, C_complete))
                              (filter (\<lambda>x. c_id x = c_id c) (chunksT st)))
   \<and> chunksT (snd (writeChunk E c out aw d st))
     = (if dbFails E (UpdateChunkComplete (c_id c)) then chunksT st
        else map (\<lambda>x. if c_id x = c_id c
                       then x\<lparr>c_chunkOutputText := Some out, c_actualWords := Some aw,
                              c_chunkDelta := persistDelta E (c_id c) d, c_status := C_complete\<rparr>
                       else x) (chunksT st))
   \<and> console (snd (writeChunk E c out aw d st))
     = console st @
       [if dbFails E (UpdateChunkComplete (c_id c)) then DbFailed (UpdateChunkComplete (c_id c))
        else if dbFails E (VerifyChunk (c_id c)) then DbFailed (VerifyChunk (c_id c))
        else if persistDelta E (c_id c) d \<noteq> None \<and> c_id c \<in> c_id ` set (chunksT st)
        then DeltaVerified (c_chunkIndex c) else DeltaVerificationFailed (c_chunkIndex c)]"
proof -
  have f: "find (\<lambda>x. c_id x = i) (map (\<lambda>x. if c_id x = i then g x else x) T)
            = map_option g (find (\<lambda>x. c_id x = i) T)" if "\<And>x. c_id (g x) = c_id x"
    for i g and T :: "chunk_row list"
    using that by (induction T) auto
  have n: "(find (\<lambda>x. c_id x = i) T = None) = (i \<notin> c_id ` set T)" for i and T :: "chunk_row list"
    by (auto simp: find_None_iff)
  have s: "find (\<lambda>x. c_id x = i) T = Some y \<Longrightarrow> i \<in> c_id ` set T" for i y and T :: "chunk_row list"
    by (cases "i \<in> c_id ` set T") (simp_all add: n [symmetric])
  show ?thesis
    by (auto simp: writeChunk_def Let_def peel f n split: option.split dest: s)
qed

text \<open>
  C3, as stated, does not hold. With a store that reads the delta back as null, the write of
  chunk 0 of the sample job returns normally: the row is \<open>complete\<close> with a null delta, the
  update was issued once, the console shows the warning, and the iteration goes on to
  return the running word count.
\<close>

theorem C3_null_delta_not_retried_counterexample:
  "fst (writeChunk lossyEnv sampleChunk0 (lit ''a b'') 2 (stubDelta (lit ''a b'')) sampleState) = None
   \<and> map (\<lambda>c. (c_id c, c_status c, c_chunkDelta c))
        (chunksT (snd (writeChunk lossyEnv sampleChunk0 (lit ''a b'') 2 (stubDelta (lit ''a b'')) sampleState)))
     = [(1, C_complete, None), (2, C_pending, None)]
   \<and> statusLog (snd (writeChunk lossyEnv sampleChunk0 (lit ''a b'') 2 (stubDelta (lit ''a b'')) sampleState))
     = [(1, C_pending, C_complete)]
   \<and> console (snd (writeChunk lossyEnv sampleChunk0 (lit ''a b'') 2 (stubDelta (lit ''a b'')) sampleState))
     = [DeltaVerificationFailed 0]
   \<and> fst (processChunk lossyEnv 1 sampleJob (Skeleton []) 2 0 0 sampleChunk0 0 sampleState)
     = Inr (countWords (lit ''a b''))
   \<and> statusLog (snd (processChunk lossyEnv 1 sampleJob (Skeleton []) 2 0 0 sampleChunk0 0 sampleState))
     = [(1, C_pending, C_processing), (1, C_processing, C_complete)]"
proof -
  have c: "console sampleState = []" by (simp add: sampleState_def)
  have w: "fst (writeChunk lossyEnv sampleChunk0 (lit ''a b'') 2 (stubDelta (lit ''a b'')) sampleState) = None"
    "map (\<lambda>c. (c_id c, c_status c, c_chunkDelta c))
        (chunksT (snd (writeChunk lossyEnv sampleChunk0 (lit ''a b'') 2 (stubDelta (lit ''a b'')) sampleState)))
     = [(1, C_complete, None), (2, C_pending, None)]"
    "statusLog (snd (writeChunk lossyEnv sampleChunk0 (lit ''a b'') 2 (stubDelta (lit ''a b'')) sampleState))
     = [(1, C_pending, C_complete)]"
    "console (snd (writeChunk lossyEnv sampleChunk0 (lit ''a b'') 2 (stubDelta (lit ''a b'')) sampleState))
     = [DeltaVerificationFailed 0]"
    by (simp_all add: writeChunk_effect lossyEnv_fields sampleState_fields sampleChunk_fields c
        del: One_nat_def)
  have st: "chunkStep lossyEnv 1 sampleJob (Skeleton []) sampleChunk0 [sampleChunk0, sampleChunk1]
     = (Inr (lit ''a b''),
        [writeRow lossyEnv sampleChunk0 (lit ''a b'') (stubDelta (lit ''a b'')) (sampleChunk0\<lparr>c_status := C_processing\<rparr>),
         sampleChunk1])"
    by (simp add: chunkStep_def markedTable_def priorDeltasOf_def lossyEnv_fields sampleChunk_fields Let_def)
  have p1: "fst (processChunk lossyEnv 1 sampleJob (Skeleton []) 2 0 0 sampleChunk0 0 sampleState)
     = Inr (countWords (lit ''a b''))"
    by (simp add: processChunk_result sampleState_fields st del: One_nat_def)
  have p2: "statusLog (snd (processChunk lossyEnv 1 sampleJob (Skeleton []) 2 0 0 sampleChunk0 0 sampleState))
     = [(1, C_pending, C_processing), (1, C_processing, C_complete)]"
    by (simp add: processChunk_statusLog stepLog_def markedTable_def priorDeltasOf_def
        sampleState_fields lossyEnv_fields sampleChunk_fields del: One_nat_def)
  show ?thesis using w p1 p2 by blast
qed

text \<open>
  C3, amended: for every chunk write the update is issued once and never retried. If the
  update or the verification read is refused, the write throws the "Critical: Failed to
  persist chunk delta" error (after the update has been committed, in the second case);
  otherwise it returns normally and the row is \<open>complete\<close>, with whatever delta the store
  kept: a verification read that shows a null delta (or no row) only prints a warning.
\<close>

theorem C3_write_issued_once_no_retry:
  "fst (writeChunk E c out aw d st)
     = (if dbFails E (UpdateChunkComplete (c_id c)) \<or> dbFails E (VerifyChunk (c_id c))
        then Some CriticalPersist else None)
   \<and> statusLog (snd (writeChunk E c out aw d st))
     = statusLog st @ (if dbFails E (UpdateChunkComplete (c_id c)) then []
                       else map (\<lambda>x. (c_id x, c_status x, C_complete))
                              (filter (\<lambda>x. c_id x = c_id c) (chunksT st)))
   \<and> chunksT (snd (writeChunk E c out aw d st))
     = (if dbFails E (UpdateChunkComplete (c_id c)) then chunksT st
        else map (\<lambda>x. if c_id x = c_id c
                       then x\<lparr>c_chunkOutputText := Some out, c_actualWords := Some aw,
                              c_chunkDelta := persistDelta E (c_id c) d, c_status := C_complete\<rparr>
                       else x) (chunksT st))
   \<and> console (snd (writeChunk E c out aw d st))
     = console st @
       [if dbFails E (UpdateChunkComplete (c_id c)) then DbFailed (UpdateChunkComplete (c_id c))
        else if dbFails E (VerifyChunk (c_id c)) then DbFailed (VerifyChunk (c_id c))
        else if persistDelta E (c_id c) d \<noteq> None \<and> c_id c \<in> c_id ` set (chunksT st)
        then DeltaVerified (c_chunkIndex c) else DeltaVerificationFailed (c_chunkIndex c)]"
  by (rule writeChunk_effect)

theorem C3_write_witness:
  "fst (writeChunk lossyEnv sampleChunk0 (lit ''a b'') 2 (stubDelta (lit ''a b'')) sampleState) = None
   \<and> chunksT (snd (writeChunk lossyEnv sampleChunk0 (lit ''a b'') 2 (stubDelta (lit ''a b'')) sampleState))
     = [sampleChunk0\<lparr>c_chunkOutputText := Some (lit ''a b''), c_actualWords := Some 2,
                      c_chunkDelta := None, c_status := C_complete\<rparr>, sampleChunk1]"
  using C3_write_issued_once_no_retry [of lossyEnv sampleChunk0 "lit ''a b''" 2 "stubDelta (lit ''a b'')" sampleState]
  by (simp add: lossyEnv_fields sampleState_fields sampleChunk_fields del: One_nat_def)

subsection \<open>Aborting a job (C2)\<close>

lemma yield_outbox:
  "outbox (yield E y j st)
     = outbox st @ (if abortArrives E y
                    then [Direct (case activeJobs st j of None \<Rightarrow> ErrorMsg (NotRunning j)
                                  | Some js \<Rightarrow> AbortAcknowledged j)]
                    else [])"
  by (simp add: yield_def abortJob_def peel split: option.split)

lemma find_update:
  assumes "\<And>x. j_id (f x) = j_id x"
  shows "find (\<lambda>x. j_id x = j) (map (\<lambda>x. if j_id x = j then f x else x) ds)
           = map_option f (find (\<lambda>x. j_id x = j) ds)"
  using assms by (induction ds) auto

lemma selectDocument_guarded:
  assumes "\<And>x. j_id (f x) = j_id x"
  shows "selectDocument j (guarded E s (updateDocument j f) st)
     = (if dbFails E s then selectDocument j st
        else map_option (\<lambda>x. (f x)\<lparr>j_updatedAt := now st\<rparr>) (selectDocument j st))"
  using find_update [of "\<lambda>x. (f x)\<lparr>j_updatedAt := now st\<rparr>" j "documents st"] assms
  by (simp add: selectDocument_def guarded_documents)

lemma selectCompleteChunks_table:
  "selectCompleteChunks j st
     = sort_key c_chunkIndex (filter (\<lambda>c. c_documentId c = j \<and> c_status c = C_complete) (chunksT st))"
  by (simp add: selectCompleteChunks_def)

lemma handleAbort_effect:
  assumes "\<not> dbFails E (SelectCompleteChunks j)" "\<not> dbFails E (SelectDocument j)"
  shows "fst (handleAbort E j st) = None"
    "outbox (snd (handleAbort E j st))
       = outbox st @ [Broadcast j (JobAborted j (length (selectCompleteChunks j st))
                        (case selectDocument j st of None \<Rightarrow> 0 | Some x \<Rightarrow> j_numChunks x)
                        (partialOutputOf (selectCompleteChunks j st))
                        (countWords (partialOutputOf (selectCompleteChunks j st))))]"
    "activeJobs (snd (handleAbort E j st)) j = None"
    "selectDocument j (snd (handleAbort E j st))
       = (if dbFails E (UpdateDocument j (SetStatus J_aborted)) then selectDocument j st
          else map_option (\<lambda>x. x\<lparr>j_status := J_aborted, j_updatedAt := now st\<rparr>) (selectDocument j st))"
proof -
  let ?st1 = "guarded E (UpdateDocument j (SetStatus J_aborted))
                  (updateDocument j (\<lambda>x. x\<lparr>j_status := J_aborted\<rparr>)) st"
  have sd: "selectDocument j ?st1
       = (if dbFails E (UpdateDocument j (SetStatus J_aborted)) then selectDocument j st
          else map_option (\<lambda>x. x\<lparr>j_status := J_aborted, j_updatedAt := now st\<rparr>) (selectDocument j st))"
    by (simp add: selectDocument_guarded)
  have sc: "selectCompleteChunks j ?st1 = selectCompleteChunks j st"
    by (simp add: selectCompleteChunks_table guarded_if peel)
  have ob: "outbox ?st1 = outbox st" by (simp add: guarded_if peel)
  have nc: "(case selectDocument j ?st1 of None \<Rightarrow> 0 | Some x \<Rightarrow> j_numChunks x)
      = (case selectDocument j st of None \<Rightarrow> 0 | Some x \<Rightarrow> j_numChunks x)"
    by (simp add: sd split: option.split)
  show "fst (handleAbort E j st) = None" using assms by (simp add: handleAbort_def Let_def)
  show "outbox (snd (handleAbort E j st))
       = outbox st @ [Broadcast j (JobAborted j (length (selectCompleteChunks j st))
                        (case selectDocument j st of None \<Rightarrow> 0 | Some x \<Rightarrow> j_numChunks x)
                        (partialOutputOf (selectCompleteChunks j st))
                        (countWords (partialOutputOf (selectCompleteChunks j st))))]"
    using assms by (simp add: handleAbort_def Let_def peel sc ob nc)
  show "activeJobs (snd (handleAbort E j st)) j = None"
    using assms by (simp add: handleAbort_def Let_def peel)
  have "selectDocument j (snd (handleAbort E j st)) = selectDocument j ?st1"
    by (rule selectDocument_docs) (simp add: handleAbort_documents)
  then show "selectDocument j (snd (handleAbort E j st))
       = (if dbFails E (UpdateDocument j (SetStatus J_aborted)) then selectDocument j st
          else map_option (\<lambda>x. x\<lparr>j_status := J_aborted, j_updatedAt := now st\<rparr>) (selectDocument j st))"
    by (simp add: sd)
qed

lemma chunkStep_InrD:
  assumes "fst (chunkStep E j job skel c T) = Inr out"
  shows "\<exists>ds d. priorDeltasOf E j (c_chunkIndex c) (markedTable E c T) = Inr ds
      \<and> reconstructChunkConstrained E (c_chunkInputText c) (c_chunkIndex c) (j_numChunks job)
            skel (lengthConfigOfJob job) (buildPriorDeltasSummary ds) = Inr (out, d)
      \<and> \<not> dbFails E (UpdateChunkComplete (c_id c)) \<and> \<not> dbFails E (VerifyChunk (c_id c))"
  using assms
  by (auto simp: chunkStep_def Let_def split: sum.splits prod.splits if_splits)

lemma processChunk_success:
  assumes "fst (chunkStep E j job skel c (chunksT st)) = Inr out"
  shows "\<exists>st5. processChunk E j job skel len pos t c r st
            = (Inr (r + countWords out),
               afterWrite E j job len pos c out (countWords out) (r + countWords out) t st5)
          \<and> outbox st5 = outbox (yield E (DuringChunk pos) j st)"
proof -
  from chunkStep_InrD [OF assms] obtain ds d where
    pd: "priorDeltasOf E j (c_chunkIndex c) (markedTable E c (chunksT st)) = Inr ds"
    and rc: "reconstructChunkConstrained E (c_chunkInputText c) (c_chunkIndex c) (j_numChunks job)
            skel (lengthConfigOfJob job) (buildPriorDeltasSummary ds) = Inr (out, d)"
    and db: "\<not> dbFails E (UpdateChunkComplete (c_id c))" "\<not> dbFails E (VerifyChunk (c_id c))"
    by blast
  let ?st1 = "guarded E (UpdateChunkProcessing (c_id c))
                  (updateChunk (c_id c) (\<lambda>c. c\<lparr>c_status := C_processing\<rparr>)) st"
  let ?st2 = "yield E (DuringChunk pos) j ?st1"
  let ?g = "getPriorDeltas E j (c_chunkIndex c) ?st2"
  let ?st4 = "recordCall (Reconstruct (c_chunkIndex c)) (snd ?g)"
  let ?w = "writeChunk E c out (countWords out) d ?st4"
  have t2: "chunksT ?st2 = markedTable E c (chunksT st)"
    by (simp add: markedTable_def guarded_if peel)
  have g1: "fst ?g = Inr ds" by (simp only: getPriorDeltas_prior t2 pd)
  have w1: "fst ?w = None" using db by (simp only: writeChunk_proj(1)) simp
  have "processChunk E j job skel len pos t c r st
            = (Inr (r + countWords out),
               afterWrite E j job len pos c out (countWords out) (r + countWords out) t (snd ?w))"
    by (simp only: processChunk_def Let_def split_beta g1 sum.case rc prod.case fst_conv snd_conv w1 option.case)
  moreover have "outbox (snd ?w) = outbox (yield E (DuringChunk pos) j st)"
    by (simp add: peel yield_outbox guarded_if)
  ultimately show ?thesis by blast
qed

lemma afterWrite_outbox:
  "\<exists>m rest. outbox (afterWrite E j job len pos c out aw r t st)
            = outbox st @ Broadcast j (ChunkComplete j m) # rest
          \<and> m_chunkIndex m = c_chunkIndex c \<and> m_chunkText m = out"
  by (simp add: afterWrite_def Let_def peel guarded_if yield_outbox split: option.split)

lemma processChunk_outbox:
  assumes "fst (chunkStep E j job skel c (chunksT st)) = Inr out"
  shows "\<exists>m rest. outbox (snd (processChunk E j job skel len pos t c r st))
            = outbox (yield E (DuringChunk pos) j st) @ Broadcast j (ChunkComplete j m) # rest
          \<and> m_chunkIndex m = c_chunkIndex c \<and> m_chunkText m = out"
proof -
  from processChunk_success [OF assms] obtain st5 where
    p: "processChunk E j job skel len pos t c r st
            = (Inr (r + countWords out),
               afterWrite E j job len pos c out (countWords out) (r + countWords out) t st5)"
    and o: "outbox st5 = outbox (yield E (DuringChunk pos) j st)"
    by blast
  show ?thesis
    using afterWrite_outbox [of E j job len pos c out "countWords out" "r + countWords out" t st5]
    by (simp add: p o)
qed

lemma arrive_True: "arrive E y (Some True) = Some True"
  by (simp add: arrive_def)

lemma abort_during_chunk:
  assumes run: "flagOf j st = Some False"
    and arr: "abortArrives E (DuringChunk pos)"
    and ok: "fst (chunkStep E j job skel c (chunksT st)) = Inr out"
  shows "fst (processChunk E j job skel len pos t c r st) = Inr (r + countWords out)"
    "flagOf j (snd (processChunk E j job skel len pos t c r st)) = Some True"
    "\<exists>m rest. outbox (snd (processChunk E j job skel len pos t c r st))
        = outbox st @ Direct (AbortAcknowledged j) # Broadcast j (ChunkComplete j m) # rest
      \<and> m_chunkIndex m = c_chunkIndex c \<and> m_chunkText m = out"
proof -
  show "fst (processChunk E j job skel len pos t c r st) = Inr (r + countWords out)"
    by (simp add: processChunk_result ok)
  have "arrive E (DuringChunk pos) (flagOf j st) = Some True"
    using run arr by (simp add: arrive_def)
  then show "flagOf j (snd (processChunk E j job skel len pos t c r st)) = Some True"
    by (simp add: processChunk_flag arrive_True)
  obtain js where "activeJobs st j = Some js" using run by (auto simp: flagOf_def)
  then have "outbox (yield E (DuringChunk pos) j st) = outbox st @ [Direct (AbortAcknowledged j)]"
    using arr by (simp add: yield_outbox)
  then show "\<exists>m rest. outbox (snd (processChunk E j job skel len pos t c r st))
        = outbox st @ Direct (AbortAcknowledged j) # Broadcast j (ChunkComplete j m) # rest
      \<and> m_chunkIndex m = c_chunkIndex c \<and> m_chunkText m = out"
    using processChunk_outbox [OF ok, of len pos t r] by simp
qed

lemma numChunks_static:
  "map_option jobStatic a = map_option jobStatic b \<Longrightarrow>
   (case a of None \<Rightarrow> 0 | Some x \<Rightarrow> j_numChunks x) = (case b of None \<Rightarrow> 0 | Some x \<Rightarrow> j_numChunks x)"
  by (cases a; cases b) (auto dest: jobStatic_eqD)

lemma abort_last_chunk:
  assumes run: "flagOf j st = Some False"
    and arr: "abortArrives E (DuringChunk pos)"
    and ok: "fst (chunkStep E j job skel c (chunksT st)) = Inr out"
  shows "chunkLoop E j job skel len t pos r [c] st
           = (LoopDone (r + countWords out), snd (processChunk E j job skel len pos t c r st))"
  using abort_during_chunk(1) [OF run arr ok, of len t r] run
  by (simp add: chunkLoop_Cons)

lemma abort_before_next_chunk:
  assumes run: "flagOf j st = Some False"
    and arr: "abortArrives E (DuringChunk pos)"
    and ok: "fst (chunkStep E j job skel c (chunksT st)) = Inr out"
    and sel: "\<not> dbFails E (SelectCompleteChunks j)" "\<not> dbFails E (SelectDocument j)"
    and more: "cs \<noteq> []"
  shows "chunkLoop E j job skel len t pos r (c # cs) st
           = (LoopAborted, snd (handleAbort E j (snd (processChunk E j job skel len pos t c r st))))"
proof -
  obtain c' cs' where cs: "cs = c' # cs'" using more by (cases cs) auto
  show ?thesis
    using abort_during_chunk(1,2) [OF run arr ok, of len t r] run sel
    by (simp add: cs chunkLoop_Cons [of E j job skel len t pos r c] chunkLoop_Cons [of E j job skel len t "Suc pos"]
        handleAbort_fst)
qed

lemma abort_handled:
  assumes run: "flagOf j st = Some False"
    and arr: "abortArrives E (DuringChunk pos)"
    and ok: "fst (chunkStep E j job skel c (chunksT st)) = Inr out"
    and sel: "\<not> dbFails E (SelectCompleteChunks j)" "\<not> dbFails E (SelectDocument j)"
    and more: "cs \<noteq> []"
  shows "fst (chunkLoop E j job skel len t pos r (c # cs) st) = LoopAborted"
    "chunksT (snd (chunkLoop E j job skel len t pos r (c # cs) st)) = snd (chunkStep E j job skel c (chunksT st))"
    "llmLog (snd (chunkLoop E j job skel len t pos r (c # cs) st)) = llmLog st @ [Reconstruct (c_chunkIndex c)]"
    "activeJobs (snd (chunkLoop E j job skel len t pos r (c # cs) st)) j = None"
    "\<exists>m mid. outbox (snd (chunkLoop E j job skel len t pos r (c # cs) st))
        = outbox st @ Direct (AbortAcknowledged j) # Broadcast j (ChunkComplete j m) # mid
          @ [Broadcast j (JobAborted j
               (length (sort_key c_chunkIndex (filter (\<lambda>x. c_documentId x = j \<and> c_status x = C_complete)
                          (snd (chunkStep E j job skel c (chunksT st))))))
               (case selectDocument j st of None \<Rightarrow> 0 | Some x \<Rightarrow> j_numChunks x)
               (partialOutputOf (sort_key c_chunkIndex (filter (\<lambda>x. c_documentId x = j \<and> c_status x = C_complete)
                          (snd (chunkStep E j job skel c (chunksT st))))))
               (countWords (partialOutputOf (sort_key c_chunkIndex (filter (\<lambda>x. c_documentId x = j \<and> c_status x = C_complete)
                          (snd (chunkStep E j job skel c (chunksT st))))))))]
      \<and> m_chunkIndex m = c_chunkIndex c \<and> m_chunkText m = out"
    "\<not> dbFails E (UpdateDocument j (SetStatus J_aborted)) \<Longrightarrow>
       map_option j_status (selectDocument j (snd (chunkLoop E j job skel len t pos r (c # cs) st)))
         = map_option (\<lambda>x. J_aborted) (selectDocument j st)"
proof -
  let ?p = "snd (processChunk E j job skel len pos t c r st)"
  note L = abort_before_next_chunk [OF run arr ok sel more, of len t r]
  note H = handleAbort_effect [OF sel, of ?p]
  show "fst (chunkLoop E j job skel len t pos r (c # cs) st) = LoopAborted" by (simp add: L)
  show "chunksT (snd (chunkLoop E j job skel len t pos r (c # cs) st)) = snd (chunkStep E j job skel c (chunksT st))"
    by (simp add: L peel processChunk_table)
  have "\<not> isl (priorDeltasOf E j (c_chunkIndex c) (markedTable E c (chunksT st)))"
    using ok by (rule chunkStep_Inr_prior)
  then show "llmLog (snd (chunkLoop E j job skel len t pos r (c # cs) st)) = llmLog st @ [Reconstruct (c_chunkIndex c)]"
    by (simp add: L peel processChunk_llmLog)
  show "activeJobs (snd (chunkLoop E j job skel len t pos r (c # cs) st)) j = None"
    by (simp add: L H(3))
  have sd: "map_option jobStatic (selectDocument j ?p) = map_option jobStatic (selectDocument j st)"
    unfolding selectDocument_def by (rule find_jobStatic) (rule processChunk_documents)
  have nc: "(case selectDocument j ?p of None \<Rightarrow> 0 | Some x \<Rightarrow> j_numChunks x)
      = (case selectDocument j st of None \<Rightarrow> 0 | Some x \<Rightarrow> j_numChunks x)"
    using sd by (rule numChunks_static)
  from abort_during_chunk(3) [OF run arr ok, of len t r]
  obtain m rest where m: "outbox ?p = outbox st @ Direct (AbortAcknowledged j) # Broadcast j (ChunkComplete j m) # rest"
    "m_chunkIndex m = c_chunkIndex c" "m_chunkText m = out"
    by blast
  show "\<exists>m mid. outbox (snd (chunkLoop E j job skel len t pos r (c # cs) st))
        = outbox st @ Direct (AbortAcknowledged j) # Broadcast j (ChunkComplete j m) # mid
          @ [Broadcast j (JobAborted j
               (length (sort_key c_chunkIndex (filter (\<lambda>x. c_documentId x = j \<and> c_status x = C_complete)
                          (snd (chunkStep E j job skel c (chunksT st))))))
               (case selectDocument j st of None \<Rightarrow> 0 | Some x \<Rightarrow> j_numChunks x)
               (partialOutputOf (sort_key c_chunkIndex (filter (\<lambda>x. c_documentId x = j \<and> c_status x = C_complete)
                          (snd (chunkStep E j job skel c (chunksT st))))))
               (countWords (partialOutputOf (sort_key c_chunkIndex (filter (\<lambda>x. c_documentId x = j \<and> c_status x = C_complete)
                          (snd (chunkStep E j job skel c (chunksT st))))))))]
      \<and> m_chunkIndex m = c_chunkIndex c \<and> m_chunkText m = out"
    using m by (simp add: L H(2) nc selectCompleteChunks_table processChunk_table)
  assume up: "\<not> dbFails E (UpdateDocument j (SetStatus J_aborted))"
  have "map_option j_status (selectDocument j ?p) = None \<longleftrightarrow> map_option j_status (selectDocument j st) = None"
    using sd by (metis map_option_is_None)
  then show "map_option j_status (selectDocument j (snd (chunkLoop E j job skel len t pos r (c # cs) st)))
         = map_option (\<lambda>x. J_aborted) (selectDocument j st)"
    using up by (cases "selectDocument j ?p"; cases "selectDocument j st") (simp_all add: L H(4))
qed

lemma abortDuring_fields:
  "dbFails (abortDuring k) = (\<lambda>s. False)" "abortArrives (abortDuring k) = (\<lambda>y. y = DuringChunk k)"
  "extractGlobalSkeleton (abortDuring k) = (\<lambda>t a r. Inr (Skeleton []))"
  "reconstructChunkConstrained (abortDuring k) = (\<lambda>t i n sk cfg ctx. Inr (t, stubDelta t))"
  "persistDelta (abortDuring k) = (\<lambda>i d. Some d)"
  "stitchAndValidate (abortDuring k) = stitchAndValidate stubEnv"
  by (simp_all add: abortDuring_def stubEnv_def)

lemma abortDuring_step0:
  "chunkStep (abortDuring k) 1 sampleJob (Skeleton []) sampleChunk0 [sampleChunk0, sampleChunk1]
     = (Inr (lit ''a b''),
        [writeRow (abortDuring k) sampleChunk0 (lit ''a b'') (stubDelta (lit ''a b''))
           (sampleChunk0\<lparr>c_status := C_processing\<rparr>),
         sampleChunk1])"
  by (simp add: chunkStep_def markedTable_def priorDeltasOf_def abortDuring_fields sampleChunk_fields Let_def)

lemma outbox_sampleState: "outbox sampleState = []"
  by (simp add: sampleState_def)

lemma stitchPhase_outbox_grows:
  "\<exists>new. outbox (snd (stitchPhase E j job skel t st)) = outbox st @ new"
  by (simp add: stitchPhase_def Let_def guarded_if peel yield_outbox split: sum.split prod.split)

lemma late_abort_completes:
  "fst (processJobBody (abortDuring 1) 1 sampleState) = Completed
   \<and> Direct (AbortAcknowledged 1) \<in> set (outbox (snd (processJobBody (abortDuring 1) 1 sampleState)))"
proof -
  let ?E = "abortDuring 1"
  obtain a6 where sa: "startWorker ?E 1 sampleState
          = Inr ((sampleJob, 0, Skeleton [], [sampleChunk0, sampleChunk1]), a6)"
    using startWorker_InrI [of ?E 1 sampleState sampleJob "\<lparr>aborted = False, startTime = 0\<rparr>" "Skeleton []"]
    by (auto simp add: sample_select sampleState_fields arrive_def abortDuring_fields simp del: One_nat_def)
  note A = startWorker_Inr [OF sa]
  have f6: "flagOf 1 a6 = Some False"
    using A(9) by (simp add: arrive_def abortDuring_fields sampleState_fields del: One_nat_def)
  have t6: "chunksT a6 = [sampleChunk0, sampleChunk1]" using A(8) by (simp add: sampleState_fields)
  let ?p0 = "processChunk ?E 1 sampleJob (Skeleton []) 2 0 0 sampleChunk0 0 a6"
  have r0: "fst ?p0 = Inr (countWords (lit ''a b''))"
    by (simp add: processChunk_result t6 abortDuring_step0 del: One_nat_def)
  have f0: "flagOf 1 (snd ?p0) = Some False"
    by (simp add: processChunk_flag arrive_def abortDuring_fields f6 del: One_nat_def)
  have "\<not> isl (fst (chunkStep ?E 1 sampleJob (Skeleton []) sampleChunk1 (chunksT (snd ?p0))))"
    by (rule chunkStep_quiet) (simp_all add: abortDuring_fields)
  then obtain out1 where ok1: "fst (chunkStep ?E 1 sampleJob (Skeleton []) sampleChunk1 (chunksT (snd ?p0))) = Inr out1"
    by (cases "fst (chunkStep ?E 1 sampleJob (Skeleton []) sampleChunk1 (chunksT (snd ?p0)))") auto
  have arr: "abortArrives ?E (DuringChunk 1)" by (simp add: abortDuring_fields)
  let ?p1 = "processChunk ?E 1 sampleJob (Skeleton []) 2 1 0 sampleChunk1 (countWords (lit ''a b'')) (snd ?p0)"
  have l1: "chunkLoop ?E 1 sampleJob (Skeleton []) 2 0 1 (countWords (lit ''a b'')) [sampleChunk1] (snd ?p0)
      = (LoopDone (countWords (lit ''a b'') + countWords out1), snd ?p1)"
    using f0 arr ok1 by (rule abort_last_chunk)
  have loop: "chunkLoop ?E 1 sampleJob (Skeleton []) 2 0 0 0 [sampleChunk0, sampleChunk1] a6
      = (LoopDone (countWords (lit ''a b'') + countWords out1), snd ?p1)"
    using f6 r0 l1 by (simp add: chunkLoop_Cons [of _ _ _ _ _ _ 0])
  have body: "processJobBody ?E 1 sampleState = stitchPhase ?E 1 sampleJob (Skeleton []) 0 (snd ?p1)"
    using loop sa by (simp add: processJobBody_def numeral_2_eq_2)
  have c: "fst (processJobBody ?E 1 sampleState) = Completed"
    unfolding body by (simp add: stitchPhase_fst abortDuring_fields stubEnv_def)
  from abort_during_chunk(3) [OF f0 arr ok1, of 2 0 "countWords (lit ''a b'')"]
  have "Direct (AbortAcknowledged 1) \<in> set (outbox (snd ?p1))" by auto
  moreover obtain new where "outbox (snd (stitchPhase ?E 1 sampleJob (Skeleton []) 0 (snd ?p1))) = outbox (snd ?p1) @ new"
    using stitchPhase_outbox_grows by blast
  ultimately have "Direct (AbortAcknowledged 1) \<in> set (outbox (snd (processJobBody ?E 1 sampleState)))"
    unfolding body by simp
  with c show ?thesis by blast
qed

text \<open>
  C2, as stated, does not hold. When \<open>abort_job\<close> arrives while chunk 0 of the sample job is
  being processed, the \<open>chunk_complete\<close> message of chunk 0 is emitted after the
  acknowledgement of the abort. When it arrives while the last chunk (chunk 1) is being
  processed, it is acknowledged and the job nevertheless runs to completion.
\<close>

theorem C2_chunk_complete_after_abort_counterexample:
  "(\<exists>m rest. outbox (snd (chunkLoop (abortDuring 0) 1 sampleJob (Skeleton []) 2 0 0 0
                          [sampleChunk0, sampleChunk1] sampleState))
        = Direct (AbortAcknowledged 1) # Broadcast 1 (ChunkComplete 1 m) # rest
      \<and> m_chunkIndex m = 0)
   \<and> fst (processJobBody (abortDuring 1) 1 sampleState) = Completed
   \<and> Direct (AbortAcknowledged 1) \<in> set (outbox (snd (processJobBody (abortDuring 1) 1 sampleState)))"
proof -
  have ok: "fst (chunkStep (abortDuring 0) 1 sampleJob (Skeleton []) sampleChunk0 (chunksT sampleState))
      = Inr (lit ''a b'')"
    by (simp add: sampleState_fields abortDuring_step0 del: One_nat_def)
  have arr: "abortArrives (abortDuring 0) (DuringChunk 0)" by (simp add: abortDuring_fields)
  from abort_handled(5) [OF sampleState_fields(7) arr ok, of "[sampleChunk1]" 2 0 0]
  have "\<exists>m rest. outbox (snd (chunkLoop (abortDuring 0) 1 sampleJob (Skeleton []) 2 0 0 0
                          [sampleChunk0, sampleChunk1] sampleState))
        = Direct (AbortAcknowledged 1) # Broadcast 1 (ChunkComplete 1 m) # rest
      \<and> m_chunkIndex m = 0"
    by (simp add: abortDuring_fields outbox_sampleState sampleChunk_fields del: One_nat_def) blast
  then show ?thesis using late_abort_completes by blast
qed

lemma processJobBody_restOfJob:
  "processJobBody E j st =
     (case startWorker E j st of
        Inl r \<Rightarrow> r
      | Inr ((job, t, skel, cs), st6) \<Rightarrow> restOfJob E j job skel (length cs) t 0 0 cs st6)"
  by (simp add: processJobBody_def restOfJob_def split: sum.split prod.split)

lemma observed_append:
  "chunkCompletes j (xs @ ys) = chunkCompletes j xs @ chunkCompletes j ys"
  "abortNotices j (xs @ ys) = abortNotices j xs @ abortNotices j ys"
  by (simp_all add: chunkCompletes_def abortNotices_def)

lemma observed_single:
  "chunkCompletes j [] = []" "abortNotices j [] = []"
  "chunkCompletes j (Direct m # es) = chunkCompletes j es"
  "abortNotices j (Direct m # es) = abortNotices j es"
  "chunkCompletes j (Broadcast j (ChunkComplete k cm) # es) = cm # chunkCompletes j es"
  "abortNotices j (Broadcast j (ChunkComplete k cm) # es) = abortNotices j es"
  "chunkCompletes j (Broadcast j (Progress k ph ps) # es) = chunkCompletes j es"
  "abortNotices j (Broadcast j (Progress k ph ps) # es) = abortNotices j es"
  "chunkCompletes j (Broadcast j (Warning k a b c) # es) = chunkCompletes j es"
  "abortNotices j (Broadcast j (Warning k a b c) # es) = abortNotices j es"
  "chunkCompletes j (Broadcast j (JobComplete k fo fw tw sr te) # es) = chunkCompletes j es"
  "abortNotices j (Broadcast j (JobComplete k fo fw tw sr te) # es) = abortNotices j es"
  "chunkCompletes j (Broadcast j (JobAborted k n1 n2 po wc) # es) = chunkCompletes j es"
  "abortNotices j (Broadcast j (JobAborted k n1 n2 po wc) # es)
     = JobAborted k n1 n2 po wc # abortNotices j es"
  by (simp_all add: chunkCompletes_def abortNotices_def)

lemma warningAfter_Some:
  "warningAfter j k t p = Some w \<Longrightarrow> w = Warning j p t (jsRound (shortfallOf t p))"
  by (auto simp: warningAfter_def split: if_splits)

lemma afterWrite_observed:
  "\<exists>m. chunkCompletes j (outbox (afterWrite E j job len pos c out aw r t st))
          = chunkCompletes j (outbox st) @ [m]
       \<and> m_chunkIndex m = c_chunkIndex c \<and> m_chunkText m = out"
  "abortNotices j (outbox (afterWrite E j job len pos c out aw r t st)) = abortNotices j (outbox st)"
  by (auto simp: afterWrite_def Let_def peel guarded_if yield_outbox observed_append observed_single
      split: option.split dest!: warningAfter_Some)

lemma yield_observed:
  "chunkCompletes j (outbox (yield E y j st)) = chunkCompletes j (outbox st)"
  "abortNotices j (outbox (yield E y j st)) = abortNotices j (outbox st)"
  by (simp_all add: yield_outbox observed_append observed_single)

lemma processChunk_observed:
  assumes "fst (chunkStep E j job skel c (chunksT st)) = Inr out"
  shows "\<exists>m. chunkCompletes j (outbox (snd (processChunk E j job skel len pos t c r st)))
          = chunkCompletes j (outbox st) @ [m]
       \<and> m_chunkIndex m = c_chunkIndex c \<and> m_chunkText m = out"
    "abortNotices j (outbox (snd (processChunk E j job skel len pos t c r st))) = abortNotices j (outbox st)"
proof -
  from processChunk_success [OF assms] obtain st5 where
    p: "processChunk E j job skel len pos t c r st
            = (Inr (r + countWords out),
               afterWrite E j job len pos c out (countWords out) (r + countWords out) t st5)"
    and o: "outbox st5 = outbox (yield E (DuringChunk pos) j st)"
    by blast
  show "\<exists>m. chunkCompletes j (outbox (snd (processChunk E j job skel len pos t c r st)))
          = chunkCompletes j (outbox st) @ [m]
       \<and> m_chunkIndex m = c_chunkIndex c \<and> m_chunkText m = out"
    using afterWrite_observed(1) [of j E job len pos c out "countWords out" "r + countWords out" t st5]
    by (simp add: p o yield_observed)
  show "abortNotices j (outbox (snd (processChunk E j job skel len pos t c r st))) = abortNotices j (outbox st)"
    by (simp add: p afterWrite_observed(2) o yield_observed)
qed

lemma handleAbort_outbox:
  "outbox (snd (handleAbort E j st))
     = outbox st @ (if dbFails E (SelectCompleteChunks j) \<or> dbFails E (SelectDocument j) then []
                    else [Broadcast j (JobAborted j (length (selectCompleteChunks j st))
                            (case selectDocument j st of None \<Rightarrow> 0 | Some x \<Rightarrow> j_numChunks x)
                            (partialOutputOf (selectCompleteChunks j st))
                            (countWords (partialOutputOf (selectCompleteChunks j st))))])"
proof (cases "dbFails E (SelectCompleteChunks j) \<or> dbFails E (SelectDocument j)")
  case True
  then show ?thesis by (auto simp: handleAbort_def Let_def guarded_if peel)
next
  case False
  then show ?thesis using handleAbort_effect(2) [of E j st] by simp
qed

lemma handleAbort_observed:
  "chunkCompletes j (outbox (snd (handleAbort E j st))) = chunkCompletes j (outbox st)"
  by (simp add: handleAbort_outbox observed_append observed_single)

lemma stitchPhase_observed:
  "chunkCompletes j (outbox (snd (stitchPhase E j job skel t st))) = chunkCompletes j (outbox st)"
  "abortNotices j (outbox (snd (stitchPhase E j job skel t st))) = abortNotices j (outbox st)"
  by (simp_all add: stitchPhase_def Let_def guarded_if peel yield_outbox observed_append observed_single
      split: sum.split prod.split)

lemma restOfJob_Nil: "restOfJob E j job skel len t pos r [] st = stitchPhase E j job skel t st"
  by (simp add: restOfJob_def)

lemma restOfJob_flag_set:
  assumes "flagOf j st = Some True"
  shows "restOfJob E j job skel len t pos r (c # cs) st
     = (if dbFails E (SelectCompleteChunks j) \<or> dbFails E (SelectDocument j) then Failed DbError else Aborted,
        snd (handleAbort E j st))"
  using assms by (simp add: restOfJob_def chunkLoop_Cons handleAbort_fst)

lemma restOfJob_abort_next:
  assumes run: "flagOf j st = Some False"
    and arr: "abortArrives E (DuringChunk pos)"
    and ok: "fst (chunkStep E j job skel c (chunksT st)) = Inr out"
    and more: "cs \<noteq> []"
  shows "restOfJob E j job skel len t pos r (c # cs) st
     = (if dbFails E (SelectCompleteChunks j) \<or> dbFails E (SelectDocument j) then Failed DbError else Aborted,
        snd (handleAbort E j (snd (processChunk E j job skel len pos t c r st))))"
proof -
  obtain c' cs' where cs: "cs = c' # cs'" using more by (cases cs) auto
  show ?thesis
    using abort_during_chunk(1,2) [OF run arr ok, of len t r] run
    by (simp add: restOfJob_def cs chunkLoop_Cons [of E j job skel len t pos r c]
        chunkLoop_Cons [of E j job skel len t "Suc pos"] handleAbort_fst)
qed

lemma restOfJob_abort_last:
  assumes run: "flagOf j st = Some False"
    and arr: "abortArrives E (DuringChunk pos)"
    and ok: "fst (chunkStep E j job skel c (chunksT st)) = Inr out"
  shows "restOfJob E j job skel len t pos r [c] st
     = stitchPhase E j job skel t (snd (processChunk E j job skel len pos t c r st))"
  by (simp add: restOfJob_def abort_last_chunk [OF run arr ok])

lemma handleAbort_status:
  "\<not> dbFails E (UpdateDocument j (SetStatus J_aborted)) \<Longrightarrow>
   map_option j_status (selectDocument j (snd (handleAbort E j st)))
     = map_option (\<lambda>x. J_aborted) (selectDocument j st)"
proof -
  assume up: "\<not> dbFails E (UpdateDocument j (SetStatus J_aborted))"
  have "selectDocument j (snd (handleAbort E j st))
      = selectDocument j (guarded E (UpdateDocument j (SetStatus J_aborted))
                  (updateDocument j (\<lambda>x. x\<lparr>j_status := J_aborted\<rparr>)) st)"
    by (rule selectDocument_docs) (simp add: handleAbort_documents)
  then show ?thesis using up
    by (cases "selectDocument j st") (simp_all add: selectDocument_guarded)
qed

lemma handleAbort_registry:
  "\<not> (dbFails E (SelectCompleteChunks j) \<or> dbFails E (SelectDocument j)) \<Longrightarrow>
   activeJobs (snd (handleAbort E j st)) j = None"
  using handleAbort_effect(3) [of E j st] by simp

lemma status_static:
  assumes "map_option jobStatic a = map_option jobStatic b"
  shows "map_option (\<lambda>x. s) a = map_option (\<lambda>x. s) b"
  using assms by (cases a; cases b) auto

lemma processChunk_select:
  "map_option jobStatic (selectDocument j (snd (processChunk E j job skel len pos t c r st)))
     = map_option jobStatic (selectDocument j st)"
  unfolding selectDocument_def by (rule find_jobStatic) (rule processChunk_documents)

lemma stitchPhase_complete:
  assumes "\<not> dbFails E (SelectCompleteChunks j)"
    and "stitchAndValidate E skel (stitchInput j (chunksT st)) = Inr (fo, sr)"
  shows "\<exists>pre te. outbox (snd (stitchPhase E j job skel t st))
            = pre @ [Broadcast j (JobComplete j fo (countWords fo) (j_targetMidWords job) sr te)]"
    "activeJobs (snd (stitchPhase E j job skel t st)) j = None"
    "\<not> dbFails E (UpdateDocument j SetFinal) \<Longrightarrow>
       map_option j_status (selectDocument j (snd (stitchPhase E j job skel t st)))
         = map_option (\<lambda>x. J_complete) (selectDocument j st)"
proof -
  let ?st1 = "broadcastProgress j Ph_stitching None st"
  let ?st2 = "guarded E (UpdateDocument j (SetStatus J_stitching))
                  (updateDocument j (\<lambda>x. x\<lparr>j_status := J_stitching\<rparr>)) ?st1"
  let ?st3 = "recordCall Stitch (yield E DuringStitch j ?st2)"
  let ?st4 = "guarded E (UpdateDocument j SetFinal)
                (updateDocument j (\<lambda>x. x\<lparr>j_finalOutput := Some fo, j_finalWordCount := Some (countWords fo),
                                       j_validationResult := Some sr, j_status := J_complete\<rparr>)) ?st3"
  have in2: "map (\<lambda>c. (c_chunkOutputText c, case c_chunkDelta c of None \<Rightarrow> emptyDelta | Some d \<Rightarrow> d))
               (selectCompleteChunks j ?st2) = stitchInput j (chunksT st)"
    by (simp add: stitchInput_def selectCompleteChunks_def guarded_if peel)
  have eq: "stitchPhase E j job skel t st
      = (Completed, activeJobsDelete j
           (broadcastToJob j (JobComplete j fo (countWords fo) (j_targetMidWords job) sr (now ?st4 - t)) ?st4))"
    using assms by (simp add: stitchPhase_def Let_def in2)
  show "\<exists>pre te. outbox (snd (stitchPhase E j job skel t st))
            = pre @ [Broadcast j (JobComplete j fo (countWords fo) (j_targetMidWords job) sr te)]"
    by (simp add: eq peel)
  show "activeJobs (snd (stitchPhase E j job skel t st)) j = None"
    by (simp add: eq activeJobsDelete_def peel)
  assume up: "\<not> dbFails E (UpdateDocument j SetFinal)"
  have d3: "documents ?st3 = documents ?st2" by (simp add: peel)
  have "selectDocument j (snd (stitchPhase E j job skel t st)) = selectDocument j ?st4"
    by (rule selectDocument_docs) (simp add: eq peel)
  moreover have "selectDocument j ?st3 = selectDocument j ?st2"
    by (rule selectDocument_docs) (rule d3)
  moreover have "map_option (\<lambda>x. J_complete) (selectDocument j ?st2) = map_option (\<lambda>x. J_complete) (selectDocument j st)"
  proof -
    have "selectDocument j ?st1 = selectDocument j st" by (rule selectDocument_docs) (simp add: peel)
    then show ?thesis by (cases "selectDocument j st") (simp_all add: selectDocument_guarded)
  qed
  ultimately show "map_option j_status (selectDocument j (snd (stitchPhase E j job skel t st)))
         = map_option (\<lambda>x. J_complete) (selectDocument j st)"
    using up by (cases "selectDocument j ?st2") (simp_all add: selectDocument_guarded)
qed

lemma handleAbort_notice:
  "outbox (snd (handleAbort E j st))
     = outbox st @ (if abortRefused E j then []
                    else [Broadcast j (abortNotice j (selectDocument j st) (chunksT st))])"
  by (simp add: handleAbort_outbox abortRefused_def abortNotice_def completeRows_def
      selectCompleteChunks_table)

lemma abortNotice_static:
  "map_option jobStatic a = map_option jobStatic b \<Longrightarrow> abortNotice j a T = abortNotice j b T"
  using numChunks_static [of a b] by (simp add: abortNotice_def)

lemma abort_at_head:
  assumes "flagOf j st = Some True"
  shows "fst (restOfJob E j job skel len t pos r (c # cs) st) = (if abortRefused E j then Failed DbError else Aborted)"
    "chunksT (snd (restOfJob E j job skel len t pos r (c # cs) st)) = chunksT st"
    "llmLog (snd (restOfJob E j job skel len t pos r (c # cs) st)) = llmLog st"
    "statusLog (snd (restOfJob E j job skel len t pos r (c # cs) st)) = statusLog st"
    "outbox (snd (restOfJob E j job skel len t pos r (c # cs) st))
       = outbox st @ (if abortRefused E j then []
                      else [Broadcast j (abortNotice j (selectDocument j st) (chunksT st))])"
    "\<not> abortRefused E j \<Longrightarrow> activeJobs (snd (restOfJob E j job skel len t pos r (c # cs) st)) j = None"
    "\<not> dbFails E (UpdateDocument j (SetStatus J_aborted)) \<Longrightarrow>
       map_option j_status (selectDocument j (snd (restOfJob E j job skel len t pos r (c # cs) st)))
         = map_option (\<lambda>x. J_aborted) (selectDocument j st)"
proof -
  note R = restOfJob_flag_set [OF assms, of E job skel len t pos r c cs]
  show "fst (restOfJob E j job skel len t pos r (c # cs) st) = (if abortRefused E j then Failed DbError else Aborted)"
    by (simp add: R abortRefused_def)
  show "chunksT (snd (restOfJob E j job skel len t pos r (c # cs) st)) = chunksT st"
    "llmLog (snd (restOfJob E j job skel len t pos r (c # cs) st)) = llmLog st"
    "statusLog (snd (restOfJob E j job skel len t pos r (c # cs) st)) = statusLog st"
    by (simp_all add: R peel)
  show "outbox (snd (restOfJob E j job skel len t pos r (c # cs) st))
       = outbox st @ (if abortRefused E j then []
                      else [Broadcast j (abortNotice j (selectDocument j st) (chunksT st))])"
    by (simp add: R handleAbort_notice)
  show "activeJobs (snd (restOfJob E j job skel len t pos r (c # cs) st)) j = None" if "\<not> abortRefused E j"
    using that handleAbort_registry [of E j st] by (simp add: R abortRefused_def)
  show "map_option j_status (selectDocument j (snd (restOfJob E j job skel len t pos r (c # cs) st)))
         = map_option (\<lambda>x. J_aborted) (selectDocument j st)"
    if "\<not> dbFails E (UpdateDocument j (SetStatus J_aborted))"
    using handleAbort_status [OF that, of st] by (simp add: R)
qed

lemma abort_in_flight:
  assumes run: "flagOf j st = Some False"
    and arr: "abortArrives E (DuringChunk pos)"
    and ok: "fst (chunkStep E j job skel c (chunksT st)) = Inr out"
    and more: "cs \<noteq> []"
  shows "fst (restOfJob E j job skel len t pos r (c # cs) st) = (if abortRefused E j then Failed DbError else Aborted)"
    "chunksT (snd (restOfJob E j job skel len t pos r (c # cs) st)) = snd (chunkStep E j job skel c (chunksT st))"
    "llmLog (snd (restOfJob E j job skel len t pos r (c # cs) st)) = llmLog st @ [Reconstruct (c_chunkIndex c)]"
    "\<exists>m. chunkCompletes j (outbox (snd (restOfJob E j job skel len t pos r (c # cs) st)))
            = chunkCompletes j (outbox st) @ [m]
         \<and> m_chunkIndex m = c_chunkIndex c \<and> m_chunkText m = out"
    "abortNotices j (outbox (snd (restOfJob E j job skel len t pos r (c # cs) st)))
       = abortNotices j (outbox st)
         @ (if abortRefused E j then []
            else [abortNotice j (selectDocument j st) (snd (chunkStep E j job skel c (chunksT st)))])"
    "\<exists>m mid. outbox (snd (restOfJob E j job skel len t pos r (c # cs) st))
        = outbox st @ Direct (AbortAcknowledged j) # Broadcast j (ChunkComplete j m) # mid
          @ (if abortRefused E j then []
             else [Broadcast j (abortNotice j (selectDocument j st) (snd (chunkStep E j job skel c (chunksT st))))])"
    "\<not> abortRefused E j \<Longrightarrow> activeJobs (snd (restOfJob E j job skel len t pos r (c # cs) st)) j = None"
    "\<not> dbFails E (UpdateDocument j (SetStatus J_aborted)) \<Longrightarrow>
       map_option j_status (selectDocument j (snd (restOfJob E j job skel len t pos r (c # cs) st)))
         = map_option (\<lambda>x. J_aborted) (selectDocument j st)"
proof -
  let ?p = "snd (processChunk E j job skel len pos t c r st)"
  note R = restOfJob_abort_next [OF run arr ok more, of len t r]
  have nt: "abortNotice j (selectDocument j ?p) T = abortNotice j (selectDocument j st) T" for T
    by (rule abortNotice_static) (rule processChunk_select)
  show "fst (restOfJob E j job skel len t pos r (c # cs) st) = (if abortRefused E j then Failed DbError else Aborted)"
    by (simp add: R abortRefused_def)
  show "chunksT (snd (restOfJob E j job skel len t pos r (c # cs) st)) = snd (chunkStep E j job skel c (chunksT st))"
    by (simp add: R peel processChunk_table)
  have "\<not> isl (priorDeltasOf E j (c_chunkIndex c) (markedTable E c (chunksT st)))"
    using ok by (rule chunkStep_Inr_prior)
  then show "llmLog (snd (restOfJob E j job skel len t pos r (c # cs) st)) = llmLog st @ [Reconstruct (c_chunkIndex c)]"
    by (simp add: R peel processChunk_llmLog)
  show "\<exists>m. chunkCompletes j (outbox (snd (restOfJob E j job skel len t pos r (c # cs) st)))
            = chunkCompletes j (outbox st) @ [m]
         \<and> m_chunkIndex m = c_chunkIndex c \<and> m_chunkText m = out"
    using processChunk_observed(1) [OF ok, of len pos t r] by (simp add: R handleAbort_observed)
  show "abortNotices j (outbox (snd (restOfJob E j job skel len t pos r (c # cs) st)))
       = abortNotices j (outbox st)
         @ (if abortRefused E j then []
            else [abortNotice j (selectDocument j st) (snd (chunkStep E j job skel c (chunksT st)))])"
    by (simp add: R handleAbort_notice observed_append observed_single processChunk_observed(2) [OF ok]
        nt processChunk_table abortNotice_def [of j "selectDocument j st"])
  from abort_during_chunk(3) [OF run arr ok, of len t r]
  obtain m rest where m: "outbox ?p = outbox st @ Direct (AbortAcknowledged j) # Broadcast j (ChunkComplete j m) # rest"
    by blast
  show "\<exists>m mid. outbox (snd (restOfJob E j job skel len t pos r (c # cs) st))
        = outbox st @ Direct (AbortAcknowledged j) # Broadcast j (ChunkComplete j m) # mid
          @ (if abortRefused E j then []
             else [Broadcast j (abortNotice j (selectDocument j st) (snd (chunkStep E j job skel c (chunksT st))))])"
    by (simp add: R handleAbort_notice m nt processChunk_table)
  show "activeJobs (snd (restOfJob E j job skel len t pos r (c # cs) st)) j = None" if "\<not> abortRefused E j"
    using that handleAbort_registry [of E j ?p] by (simp add: R abortRefused_def)
  show "map_option j_status (selectDocument j (snd (restOfJob E j job skel len t pos r (c # cs) st)))
         = map_option (\<lambda>x. J_aborted) (selectDocument j st)"
    if "\<not> dbFails E (UpdateDocument j (SetStatus J_aborted))"
    using handleAbort_status [OF that, of ?p] status_static [OF processChunk_select [of j E job skel len pos t c r st]]
    by (simp add: R)
qed

lemma abort_in_last_chunk:
  assumes run: "flagOf j st = Some False"
    and arr: "abortArrives E (DuringChunk pos)"
    and ok: "fst (chunkStep E j job skel c (chunksT st)) = Inr out"
  shows "fst (restOfJob E j job skel len t pos r [c] st)
           = stitchOutcome E j skel (snd (chunkStep E j job skel c (chunksT st)))"
    "\<exists>m. chunkCompletes j (outbox (snd (restOfJob E j job skel len t pos r [c] st)))
            = chunkCompletes j (outbox st) @ [m]
         \<and> m_chunkIndex m = c_chunkIndex c \<and> m_chunkText m = out"
    "abortNotices j (outbox (snd (restOfJob E j job skel len t pos r [c] st))) = abortNotices j (outbox st)"
    "Direct (AbortAcknowledged j) \<in> set (outbox (snd (restOfJob E j job skel len t pos r [c] st)))"
    "\<not> dbFails E (UpdateDocument j SetFinal) \<Longrightarrow>
     stitchOutcome E j skel (snd (chunkStep E j job skel c (chunksT st))) = Completed \<Longrightarrow>
       map_option j_status (selectDocument j (snd (restOfJob E j job skel len t pos r [c] st)))
         = map_option (\<lambda>x. J_complete) (selectDocument j st)"
proof -
  let ?p = "snd (processChunk E j job skel len pos t c r st)"
  note R = restOfJob_abort_last [OF run arr ok, of len t r]
  show "fst (restOfJob E j job skel len t pos r [c] st)
           = stitchOutcome E j skel (snd (chunkStep E j job skel c (chunksT st)))"
    by (simp add: R stitchPhase_fst stitchOutcome_def processChunk_table)
  show "\<exists>m. chunkCompletes j (outbox (snd (restOfJob E j job skel len t pos r [c] st)))
            = chunkCompletes j (outbox st) @ [m]
         \<and> m_chunkIndex m = c_chunkIndex c \<and> m_chunkText m = out"
    using processChunk_observed(1) [OF ok, of len pos t r] by (simp add: R stitchPhase_observed)
  show "abortNotices j (outbox (snd (restOfJob E j job skel len t pos r [c] st))) = abortNotices j (outbox st)"
    by (simp add: R stitchPhase_observed processChunk_observed(2) [OF ok])
  from abort_during_chunk(3) [OF run arr ok, of len t r]
  have "Direct (AbortAcknowledged j) \<in> set (outbox ?p)" by auto
  moreover obtain new where "outbox (snd (stitchPhase E j job skel t ?p)) = outbox ?p @ new"
    using stitchPhase_outbox_grows by blast
  ultimately show "Direct (AbortAcknowledged j) \<in> set (outbox (snd (restOfJob E j job skel len t pos r [c] st)))"
    by (simp add: R)
  assume up: "\<not> dbFails E (UpdateDocument j SetFinal)"
    and c: "stitchOutcome E j skel (snd (chunkStep E j job skel c (chunksT st))) = Completed"
  from c have db: "\<not> dbFails E (SelectCompleteChunks j)"
    by (auto simp: stitchOutcome_def split: if_splits)
  from c db obtain fo sr where sv: "stitchAndValidate E skel (stitchInput j (chunksT ?p)) = Inr (fo, sr)"
    by (cases "stitchAndValidate E skel (stitchInput j (chunksT ?p))")
       (auto simp: stitchOutcome_def processChunk_table)
  from stitchPhase_complete(3) [OF db sv up, of job t]
  show "map_option j_status (selectDocument j (snd (restOfJob E j job skel len t pos r [c] st)))
         = map_option (\<lambda>x. J_complete) (selectDocument j st)"
    using status_static [OF processChunk_select [of j E job skel len pos t c r st]] by (simp add: R)
qed

lemma abort_after_loop:
  "fst (restOfJob E j job skel len t pos r [] st) = stitchOutcome E j skel (chunksT st)"
  "chunkCompletes j (outbox (snd (restOfJob E j job skel len t pos r [] st))) = chunkCompletes j (outbox st)"
  "abortNotices j (outbox (snd (restOfJob E j job skel len t pos r [] st))) = abortNotices j (outbox st)"
  by (simp_all add: restOfJob_Nil stitchPhase_fst stitchOutcome_def stitchPhase_observed)

lemma abort_during_stitch:
  assumes "\<not> dbFails E (SelectCompleteChunks j)" "abortArrives E DuringStitch" "flagOf j st \<noteq> None"
  shows "Direct (AbortAcknowledged j) \<in> set (outbox (snd (restOfJob E j job skel len t pos r [] st)))"
proof -
  obtain js where "activeJobs st j = Some js" using assms(3) by (auto simp: flagOf_def)
  then show ?thesis
    using assms(1,2)
    by (simp add: restOfJob_Nil stitchPhase_def Let_def guarded_if peel yield_outbox
        split: sum.split prod.split)
qed

text \<open>
  C2, amended. \<open>restOfJob\<close> is the worker from an iteration of the chunk loop on. The abort
  flag is read only at the head of an iteration (and once before the loop).

  (1) When the flag is set at the head of an iteration, no chunk is touched any more: the
  chunk table and the logs of calls and status writes stay as they are, no
  \<open>chunk_complete\<close> is emitted, and the only message is \<open>job_aborted\<close> with the number of
  complete chunks, the total, and their outputs joined by blank lines; the registry entry is
  deleted and the job row is set to \<open>aborted\<close> unless that update is refused. If one of the
  two selects of \<open>handleAbort\<close> is refused, nothing is sent and the job fails instead.

  (2) When \<open>abort_job\<close> sets the flag while a chunk is being processed, that chunk is still
  generated and written, and exactly one more \<open>chunk_complete\<close> is emitted, for that chunk,
  after the acknowledgement. If a further chunk remains, the abort is then handled as in (1)
  before that chunk is touched.

  (3) If the chunk in flight is the last one, the flag is never read again: the worker goes
  on to the stitching phase and ends as that phase ends, complete when the stitcher
  succeeds; no \<open>job_aborted\<close> is emitted although the abort was acknowledged.

  (4) After the loop (an abort that arrives during stitching, or a flag still set when the
  loop has ended), the stitching phase reads no flag: it emits no \<open>job_aborted\<close> and ends
  as the stitcher decides; an abort that arrives during stitching is acknowledged all the
  same.

  The first conjunct says where \<open>restOfJob\<close> sits in \<open>processJobAsync\<close>.
\<close>

theorem C2_abort_handled_at_next_loop_head:
  "processJobBody E j st
     = (case startWorker E j st of
          Inl x \<Rightarrow> x
        | Inr ((row, startedAt, sk, chunks), st6) \<Rightarrow>
            restOfJob E j row sk (length chunks) startedAt 0 0 chunks st6)
   \<and> (flagOf j st = Some True \<longrightarrow>
      fst (restOfJob E j job skel len t pos r (c # cs) st)
        = (if abortRefused E j then Failed DbError else Aborted)
    \<and> chunksT (snd (restOfJob E j job skel len t pos r (c # cs) st)) = chunksT st
    \<and> llmLog (snd (restOfJob E j job skel len t pos r (c # cs) st)) = llmLog st
    \<and> statusLog (snd (restOfJob E j job skel len t pos r (c # cs) st)) = statusLog st
    \<and> outbox (snd (restOfJob E j job skel len t pos r (c # cs) st))
        = outbox st @ (if abortRefused E j then []
                       else [Broadcast j (abortNotice j (selectDocument j st) (chunksT st))])
    \<and> (\<not> abortRefused E j \<longrightarrow>
         activeJobs (snd (restOfJob E j job skel len t pos r (c # cs) st)) j = None)
    \<and> (\<not> dbFails E (UpdateDocument j (SetStatus J_aborted)) \<longrightarrow>
         map_option j_status (selectDocument j (snd (restOfJob E j job skel len t pos r (c # cs) st)))
           = map_option (\<lambda>x. J_aborted) (selectDocument j st)))
   \<and> (flagOf j st = Some False \<and> abortArrives E (DuringChunk pos)
        \<and> fst (chunkStep E j job skel c (chunksT st)) = Inr out \<and> cs \<noteq> [] \<longrightarrow>
      fst (restOfJob E j job skel len t pos r (c # cs) st)
        = (if abortRefused E j then Failed DbError else Aborted)
    \<and> chunksT (snd (restOfJob E j job skel len t pos r (c # cs) st))
        = snd (chunkStep E j job skel c (chunksT st))
    \<and> llmLog (snd (restOfJob E j job skel len t pos r (c # cs) st))
        = llmLog st @ [Reconstruct (c_chunkIndex c)]
    \<and> (\<exists>m. chunkCompletes j (outbox (snd (restOfJob E j job skel len t pos r (c # cs) st)))
              = chunkCompletes j (outbox st) @ [m]
           \<and> m_chunkIndex m = c_chunkIndex c \<and> m_chunkText m = out)
    \<and> abortNotices j (outbox (snd (restOfJob E j job skel len t pos r (c # cs) st)))
        = abortNotices j (outbox st)
          @ (if abortRefused E j then []
             else [abortNotice j (selectDocument j st) (snd (chunkStep E j job skel c (chunksT st)))])
    \<and> (\<exists>m mid. outbox (snd (restOfJob E j job skel len t pos r (c # cs) st))
          = outbox st @ Direct (AbortAcknowledged j) # Broadcast j (ChunkComplete j m) # mid
            @ (if abortRefused E j then []
               else [Broadcast j (abortNotice j (selectDocument j st)
                                    (snd (chunkStep E j job skel c (chunksT st))))]))
    \<and> (\<not> abortRefused E j \<longrightarrow>
         activeJobs (snd (restOfJob E j job skel len t pos r (c # cs) st)) j = None)
    \<and> (\<not> dbFails E (UpdateDocument j (SetStatus J_aborted)) \<longrightarrow>
         map_option j_status (selectDocument j (snd (restOfJob E j job skel len t pos r (c # cs) st)))
           = map_option (\<lambda>x. J_aborted) (selectDocument j st)))
   \<and> (flagOf j st = Some False \<and> abortArrives E (DuringChunk pos)
        \<and> fst (chunkStep E j job skel c (chunksT st)) = Inr out \<longrightarrow>
      fst (restOfJob E j job skel len t pos r [c] st)
        = stitchOutcome E j skel (snd (chunkStep E j job skel c (chunksT st)))
    \<and> (\<exists>m. chunkCompletes j (outbox (snd (restOfJob E j job skel len t pos r [c] st)))
              = chunkCompletes j (outbox st) @ [m]
           \<and> m_chunkIndex m = c_chunkIndex c \<and> m_chunkText m = out)
    \<and> abortNotices j (outbox (snd (restOfJob E j job skel len t pos r [c] st)))
        = abortNotices j (outbox st)
    \<and> Direct (AbortAcknowledged j) \<in> set (outbox (snd (restOfJob E j job skel len t pos r [c] st)))
    \<and> (\<not> dbFails E (UpdateDocument j SetFinal)
        \<and> stitchOutcome E j skel (snd (chunkStep E j job skel c (chunksT st))) = Completed \<longrightarrow>
         map_option j_status (selectDocument j (snd (restOfJob E j job skel len t pos r [c] st)))
           = map_option (\<lambda>x. J_complete) (selectDocument j st)))
   \<and> fst (restOfJob E j job skel len t pos r [] st) = stitchOutcome E j skel (chunksT st)
   \<and> chunkCompletes j (outbox (snd (restOfJob E j job skel len t pos r [] st)))
       = chunkCompletes j (outbox st)
   \<and> abortNotices j (outbox (snd (restOfJob E j job skel len t pos r [] st)))
       = abortNotices j (outbox st)
   \<and> (\<not> dbFails E (SelectCompleteChunks j) \<and> abortArrives E DuringStitch \<and> flagOf j st \<noteq> None
        \<longrightarrow>
      Direct (AbortAcknowledged j) \<in> set (outbox (snd (restOfJob E j job skel len t pos r [] st))))"
proof (intro conjI impI; (elim conjE)?)
  show "processJobBody E j st
     = (case startWorker E j st of
          Inl x \<Rightarrow> x
        | Inr ((row, startedAt, sk, chunks), st6) \<Rightarrow>
            restOfJob E j row sk (length chunks) startedAt 0 0 chunks st6)"
    by (rule processJobBody_restOfJob)
  show "Direct (AbortAcknowledged j) \<in> set (outbox (snd (restOfJob E j job skel len t pos r [] st)))"
    if "\<not> dbFails E (SelectCompleteChunks j)" "abortArrives E DuringStitch" "flagOf j st \<noteq> None"
    using that by (rule abort_during_stitch)
  show "fst (restOfJob E j job skel len t pos r [] st) = stitchOutcome E j skel (chunksT st)"
    "chunkCompletes j (outbox (snd (restOfJob E j job skel len t pos r [] st))) = chunkCompletes j (outbox st)"
    "abortNotices j (outbox (snd (restOfJob E j job skel len t pos r [] st))) = abortNotices j (outbox st)"
    by (rule abort_after_loop)+
qed (use abort_at_head [of j st E job skel len t pos r c cs]
      abort_in_flight [of j st E pos job skel c out cs len t r]
      abort_in_last_chunk [of j st E pos job skel c out len t r] in simp_all)

lemma abortDuring_step1:
  "fst (chunkStep (abortDuring k) 1 sampleJob (Skeleton []) sampleChunk1 [sampleChunk0, sampleChunk1])
     = Inr (lit ''c'')"
  by (simp add: chunkStep_def markedTable_def priorDeltasOf_def abortDuring_fields sampleChunk_fields Let_def)

lemma abortJob_sample:
  "flagOf 1 (abortJob 1 sampleState) = Some True" "llmLog (abortJob 1 sampleState) = []"
  "outbox (abortJob 1 sampleState) = [Direct (AbortAcknowledged 1)]"
proof -
  show "flagOf 1 (abortJob 1 sampleState) = Some True" "llmLog (abortJob 1 sampleState) = []"
    by (simp_all add: peel sampleState_fields del: One_nat_def)
  show "outbox (abortJob 1 sampleState) = [Direct (AbortAcknowledged 1)]"
    by (simp add: abortJob_def peel sampleState_fields outbox_sampleState del: One_nat_def)
qed

theorem C2_abort_witness:
  "flagOf 1 sampleState = Some False \<and> abortArrives (abortDuring 0) (DuringChunk 0)
   \<and> fst (restOfJob (abortDuring 0) 1 sampleJob (Skeleton []) 2 0 0 0 [sampleChunk0, sampleChunk1] sampleState)
       = Aborted
   \<and> map m_chunkIndex (chunkCompletes 1 (outbox (snd (restOfJob (abortDuring 0) 1 sampleJob (Skeleton []) 2 0 0 0
                            [sampleChunk0, sampleChunk1] sampleState)))) = [0]
   \<and> abortNotices 1 (outbox (snd (restOfJob (abortDuring 0) 1 sampleJob (Skeleton []) 2 0 0 0
                            [sampleChunk0, sampleChunk1] sampleState)))
       = [JobAborted 1 1 2 (lit ''a b'') (countWords (lit ''a b''))]
   \<and> activeJobs (snd (restOfJob (abortDuring 0) 1 sampleJob (Skeleton []) 2 0 0 0
                         [sampleChunk0, sampleChunk1] sampleState)) 1 = None
   \<and> map_option j_status (selectDocument 1 (snd (restOfJob (abortDuring 0) 1 sampleJob (Skeleton []) 2 0 0 0
                         [sampleChunk0, sampleChunk1] sampleState))) = Some J_aborted
   \<and> abortArrives (abortDuring 1) (DuringChunk 1)
   \<and> fst (restOfJob (abortDuring 1) 1 sampleJob (Skeleton []) 2 0 1 0 [sampleChunk1] sampleState) = Completed
   \<and> abortNotices 1 (outbox (snd (restOfJob (abortDuring 1) 1 sampleJob (Skeleton []) 2 0 1 0
                            [sampleChunk1] sampleState))) = []
   \<and> flagOf 1 (abortJob 1 sampleState) = Some True
   \<and> fst (restOfJob stubEnv 1 sampleJob (Skeleton []) 2 0 0 0 [sampleChunk0, sampleChunk1]
             (abortJob 1 sampleState)) = Aborted
   \<and> llmLog (snd (restOfJob stubEnv 1 sampleJob (Skeleton []) 2 0 0 0 [sampleChunk0, sampleChunk1]
                     (abortJob 1 sampleState))) = []
   \<and> chunkCompletes 1 (outbox (snd (restOfJob stubEnv 1 sampleJob (Skeleton []) 2 0 0 0
                            [sampleChunk0, sampleChunk1] (abortJob 1 sampleState)))) = []"
proof -
  let ?a = "snd (restOfJob (abortDuring 0) 1 sampleJob (Skeleton []) 2 0 0 0 [sampleChunk0, sampleChunk1] sampleState)"
  have ok0: "fst (chunkStep (abortDuring 0) 1 sampleJob (Skeleton []) sampleChunk0 (chunksT sampleState))
      = Inr (lit ''a b'')"
    by (simp add: sampleState_fields abortDuring_step0 del: One_nat_def)
  have ok1: "fst (chunkStep (abortDuring 1) 1 sampleJob (Skeleton []) sampleChunk1 (chunksT sampleState))
      = Inr (lit ''c'')"
    by (simp add: sampleState_fields abortDuring_step1 del: One_nat_def)
  have arr: "abortArrives (abortDuring 0) (DuringChunk 0)" "abortArrives (abortDuring 1) (DuringChunk 1)"
    by (simp_all add: abortDuring_fields)
  have nr: "\<not> abortRefused (abortDuring 0) 1" "\<not> abortRefused stubEnv 1"
    "\<not> dbFails (abortDuring 0) (UpdateDocument 1 (SetStatus J_aborted))"
    by (simp_all add: abortRefused_def abortDuring_fields stubEnv_fields)
  have notice: "abortNotice 1 (selectDocument 1 sampleState)
       (snd (chunkStep (abortDuring 0) 1 sampleJob (Skeleton []) sampleChunk0 (chunksT sampleState)))
     = JobAborted 1 1 2 (lit ''a b'') (countWords (lit ''a b''))"
    by (simp add: abortNotice_def completeRows_def sampleState_fields abortDuring_step0 writeRow_def
        sampleChunk_fields sample_select sampleJob_fields partialOutputOf_def
        del: One_nat_def)
  have so: "stitchOutcome (abortDuring 1) 1 (Skeleton []) T = Completed" for T
    by (simp add: stitchOutcome_def abortDuring_fields stubEnv_def)
  note A = C2_abort_handled_at_next_loop_head [where j = 1 and st = sampleState and E = "abortDuring 0"
      and job = sampleJob and skel = "Skeleton []" and len = 2 and t = 0 and pos = 0 and r = 0
      and c = sampleChunk0 and cs = "[sampleChunk1]" and out = "lit ''a b''"]
  note B = C2_abort_handled_at_next_loop_head [where j = 1 and st = sampleState and E = "abortDuring 1"
      and job = sampleJob and skel = "Skeleton []" and len = 2 and t = 0 and pos = 1 and r = 0
      and c = sampleChunk1 and cs = "[]" and out = "lit ''c''"]
  note C = C2_abort_handled_at_next_loop_head [where j = 1 and st = "abortJob 1 sampleState" and E = stubEnv
      and job = sampleJob and skel = "Skeleton []" and len = 2 and t = 0 and pos = 0 and r = 0
      and c = sampleChunk0 and cs = "[sampleChunk1]" and out = "lit ''a b''"]
  have a: "fst (restOfJob (abortDuring 0) 1 sampleJob (Skeleton []) 2 0 0 0 [sampleChunk0, sampleChunk1] sampleState)
       = Aborted"
    "abortNotices 1 (outbox ?a) = [JobAborted 1 1 2 (lit ''a b'') (countWords (lit ''a b''))]"
    "activeJobs ?a 1 = None" "map_option j_status (selectDocument 1 ?a) = Some J_aborted"
    using A sampleState_fields(7) arr(1) ok0 nr(1,3) notice
    by (simp_all add: outbox_sampleState observed_single sample_select del: One_nat_def)
  have "\<exists>m. chunkCompletes 1 (outbox ?a) = [m] \<and> m_chunkIndex m = 0"
    using A sampleState_fields(7) arr(1) ok0
    by (simp add: outbox_sampleState observed_single sampleChunk_fields del: One_nat_def) blast
  then have a2: "map m_chunkIndex (chunkCompletes 1 (outbox ?a)) = [0]" by auto
  have b: "fst (restOfJob (abortDuring 1) 1 sampleJob (Skeleton []) 2 0 1 0 [sampleChunk1] sampleState) = Completed"
    "abortNotices 1 (outbox (snd (restOfJob (abortDuring 1) 1 sampleJob (Skeleton []) 2 0 1 0
                            [sampleChunk1] sampleState))) = []"
    using B sampleState_fields(7) arr(2) ok1
    by (simp_all add: so outbox_sampleState observed_single del: One_nat_def)
  have c: "fst (restOfJob stubEnv 1 sampleJob (Skeleton []) 2 0 0 0 [sampleChunk0, sampleChunk1]
             (abortJob 1 sampleState)) = Aborted"
    "llmLog (snd (restOfJob stubEnv 1 sampleJob (Skeleton []) 2 0 0 0 [sampleChunk0, sampleChunk1]
                     (abortJob 1 sampleState))) = []"
    "chunkCompletes 1 (outbox (snd (restOfJob stubEnv 1 sampleJob (Skeleton []) 2 0 0 0
                            [sampleChunk0, sampleChunk1] (abortJob 1 sampleState)))) = []"
    using C abortJob_sample nr(2)
    by (simp_all add: observed_single abortNotice_def del: One_nat_def)
  show ?thesis
    using sampleState_fields(7) arr abortJob_sample(1) a a2 b c by blast
qed

subsection \<open>Starting a job (C4, C6)\<close>

lemma trim_id:
  assumes "s \<noteq> []" "\<not> isWhite (hd s)" "\<not> isWhite (last s)"
  shows "trim s = s"
proof -
  have d: "dropWhile isWhite xs = xs" if "xs \<noteq> []" "\<not> isWhite (hd xs)" for xs
    using that by (cases xs) auto
  have "dropWhile isWhite (rev s) = rev s"
    using assms(1,3) by (intro d) (simp_all add: hd_rev)
  then show ?thesis using d [OF assms(1,2)] by (simp add: trim_def)
qed

lemma white_32: "isWhite 32" "\<not> isWhite 97"
  by (simp_all add: isWhite_def)

lemma splitWhite_words:
  "splitWhite False cur (concat (replicate n [32, 97])) = cur # replicate n [97]"
  by (induction n arbitrary: cur) (simp_all add: white_32)

lemma last_words: "last (wordsText n) = 97"
  by (induction n) (simp_all add: wordsText_def)

lemma countWords_wordsText: "countWords (wordsText n) = Suc n"
proof -
  have "trim (wordsText n) = wordsText n"
    by (rule trim_id) (simp_all add: last_words white_32, simp_all add: wordsText_def white_32)
  then show ?thesis
    using splitWhite_words [of "[97]" n]
    by (simp add: countWords_def) (simp add: wordsText_def white_32)
qed

text \<open>The columns written by \<open>startStreamingJob\<close> are left alone by the whole worker.\<close>

lemma stitchPhase_static:
  "map jobStatic (documents (snd (stitchPhase E j job skel t st))) = map jobStatic (documents st)"
  by (simp add: stitchPhase_def Let_def guarded_if peel comp_def jobStatic_def split: sum.split prod.split)

lemma failJob_static:
  "map jobStatic (documents (failJob E j e st)) = map jobStatic (documents st)"
  "chunksT (failJob E j e st) = chunksT st"
  by (simp_all add: failJob_def guarded_if peel comp_def jobStatic_def)

lemma chunkLoop_static:
  "map chunkStatic (chunksT (snd (chunkLoop E j job skel len t pos r cs st))) = map chunkStatic (chunksT st)"
  using chunkLoop_frame [of cs st E j job skel len t pos r] by (simp add: tableRel_static)

lemma processJobBody_static:
  "map chunkStatic (chunksT (snd (processJobBody E j st))) = map chunkStatic (chunksT st)"
  "map jobStatic (documents (snd (processJobBody E j st))) = map jobStatic (documents st)"
proof -
  show "map chunkStatic (chunksT (snd (processJobBody E j st))) = map chunkStatic (chunksT st)"
  proof (cases "startWorker E j st")
    case (Inl q)
    then show ?thesis using startWorker_Inl(1) [of E j st "fst q" "snd q"]
      by (simp add: processJobBody_def)
  next
    case (Inr q)
    obtain job t skel cs a6 where q: "q = ((job, t, skel, cs), a6)" by (cases q) auto
    note A = startWorker_Inr [OF Inr [unfolded q]]
    show ?thesis
      using chunkLoop_static [of E j job skel "length cs" t 0 0 cs a6]
      by (simp add: processJobBody_def Inr q split_beta A(8) stitchPhase_proj split: loop_end.split)
  qed
  show "map jobStatic (documents (snd (processJobBody E j st))) = map jobStatic (documents st)"
  proof (cases "startWorker E j st")
    case (Inl q)
    then show ?thesis using startWorker_Inl(2) [of E j st "fst q" "snd q"]
      by (simp add: processJobBody_def)
  next
    case (Inr q)
    obtain job t skel cs a6 where q: "q = ((job, t, skel, cs), a6)" by (cases q) auto
    note A = startWorker_Inr [OF Inr [unfolded q]]
    show ?thesis
      using chunkLoop_documents [of E j job skel "length cs" t 0 0 cs a6]
      by (simp add: processJobBody_def Inr q split_beta A(12) stitchPhase_static split: loop_end.split)
  qed
qed

lemma processJobAsync_static:
  "map chunkStatic (chunksT (processJobAsync E j st)) = map chunkStatic (chunksT st)"
  "map jobStatic (documents (processJobAsync E j st)) = map jobStatic (documents st)"
  using processJobBody_static [of E j st]
  by (simp_all add: processJobAsync_def split_beta failJob_static split: outcome.split)

lemma insertChunkRow_guarded:
  "chunksT (guarded E s (\<lambda>x. insertChunkRow (mk x) x) st)
     = (if dbFails E s then chunksT st else chunksT st @ [mk st])"
  "documents (guarded E s (\<lambda>x. insertChunkRow (mk x) x) st) = documents st"
  "activeJobs (guarded E s (\<lambda>x. insertChunkRow (mk x) x) st) = activeJobs st"
  "outbox (guarded E s (\<lambda>x. insertChunkRow (mk x) x) st) = outbox st"
  "now (guarded E s (\<lambda>x. insertChunkRow (mk x) x) st) = now st"
  by (simp_all add: guarded_if insertChunkRow_def peel)

lemma insertChunks_frame:
  "documents (insertChunks E j cfg i cks st) = documents st
   \<and> activeJobs (insertChunks E j cfg i cks st) = activeJobs st
   \<and> outbox (insertChunks E j cfg i cks st) = outbox st
   \<and> now (insertChunks E j cfg i cks st) = now st"
proof (induction cks arbitrary: i st)
  case Nil
  then show ?case by simp
next
  case (Cons a cks)
  then show ?case by (cases a) (simp add: Let_def insertChunkRow_guarded)
qed

lemma insertChunks_table:
  "\<exists>rows. chunksT (insertChunks E j cfg i cks st) = chunksT st @ rows
     \<and> map (\<lambda>c. (c_chunkIndex c, c_chunkInputText c, c_chunkInputWords c)) rows
         = map (\<lambda>(k, txt, w). (k, txt, w)) (filter (\<lambda>(k, x). \<not> dbFails E (InsertChunk k)) (enumerate i cks))
     \<and> (\<forall>c\<in>set rows. c_documentId c = j \<and> c_status c = C_pending
           \<and> c_targetWords c = jsRound (dmul (of_nat (c_chunkInputWords c)) (lengthRatio cfg))
           \<and> c_minWords c = \<lfloor>of_int (c_targetWords c) * (85 / 100 :: rat)\<rfloor>
           \<and> c_maxWords c = \<lceil>of_int (c_targetWords c) * (115 / 100 :: rat)\<rceil>)"
proof (induction cks arbitrary: i st)
  case Nil
  then show ?case by simp
next
  case (Cons a cks)
  obtain tx w where a: "a = (tx, w)" by (cases a) auto
  let ?mk = "\<lambda>s. newChunkRow (nextChunkId s) j i tx w (jsRound (dmul (of_nat w) (lengthRatio cfg)))"
  let ?st1 = "guarded E (InsertChunk i) (\<lambda>s. insertChunkRow (?mk s) s) st"
  from Cons.IH [of "Suc i" ?st1] obtain rows where
    r: "chunksT (insertChunks E j cfg (Suc i) cks ?st1) = chunksT ?st1 @ rows"
      "map (\<lambda>c. (c_chunkIndex c, c_chunkInputText c, c_chunkInputWords c)) rows
         = map (\<lambda>(k, txt, w). (k, txt, w)) (filter (\<lambda>(k, x). \<not> dbFails E (InsertChunk k)) (enumerate (Suc i) cks))"
      "\<forall>c\<in>set rows. c_documentId c = j \<and> c_status c = C_pending
           \<and> c_targetWords c = jsRound (dmul (of_nat (c_chunkInputWords c)) (lengthRatio cfg))
           \<and> c_minWords c = \<lfloor>of_int (c_targetWords c) * (85 / 100 :: rat)\<rfloor>
           \<and> c_maxWords c = \<lceil>of_int (c_targetWords c) * (115 / 100 :: rat)\<rceil>"
    by blast
  let ?new = "if dbFails E (InsertChunk i) then [] else [?mk st]"
  have t1: "chunksT ?st1 = chunksT st @ ?new" by (simp add: insertChunkRow_guarded)
  have "chunksT (insertChunks E j cfg i (a # cks) st) = chunksT st @ (?new @ rows)"
    by (simp add: a Let_def r(1) t1)
  moreover have "map (\<lambda>c. (c_chunkIndex c, c_chunkInputText c, c_chunkInputWords c)) (?new @ rows)
         = map (\<lambda>(k, txt, w). (k, txt, w)) (filter (\<lambda>(k, x). \<not> dbFails E (InsertChunk k)) (enumerate i (a # cks)))"
    by (simp add: a r(2) newChunkRow_def)
  moreover have "\<forall>c\<in>set (?new @ rows). c_documentId c = j \<and> c_status c = C_pending
           \<and> c_targetWords c = jsRound (dmul (of_nat (c_chunkInputWords c)) (lengthRatio cfg))
           \<and> c_minWords c = \<lfloor>of_int (c_targetWords c) * (85 / 100 :: rat)\<rfloor>
           \<and> c_maxWords c = \<lceil>of_int (c_targetWords c) * (115 / 100 :: rat)\<rceil>"
    using r(3) by (auto simp: newChunkRow_def)
  ultimately show ?case by blast
qed

lemma drop_static:
  assumes "map chunkStatic T' = map chunkStatic (T @ rows)"
  shows "map chunkStatic (drop (length T) T') = map chunkStatic rows"
proof -
  have "map chunkStatic (drop (length T) T') = drop (length T) (map chunkStatic T')" by (simp add: drop_map)
  also have "\<dots> = map chunkStatic rows" by (simp add: assms)
  finally show ?thesis .
qed

lemma startStreamingJob_accept:
  assumes "500 < countWords t" "countWords t \<le> 50000" "\<not> dbFails E InsertDocument"
  shows "startStreamingJob E t ci ap rl st
     = processJobAsync E (nextDocumentId st)
         (sendToClient (JobStarted (nextDocumentId st) (length (smartChunk E t)) (countWords t)
                          (targetMid (lengthConfigFor E (countWords t) ci))
                          (lengthMode (lengthConfigFor E (countWords t) ci))
                          (lengthRatio (lengthConfigFor E (countWords t) ci)))
            (registerJob (nextDocumentId st)
               (insertChunks E (nextDocumentId st) (lengthConfigFor E (countWords t) ci) 0 (smartChunk E t)
                  (st\<lparr>documents := documents st @ [newJobRow (nextDocumentId st) t (countWords t)
                                 (lengthConfigFor E (countWords t) ci) (length (smartChunk E t)) ap rl ci (now st)],
                      nextDocumentId := Suc (nextDocumentId st)\<rparr>))))"
  using assms by (simp add: startStreamingJob_def Let_def)

lemma startStreamingJob_documents:
  assumes "500 < countWords t" "countWords t \<le> 50000" "\<not> dbFails E InsertDocument"
  shows "map jobStatic (documents (startStreamingJob E t ci ap rl st))
     = map jobStatic (documents st)
       @ [jobStatic (newJobRow (nextDocumentId st) t (countWords t)
            (lengthConfigFor E (countWords t) ci) (length (smartChunk E t)) ap rl ci (now st))]"
  by (simp add: startStreamingJob_accept [OF assms] processJobAsync_static peel insertChunks_frame)

lemma startStreamingJob_reject:
  "countWords t \<le> 500 \<Longrightarrow>
     startStreamingJob E t ci ap rl st
       = st\<lparr>outbox := outbox st @ [Direct (ErrorMsg (DocumentTooShort (countWords t)))]\<rparr>"
  "50000 < countWords t \<Longrightarrow>
     startStreamingJob E t ci ap rl st
       = st\<lparr>outbox := outbox st @ [Direct (ErrorMsg (InputTooLong (countWords t)))]\<rparr>"
  by (simp_all add: startStreamingJob_def Let_def sendError_def sendToClient_def emit_def)

lemma startStreamingJob_chunks:
  "\<exists>rows. map chunkStatic (drop (length (chunksT st)) (chunksT (startStreamingJob E t ci ap rl st)))
           = map chunkStatic rows
     \<and> (500 < countWords t \<and> countWords t \<le> 50000 \<and> \<not> dbFails E InsertDocument \<longrightarrow>
          map (\<lambda>c. (c_chunkIndex c, c_chunkInputText c, c_chunkInputWords c)) rows
            = map (\<lambda>(k, tx, w). (k, tx, w))
                (filter (\<lambda>(k, x). \<not> dbFails E (InsertChunk k)) (enumerate 0 (smartChunk E t))))
     \<and> (\<forall>c\<in>set rows. c_documentId c = nextDocumentId st \<and> c_status c = C_pending
           \<and> c_targetWords c = jsRound (dmul (of_nat (c_chunkInputWords c))
                                 (lengthRatio (lengthConfigFor E (countWords t) ci)))
           \<and> c_minWords c = \<lfloor>of_int (c_targetWords c) * (85 / 100 :: rat)\<rfloor>
           \<and> c_maxWords c = \<lceil>of_int (c_targetWords c) * (115 / 100 :: rat)\<rceil>)"
proof (cases "500 < countWords t \<and> countWords t \<le> 50000 \<and> \<not> dbFails E InsertDocument")
  case True
  let ?st1 = "st\<lparr>documents := documents st @ [newJobRow (nextDocumentId st) t (countWords t)
                                 (lengthConfigFor E (countWords t) ci) (length (smartChunk E t)) ap rl ci (now st)],
                      nextDocumentId := Suc (nextDocumentId st)\<rparr>"
  from insertChunks_table [of E "nextDocumentId st" "lengthConfigFor E (countWords t) ci" 0 "smartChunk E t" ?st1]
  obtain rows where r: "chunksT (insertChunks E (nextDocumentId st) (lengthConfigFor E (countWords t) ci) 0
        (smartChunk E t) ?st1) = chunksT st @ rows"
    "map (\<lambda>c. (c_chunkIndex c, c_chunkInputText c, c_chunkInputWords c)) rows
         = map (\<lambda>(k, tx, w). (k, tx, w)) (filter (\<lambda>(k, x). \<not> dbFails E (InsertChunk k)) (enumerate 0 (smartChunk E t)))"
    "\<forall>c\<in>set rows. c_documentId c = nextDocumentId st \<and> c_status c = C_pending
           \<and> c_targetWords c = jsRound (dmul (of_nat (c_chunkInputWords c))
                                 (lengthRatio (lengthConfigFor E (countWords t) ci)))
           \<and> c_minWords c = \<lfloor>of_int (c_targetWords c) * (85 / 100 :: rat)\<rfloor>
           \<and> c_maxWords c = \<lceil>of_int (c_targetWords c) * (115 / 100 :: rat)\<rceil>"
    by auto
  have "map chunkStatic (chunksT (startStreamingJob E t ci ap rl st)) = map chunkStatic (chunksT st @ rows)"
    using True by (simp add: startStreamingJob_accept processJobAsync_static peel r(1))
  then have "map chunkStatic (drop (length (chunksT st)) (chunksT (startStreamingJob E t ci ap rl st)))
           = map chunkStatic rows"
    by (rule drop_static)
  then show ?thesis using r(2,3) by blast
next
  case False
  then have "chunksT (startStreamingJob E t ci ap rl st) = chunksT st"
    by (auto simp: startStreamingJob_def Let_def peel)
  then show ?thesis using False by (intro exI [of _ "[]"]) auto
qed

lemma stubEnv_start:
  "lengthConfigFor stubEnv = (\<lambda>n instr. stubConfig n)" "smartChunk stubEnv = (\<lambda>t. [(t, countWords t)])"
  by (simp_all add: stubEnv_def)

lemma sampleState_counters: "nextDocumentId sampleState = 2" "now sampleState = 0"
  "length (chunksT sampleState) = 2"
  by (simp_all add: sampleState_def)

text \<open>
  C4: a \<open>start_job\<close> request whose text has 500 words or fewer, or more than 50000 words,
  is answered with an error message and changes nothing else in the state: no job row, no
  chunk row, no registry entry. A request whose word count is in [501, 50000] creates the job
  row (with the text, its word count, the length configuration and the number of chunks),
  provided the insert is not refused by the store.
\<close>

theorem C4_input_limits:
  "(countWords t \<le> 500 \<longrightarrow>
      startStreamingJob E t ci ap rl st
        = st\<lparr>outbox := outbox st @ [Direct (ErrorMsg (DocumentTooShort (countWords t)))]\<rparr>)
   \<and> (50000 < countWords t \<longrightarrow>
      startStreamingJob E t ci ap rl st
        = st\<lparr>outbox := outbox st @ [Direct (ErrorMsg (InputTooLong (countWords t)))]\<rparr>)
   \<and> (500 < countWords t \<and> countWords t \<le> 50000 \<and> \<not> dbFails E InsertDocument \<longrightarrow>
      map jobStatic (documents (startStreamingJob E t ci ap rl st))
        = map jobStatic (documents st)
          @ [jobStatic (newJobRow (nextDocumentId st) t (countWords t)
               (lengthConfigFor E (countWords t) ci) (length (smartChunk E t)) ap rl ci (now st))])"
  using startStreamingJob_reject [of t E ci ap rl st] startStreamingJob_documents [of t E ci ap rl st]
  by blast

theorem C4_input_limits_witness:
  "countWords (wordsText 499) = 500
   \<and> startStreamingJob stubEnv (wordsText 499) None None None sampleState
       = sampleState\<lparr>outbox := outbox sampleState @ [Direct (ErrorMsg (DocumentTooShort 500))]\<rparr>
   \<and> countWords (wordsText 500) = 501
   \<and> map jobStatic (documents (startStreamingJob stubEnv (wordsText 500) None None None sampleState))
       = map jobStatic (documents sampleState)
         @ [jobStatic (newJobRow 2 (wordsText 500) 501 (stubConfig 501) 1 None None None 0)]
   \<and> countWords (wordsText 49999) = 50000
   \<and> map jobStatic (documents (startStreamingJob stubEnv (wordsText 49999) None None None sampleState))
       = map jobStatic (documents sampleState)
         @ [jobStatic (newJobRow 2 (wordsText 49999) 50000 (stubConfig 50000) 1 None None None 0)]
   \<and> countWords (wordsText 50000) = 50001
   \<and> startStreamingJob stubEnv (wordsText 50000) None None None sampleState
       = sampleState\<lparr>outbox := outbox sampleState @ [Direct (ErrorMsg (InputTooLong 50001))]\<rparr>"
  using C4_input_limits [of "wordsText 499" stubEnv None None None sampleState]
    C4_input_limits [of "wordsText 500" stubEnv None None None sampleState]
    C4_input_limits [of "wordsText 49999" stubEnv None None None sampleState]
    C4_input_limits [of "wordsText 50000" stubEnv None None None sampleState]
  by (simp add: countWords_wordsText stubEnv_fields stubEnv_start sampleState_counters)

text \<open>
  C6: every chunk row created by \<open>startStreamingJob\<close>, as it stands when the request has been
  served, belongs to the new job and has \<open>targetWords = round(chunkInputWords * lengthRatio)\<close>
  (\<open>Math.round\<close> of the product of the two doubles),
  \<open>minWords = floor(targetWords * 0.85)\<close> and \<open>maxWords = ceil(targetWords * 1.15)\<close>; when
  no statement is refused there is one such row for every chunk index of the job.
\<close>

theorem C6_length_band_of_created_chunks:
  "(\<forall>c\<in>set (drop (length (chunksT st)) (chunksT (startStreamingJob E t ci ap rl st))).
       c_documentId c = nextDocumentId st
     \<and> c_targetWords c = jsRound (dmul (of_nat (c_chunkInputWords c))
                                 (lengthRatio (lengthConfigFor E (countWords t) ci)))
     \<and> c_minWords c = \<lfloor>of_int (c_targetWords c) * (85 / 100 :: rat)\<rfloor>
     \<and> c_maxWords c = \<lceil>of_int (c_targetWords c) * (115 / 100 :: rat)\<rceil>)
   \<and> (500 < countWords t \<and> countWords t \<le> 50000 \<and> (\<forall>s. \<not> dbFails E s) \<longrightarrow>
        map (\<lambda>c. (c_chunkIndex c, c_chunkInputText c, c_chunkInputWords c))
            (drop (length (chunksT st)) (chunksT (startStreamingJob E t ci ap rl st)))
          = map (\<lambda>(k, tx, w). (k, tx, w)) (enumerate 0 (smartChunk E t)))"
proof -
  let ?D = "drop (length (chunksT st)) (chunksT (startStreamingJob E t ci ap rl st))"
  from startStreamingJob_chunks [of st E t ci ap rl] obtain rows where
    s: "map chunkStatic ?D = map chunkStatic rows"
    and i: "500 < countWords t \<and> countWords t \<le> 50000 \<and> \<not> dbFails E InsertDocument \<longrightarrow>
          map (\<lambda>c. (c_chunkIndex c, c_chunkInputText c, c_chunkInputWords c)) rows
            = map (\<lambda>(k, tx, w). (k, tx, w))
                (filter (\<lambda>(k, x). \<not> dbFails E (InsertChunk k)) (enumerate 0 (smartChunk E t)))"
    and b: "\<forall>c\<in>set rows. c_documentId c = nextDocumentId st \<and> c_status c = C_pending
           \<and> c_targetWords c = jsRound (dmul (of_nat (c_chunkInputWords c))
                                 (lengthRatio (lengthConfigFor E (countWords t) ci)))
           \<and> c_minWords c = \<lfloor>of_int (c_targetWords c) * (85 / 100 :: rat)\<rfloor>
           \<and> c_maxWords c = \<lceil>of_int (c_targetWords c) * (115 / 100 :: rat)\<rceil>"
    by blast
  have band: "c_documentId c = nextDocumentId st
     \<and> c_targetWords c = jsRound (dmul (of_nat (c_chunkInputWords c))
                                 (lengthRatio (lengthConfigFor E (countWords t) ci)))
     \<and> c_minWords c = \<lfloor>of_int (c_targetWords c) * (85 / 100 :: rat)\<rfloor>
     \<and> c_maxWords c = \<lceil>of_int (c_targetWords c) * (115 / 100 :: rat)\<rceil>" if "c \<in> set ?D" for c
  proof -
    have "chunkStatic c \<in> set (map chunkStatic rows)" using that s [symmetric] by simp
    then obtain row where row: "row \<in> set rows" "chunkStatic c = chunkStatic row" by auto
    have "c_documentId c = c_documentId row" "c_targetWords c = c_targetWords row"
      "c_chunkInputWords c = c_chunkInputWords row" "c_minWords c = c_minWords row"
      "c_maxWords c = c_maxWords row"
      using row(2) by (auto dest: chunkStatic_eqD)
    then show ?thesis using b row(1) by simp
  qed
  have f: "map (\<lambda>c. (c_chunkIndex c, c_chunkInputText c, c_chunkInputWords c)) xs
      = map (\<lambda>c. (c_chunkIndex c, c_chunkInputText c, c_chunkInputWords c)) (map chunkStatic xs)" for xs
    by (simp add: comp_def)
  have idx: "map (\<lambda>c. (c_chunkIndex c, c_chunkInputText c, c_chunkInputWords c)) ?D
      = map (\<lambda>c. (c_chunkIndex c, c_chunkInputText c, c_chunkInputWords c)) rows"
    using f [of ?D] f [of rows] s by simp
  show ?thesis using band idx i by auto
qed

lemma expandEnv_fields:
  "dbFails expandEnv = (\<lambda>s. False)"
  "lengthConfigFor expandEnv = (\<lambda>n instr. (stubConfig n)\<lparr>lengthRatio := fl (115 / 100)\<rparr>)"
  "smartChunk expandEnv = (\<lambda>t. [(t, countWords t)])"
  by (simp_all add: expandEnv_def stubEnv_def)

lemma band_747:
  "\<lfloor>(12699 :: rat) / 20\<rfloor> = 634" "\<lceil>(17181 :: rat) / 20\<rceil> = 860"
  by (simp_all add: floor_eq_iff ceiling_eq_iff)

lemma target_650: "jsRound (dmul 650 (fl (23 / 20))) = 747"
  by code_simp

theorem C6_length_band_witness:
  "map (\<lambda>c. (c_chunkIndex c, c_chunkInputWords c, c_targetWords c, c_minWords c, c_maxWords c))
     (drop (length (chunksT sampleState))
        (chunksT (startStreamingJob expandEnv (wordsText 649) None None None sampleState)))
   = [(0, 650, 747, 634, 860)]"
proof -
  let ?D = "drop (length (chunksT sampleState))
        (chunksT (startStreamingJob expandEnv (wordsText 649) None None None sampleState))"
  note T = C6_length_band_of_created_chunks [of sampleState expandEnv "wordsText 649" None None None]
  have m: "map (\<lambda>c. (c_chunkIndex c, c_chunkInputText c, c_chunkInputWords c)) ?D
      = [(0, wordsText 649, 650)]"
    using T by (simp add: countWords_wordsText expandEnv_fields)
  then obtain c where c: "?D = [c]" by auto
  have f: "c_chunkIndex c = 0" "c_chunkInputWords c = 650" using m by (simp_all add: c)
  have "c_targetWords c = jsRound (dmul (of_nat (c_chunkInputWords c))
                                 (lengthRatio (lengthConfigFor expandEnv (countWords (wordsText 649)) None)))
     \<and> c_minWords c = \<lfloor>of_int (c_targetWords c) * (85 / 100 :: rat)\<rfloor>
     \<and> c_maxWords c = \<lceil>of_int (c_targetWords c) * (115 / 100 :: rat)\<rceil>"
    using T by (simp add: c)
  then have "c_targetWords c = 747" "c_minWords c = 634" "c_maxWords c = 860"
    by (simp_all add: f expandEnv_fields target_650 band_747)
  then show ?thesis by (simp add: c f)
qed

end
